theory Spec2Isabelle
  imports Main "HOL-Library.Word"
begin

unbundle bit_operations_syntax

section \<open>Return Link Encapsulation: a shallow embedding of librle\<close>

text \<open>
  The development follows the C sources file by file: the fragmentation context
  (\<^verbatim>\<open>rle_ctx.c\<close>), the transmitter (\<^verbatim>\<open>rle_transmitter.c\<close>), the early
  encapsulation module (\<^verbatim>\<open>encap.c\<close>), the reassembly module (\<^verbatim>\<open>reassembly.c\<close>)
  and the expectations written down in the test programs. Bytes are \<open>8 word\<close>,
  \<^verbatim>\<open>uint16_t\<close> is \<open>16 word\<close>, \<^verbatim>\<open>uint32_t\<close> is \<open>32 word\<close>, \<^verbatim>\<open>uint64_t\<close> is
  \<open>64 word\<close>; \<^verbatim>\<open>size_t\<close> lengths of buffers are \<open>nat\<close>.
\<close>

type_synonym byte = "8 word"

subsection \<open>Constants of the missing header \<^verbatim>\<open>constants.h\<close>\<close>

definition RLE_MAX_FRAG_NUMBER :: nat where
  \<comment> \<open>Modelled from the spec: \<^verbatim>\<open>constants.h\<close> is missing; section 3 gives eight
      fragment-id contexts, numbered 0 to 7.\<close>
  "RLE_MAX_FRAG_NUMBER = 8"

definition RLE_MAX_FRAG_ID :: byte where
  \<comment> \<open>Modelled from the spec: \<^verbatim>\<open>constants.h\<close> is missing; the largest fragment id is 7.\<close>
  "RLE_MAX_FRAG_ID = 7"

definition RLE_MAX_PDU_SIZE :: nat where
  \<comment> \<open>Modelled from the spec: \<^verbatim>\<open>constants.h\<close> is missing; section 3 bounds an SDU
      by 4088 bytes.\<close>
  "RLE_MAX_PDU_SIZE = 4088"

datatype c_status = C_OK | C_ERROR | C_ERROR_TOO_MUCH_FRAG | C_REASSEMBLY_OK

subsection \<open>The fragmentation context, \<^verbatim>\<open>rle_ctx.c\<close>\<close>

text \<open>
  \<^verbatim>\<open>struct rle_ctx_management\<close> is declared in the missing \<^verbatim>\<open>rle_ctx.h\<close>. The
  record has the scalar fields the functions of \<^verbatim>\<open>rle_ctx.c\<close> and
  \<^verbatim>\<open>rle_transmitter.c\<close> read and write, with the widths of the setters' parameters;
  \<^verbatim>\<open>flush\<close> stores \<^verbatim>\<open>0xff\<close> in \<^verbatim>\<open>next_seq_nb\<close> as an invalid value, so that
  field is a full byte. The number of fragments \<^verbatim>\<open>nb_frag_pdu\<close> is the one the
  transmitter reads into a \<^verbatim>\<open>uint16_t\<close>, and the four statistics counters are the
  ones it sums into \<^verbatim>\<open>uint64_t\<close> accumulators. The buffer pointers (\<^verbatim>\<open>buf\<close>,
  \<^verbatim>\<open>end_addr\<close>) are left out: no function modelled here reads through them.
\<close>

record rle_ctx_management =
  frag_id :: byte
  next_seq_nb :: byte
  is_fragmented :: bool
  frag_counter :: byte
  qos_tag :: "32 word"
  use_crc :: bool
  pdu_length :: "32 word"
  remaining_pdu_length :: "32 word"
  rle_length :: "32 word"
  proto_type :: "16 word"
  label_type :: byte
  error_nb :: "32 word"
  error_type :: "32 word"
  nb_frag_pdu :: "16 word"
  counter_ok :: "64 word"
  counter_dropped :: "64 word"
  counter_lost :: "64 word"
  counter_bytes :: "64 word"

definition flush :: "rle_ctx_management \<Rightarrow> rle_ctx_management" where
  "flush c = c\<lparr>frag_id := 0xff, next_seq_nb := 0xff, is_fragmented := False,
     frag_counter := 0, qos_tag := 0xffffffff, use_crc := False, pdu_length := 0,
     remaining_pdu_length := 0, rle_length := 0, proto_type := 0xffff,
     label_type := 0xff, error_nb := 0, error_type := 0\<rparr>"

definition rle_ctx_set_frag_id :: "rle_ctx_management \<Rightarrow> byte \<Rightarrow> rle_ctx_management" where
  "rle_ctx_set_frag_id c val = (if val > RLE_MAX_FRAG_ID then c else c\<lparr>frag_id := val\<rparr>)"

definition rle_ctx_set_seq_nb :: "rle_ctx_management \<Rightarrow> byte \<Rightarrow> rle_ctx_management" where
  "rle_ctx_set_seq_nb c val = c\<lparr>next_seq_nb := val\<rparr>"

definition rle_ctx_incr_seq_nb :: "rle_ctx_management \<Rightarrow> rle_ctx_management" where
  \<comment> \<open>\<^verbatim>\<open>_this->next_seq_nb++\<close> on a byte.\<close>
  "rle_ctx_incr_seq_nb c = c\<lparr>next_seq_nb := next_seq_nb c + 1\<rparr>"

definition rle_ctx_set_is_fragmented :: "rle_ctx_management \<Rightarrow> bool \<Rightarrow> rle_ctx_management" where
  "rle_ctx_set_is_fragmented c val = c\<lparr>is_fragmented := val\<rparr>"

definition rle_ctx_set_frag_counter :: "rle_ctx_management \<Rightarrow> byte \<Rightarrow> rle_ctx_management" where
  "rle_ctx_set_frag_counter c val = c\<lparr>frag_counter := val\<rparr>"

definition rle_ctx_set_qos_tag :: "rle_ctx_management \<Rightarrow> 32 word \<Rightarrow> rle_ctx_management" where
  "rle_ctx_set_qos_tag c val = c\<lparr>qos_tag := val\<rparr>"

definition rle_ctx_set_use_crc :: "rle_ctx_management \<Rightarrow> bool \<Rightarrow> rle_ctx_management" where
  "rle_ctx_set_use_crc c val = c\<lparr>use_crc := val\<rparr>"

definition rle_ctx_set_pdu_length :: "rle_ctx_management \<Rightarrow> 32 word \<Rightarrow> rle_ctx_management" where
  "rle_ctx_set_pdu_length c val =
     (if unat val > RLE_MAX_PDU_SIZE then c else c\<lparr>pdu_length := val\<rparr>)"

definition rle_ctx_set_remaining_pdu_length ::
  "rle_ctx_management \<Rightarrow> 32 word \<Rightarrow> rle_ctx_management" where
  "rle_ctx_set_remaining_pdu_length c val =
     (if unat val > RLE_MAX_PDU_SIZE then c else c\<lparr>remaining_pdu_length := val\<rparr>)"

definition rle_ctx_set_rle_length :: "rle_ctx_management \<Rightarrow> 32 word \<Rightarrow> rle_ctx_management" where
  "rle_ctx_set_rle_length c val =
     (if unat val > RLE_MAX_PDU_SIZE then c else c\<lparr>rle_length := val\<rparr>)"

definition rle_ctx_set_proto_type :: "rle_ctx_management \<Rightarrow> 16 word \<Rightarrow> rle_ctx_management" where
  "rle_ctx_set_proto_type c val = c\<lparr>proto_type := val\<rparr>"

text \<open>
  The setter of the label type prints an error and returns when its guard holds. The
  two legal values \<^verbatim>\<open>RLE_LT_IMPLICIT_PROTO_TYPE\<close> and \<^verbatim>\<open>RLE_LT_PROTO_SIGNAL\<close> come
  from the missing \<^verbatim>\<open>constants.h\<close> and are parameters here. The result pairs the
  context with the flag "an invalid value was reported".
\<close>

definition rle_ctx_set_label_type ::
  "byte \<Rightarrow> byte \<Rightarrow> rle_ctx_management \<Rightarrow> byte \<Rightarrow> rle_ctx_management \<times> bool" where
  "rle_ctx_set_label_type lt_implicit_proto_type lt_proto_signal c val =
     (if val \<noteq> lt_implicit_proto_type \<or> val \<noteq> lt_proto_signal then (c, True)
      else (c\<lparr>label_type := val\<rparr>, False))"

definition rle_ctx_get_label_type :: "rle_ctx_management \<Rightarrow> byte" where
  "rle_ctx_get_label_type c = label_type c"

text \<open>One round of the loop of \<^verbatim>\<open>init\<close> in \<^verbatim>\<open>rle_transmitter.c\<close>, without the allocation.\<close>

definition blank_ctx :: rle_ctx_management where
  "blank_ctx = \<lparr>frag_id = 0, next_seq_nb = 0, is_fragmented = False, frag_counter = 0,
     qos_tag = 0, use_crc = False, pdu_length = 0, remaining_pdu_length = 0,
     rle_length = 0, proto_type = 0, label_type = 0, error_nb = 0, error_type = 0,
     nb_frag_pdu = 0, counter_ok = 0, counter_dropped = 0, counter_lost = 0, counter_bytes = 0\<rparr>"

definition init_ctx :: "nat \<Rightarrow> rle_ctx_management" where
  "init_ctx i = rle_ctx_set_seq_nb (rle_ctx_set_frag_id (flush blank_ctx) (of_nat i)) 0"

subsection \<open>The transmitter, \<^verbatim>\<open>rle_transmitter.c\<close>\<close>

text \<open>
  \<^verbatim>\<open>struct rle_transmitter\<close>: the array of contexts and the bitmap \<^verbatim>\<open>free_ctx\<close>,
  a byte (the code masks it with \<^verbatim>\<open>0xff\<close>). The mutex is not modelled: every function
  here holds it for one read or one write.
\<close>

record rle_transmitter =
  rle_ctx_man :: "rle_ctx_management list"
  free_ctx :: byte

definition is_frag_ctx_free :: "rle_transmitter \<Rightarrow> nat \<Rightarrow> bool" where
  \<comment> \<open>\<^verbatim>\<open>((_this->free_ctx >> frag_id) & 0x1) ? C_TRUE : C_FALSE\<close>, on the promoted \<^verbatim>\<open>int\<close>.\<close>
  "is_frag_ctx_free t fid = ((drop_bit fid (uint (free_ctx t))) AND 1 \<noteq> 0)"

definition set_nonfree_frag_ctx :: "rle_transmitter \<Rightarrow> nat \<Rightarrow> rle_transmitter" where
  \<comment> \<open>\<^verbatim>\<open>_this->free_ctx |= (1 << index)\<close>: computed on \<^verbatim>\<open>int\<close>, stored back in a byte.\<close>
  "set_nonfree_frag_ctx t index =
     t\<lparr>free_ctx := word_of_int (uint (free_ctx t) OR push_bit index 1)\<rparr>"

definition set_free_frag_ctx :: "rle_transmitter \<Rightarrow> nat \<Rightarrow> rle_transmitter" where
  \<comment> \<open>\<^verbatim>\<open>_this->free_ctx = (0 << index) & 0xff\<close>.\<close>
  "set_free_frag_ctx t index = t\<lparr>free_ctx := word_of_int (push_bit index 0 AND 0xff)\<rparr>"

definition set_free_all_frag_ctx :: "rle_transmitter \<Rightarrow> rle_transmitter" where
  "set_free_all_frag_ctx t = t\<lparr>free_ctx := 0\<rparr>"

definition rle_transmitter_free_context :: "rle_transmitter \<Rightarrow> byte \<Rightarrow> rle_transmitter" where
  "rle_transmitter_free_context t fragment_id = set_free_frag_ctx t (unat fragment_id)"

definition init :: "rle_transmitter" where
  \<comment> \<open>The transmitter after \<^verbatim>\<open>init\<close>: eight initialised contexts, every bit cleared.\<close>
  "init = set_free_all_frag_ctx
     \<lparr>rle_ctx_man = map init_ctx [0..<RLE_MAX_FRAG_NUMBER], free_ctx = 0\<rparr>"

text \<open>
  The four statistics queries run the same loop over the eight contexts, adding a
  per-context getter into a \<^verbatim>\<open>uint64_t\<close> accumulator. The getters
  (\<^verbatim>\<open>rle_ctx_get_counter_ok\<close> and its siblings) are in the missing \<^verbatim>\<open>rle_ctx.h\<close>;
  they read one field. Each query returns the accumulator together with the
  transmitter it was given, which it has not written to.
\<close>

function counter_loop ::
  "(rle_ctx_management \<Rightarrow> 64 word) \<Rightarrow> rle_transmitter \<Rightarrow> nat \<Rightarrow> 64 word \<Rightarrow> 64 word" where
  \<comment> \<open>\<^verbatim>\<open>for (i = 0; i < RLE_MAX_FRAG_NUMBER; i++) ctr += get(&_this->rle_ctx_man[i]);\<close>\<close>
  "counter_loop get t i acc =
     (if i < RLE_MAX_FRAG_NUMBER
      then counter_loop get t (Suc i) (acc + get (rle_ctx_man t ! i))
      else acc)"
  by pat_completeness auto
termination
  by (relation "measure (\<lambda>(get, t, i, acc). RLE_MAX_FRAG_NUMBER - i)") auto

declare counter_loop.simps [simp del]

definition rle_transmitter_get_counter_ok :: "rle_transmitter \<Rightarrow> 64 word \<times> rle_transmitter" where
  "rle_transmitter_get_counter_ok t = (counter_loop counter_ok t 0 0, t)"

definition rle_transmitter_get_counter_dropped :: "rle_transmitter \<Rightarrow> 64 word \<times> rle_transmitter" where
  "rle_transmitter_get_counter_dropped t =
     (counter_loop counter_dropped t 0 0, t)"

definition rle_transmitter_get_counter_lost :: "rle_transmitter \<Rightarrow> 64 word \<times> rle_transmitter" where
  "rle_transmitter_get_counter_lost t = (counter_loop counter_lost t 0 0, t)"

definition rle_transmitter_get_counter_bytes :: "rle_transmitter \<Rightarrow> 64 word \<times> rle_transmitter" where
  "rle_transmitter_get_counter_bytes t = (counter_loop counter_bytes t 0 0, t)"


text \<open>
  \<^verbatim>\<open>rle_transmitter_encap_data\<close> and \<^verbatim>\<open>rle_transmitter_get_packet\<close>. The first
  calls \<^verbatim>\<open>encap_encapsulate_pdu\<close> with five arguments and the second calls
  \<^verbatim>\<open>fragmentation_fragment_pdu\<close>; neither callee is in the sources with that
  signature, so both are parameters, with the configuration they are passed
  inside them. The callee of the second returns its status, the context and the
  bytes it wrote into the burst buffer. \<^verbatim>\<open>RLE_MAX_SEQ_NO\<close> is a constant of the
  missing \<^verbatim>\<open>constants.h\<close> that the specification leaves open, a parameter too.
  \<^verbatim>\<open>rle_ctx_incr_counter_dropped\<close> is in the missing \<^verbatim>\<open>rle_ctx.h\<close>. A null pointer
  is \<open>None\<close>.
\<close>

definition rle_ctx_incr_counter_dropped :: "rle_ctx_management \<Rightarrow> rle_ctx_management" where
  \<comment> \<open>Modelled from the spec: \<^verbatim>\<open>rle_ctx.h\<close> is missing; the counter of dropped
      packets goes up by one.\<close>
  "rle_ctx_incr_counter_dropped c = c\<lparr>counter_dropped := counter_dropped c + 1\<rparr>"

definition upd_ctx ::
  "rle_transmitter \<Rightarrow> nat \<Rightarrow> (rle_ctx_management \<Rightarrow> rle_ctx_management) \<Rightarrow> rle_transmitter" where
  \<comment> \<open>A write through \<^verbatim>\<open>&_this->rle_ctx_man[i]\<close>.\<close>
  "upd_ctx t i f = t\<lparr>rle_ctx_man := (rle_ctx_man t)[i := f (rle_ctx_man t ! i)]\<rparr>"

definition rle_transmitter_encap_data ::
  "(rle_ctx_management \<Rightarrow> byte list \<Rightarrow> nat \<Rightarrow> 16 word \<Rightarrow> c_status \<times> rle_ctx_management) \<Rightarrow>
   rle_transmitter option \<Rightarrow> byte list option \<Rightarrow> nat \<Rightarrow> 16 word \<Rightarrow> byte \<Rightarrow>
   c_status \<times> rle_transmitter option" where
  "rle_transmitter_encap_data encap this data_buffer data_length protocol_type fid =
     (case data_buffer of
        None \<Rightarrow> (C_ERROR, this)
      | Some buf \<Rightarrow>
        (case this of
           None \<Rightarrow> (C_ERROR, this)
         | Some t \<Rightarrow>
           if is_frag_ctx_free t (unat fid) then (C_ERROR, Some t)
           else
             let t1 = set_nonfree_frag_ctx t (unat fid);
                 (r, c') = encap (rle_ctx_man t1 ! unat fid) buf data_length protocol_type;
                 t2 = upd_ctx t1 (unat fid) (\<lambda>_. c')
             in if r = C_ERROR
                then (C_ERROR,
                      Some (set_free_frag_ctx
                              (upd_ctx t2 (unat fid) rle_ctx_incr_counter_dropped) (unat fid)))
                else (C_OK, Some t2)))"

definition rle_transmitter_get_packet ::
  "nat \<Rightarrow>
   (rle_ctx_management \<Rightarrow> nat \<Rightarrow> 16 word \<Rightarrow> c_status \<times> rle_ctx_management \<times> byte list) \<Rightarrow>
   rle_transmitter \<Rightarrow> byte list \<Rightarrow> nat \<Rightarrow> byte \<Rightarrow> 16 word \<Rightarrow>
   c_status \<times> rle_transmitter \<times> byte list" where
  "rle_transmitter_get_packet max_seq_no fragmentation_fragment_pdu this burst_buffer
     burst_length fragment_id protocol_type =
     (let number_frags = nb_frag_pdu (rle_ctx_man this ! unat fragment_id);
          (ret, t1, burst) =
            (if unat number_frags \<ge> max_seq_no then (C_ERROR_TOO_MUCH_FRAG, this, burst_buffer)
             else
               let (r, c', b) = fragmentation_fragment_pdu
                                  (rle_ctx_man this ! unat fragment_id) burst_length protocol_type
               in (r, upd_ctx this (unat fragment_id) (\<lambda>_. c'), b))
      in if ret \<noteq> C_OK
         then (ret,
               set_free_frag_ctx (upd_ctx t1 (unat fragment_id) rle_ctx_incr_counter_dropped)
                 (unat fragment_id),
               burst)
         else (ret, t1, burst))"

text \<open>A transmitter whose eight contexts have counted different amounts.\<close>

definition stats_ctx :: "nat \<Rightarrow> rle_ctx_management" where
  "stats_ctx i = (init_ctx i)\<lparr>counter_ok := of_nat (i + 1), counter_dropped := of_nat (2 * i),
     counter_lost := 1, counter_bytes := of_nat (100 * i)\<rparr>"

definition stats_transmitter :: rle_transmitter where
  "stats_transmitter = \<lparr>rle_ctx_man = map stats_ctx [0..<RLE_MAX_FRAG_NUMBER], free_ctx = 0\<rparr>"

subsection \<open>The early encapsulation module, \<^verbatim>\<open>encap.c\<close>\<close>

text \<open>
  \<^verbatim>\<open>encap_check_pdu_validity\<close> casts the buffer to \<^verbatim>\<open>struct iphdr\<close> (the source
  names the buffer \<^verbatim>\<open>data_buf\<close> there, its parameter is \<^verbatim>\<open>data_buffer\<close>) and reads
  the version nibble of byte 0 and the total length in bytes 2 and 3, in network
  byte order. A buffer shorter than four bytes would be read past its end; the
  model answers \<open>None\<close> there.
\<close>

definition IP_VERSION_4 :: byte where
  \<comment> \<open>Modelled from the spec: \<^verbatim>\<open>constants.h\<close> is missing; IP version 4.\<close>
  "IP_VERSION_4 = 4"

definition IP_VERSION_6 :: byte where
  \<comment> \<open>Modelled from the spec: \<^verbatim>\<open>constants.h\<close> is missing; IP version 6.\<close>
  "IP_VERSION_6 = 6"

definition ntohs :: "byte \<Rightarrow> byte \<Rightarrow> 16 word" where
  \<comment> \<open>The 16-bit value whose first byte in memory is \<open>hi\<close>.\<close>
  "ntohs hi lo = push_bit 8 (ucast hi) OR ucast lo"

definition iphdr_version :: "byte list \<Rightarrow> byte" where
  "iphdr_version b = drop_bit 4 (b ! 0) AND 0x0f"

definition iphdr_tot_len :: "byte list \<Rightarrow> 16 word" where
  "iphdr_tot_len b = ntohs (b ! 2) (b ! 3)"

definition encap_check_pdu_validity :: "byte list \<Rightarrow> c_status option" where
  "encap_check_pdu_validity data_buffer =
     (if length data_buffer < 4 then None
      else
        let ip_len = unat (iphdr_tot_len data_buffer) in
        if ip_len > RLE_MAX_PDU_SIZE then Some C_ERROR
        else if iphdr_version data_buffer \<noteq> IP_VERSION_4 \<and>
                iphdr_version data_buffer \<noteq> IP_VERSION_6 then Some C_ERROR
        else Some C_OK)"

text \<open>
  \<^verbatim>\<open>create_header\<close> fills the header that lies at the start of the context's buffer
  (its layout is in the missing \<^verbatim>\<open>zc_buffer.h\<close> and is not modelled) and updates the
  context through the setters of \<^verbatim>\<open>rle_ctx.c\<close>. Four constants of the missing
  \<^verbatim>\<open>constants.h\<close> are parameters, collected in a record.
\<close>

record encap_constants =
  RLE_LT_IMPLICIT_PROTO_TYPE :: byte
  RLE_LT_PROTO_SIGNAL :: byte
  RLE_PROTO_TYPE_FIELD_SIZE :: nat
  RLE_PROTO_TYPE_IP :: "16 word"

definition create_header ::
  "encap_constants \<Rightarrow> rle_ctx_management \<Rightarrow> byte list \<Rightarrow> nat \<Rightarrow> c_status \<times> rle_ctx_management" where
  "create_header k rle_ctx data_buffer data_length =
     (let c1 = rle_ctx_set_is_fragmented rle_ctx False;
          c2 = rle_ctx_set_frag_counter c1 1;
          c3 = rle_ctx_set_use_crc c2 False;
          c4 = rle_ctx_set_pdu_length c3 (of_nat data_length);
          c5 = rle_ctx_set_remaining_pdu_length c4 (of_nat data_length);
          c6 = rle_ctx_set_rle_length c5 (of_nat (data_length + RLE_PROTO_TYPE_FIELD_SIZE k));
          c7 = rle_ctx_set_proto_type c6 (RLE_PROTO_TYPE_IP k);
          c8 = fst (rle_ctx_set_label_type (RLE_LT_IMPLICIT_PROTO_TYPE k) (RLE_LT_PROTO_SIGNAL k)
                      c7 (RLE_LT_IMPLICIT_PROTO_TYPE k));
          c9 = rle_ctx_set_qos_tag c8 0
      in (C_OK, c9))"

definition encap_encapsulate_pdu ::
  "encap_constants \<Rightarrow> rle_ctx_management \<Rightarrow> byte list \<Rightarrow> nat \<Rightarrow>
   (c_status \<times> rle_ctx_management) option" where
  "encap_encapsulate_pdu k rle_ctx data_buffer data_length =
     (case encap_check_pdu_validity data_buffer of
        None \<Rightarrow> None
      | Some r \<Rightarrow>
          if r = C_ERROR then Some (C_ERROR, rle_ctx)
          else
            let (r2, c) = create_header k rle_ctx data_buffer data_length
            in if r2 = C_ERROR then Some (C_ERROR, c) else Some (C_OK, c))"

definition ipv4_sdu :: "nat \<Rightarrow> byte list" where
  \<comment> \<open>An SDU of \<open>n\<close> bytes that begins with a minimal IPv4 header announcing a total
      length of 20 bytes, followed by zeros.\<close>
  "ipv4_sdu n = take n ([0x45, 0x00, 0x00, 0x14] @ replicate n 0)"

definition zero_sdu :: "nat \<Rightarrow> byte list" where
  "zero_sdu n = replicate n 0"

subsection \<open>The expectations of \<^verbatim>\<open>test_rle_encap.c\<close>\<close>

text \<open>
  \<^verbatim>\<open>struct rle_context_configuration\<close>, with the four fields the tests set, and the
  two functions of the test program that say which ALPDU header an encapsulation
  must produce: \<^verbatim>\<open>is_suppressible\<close>, and the part of \<^verbatim>\<open>test_encap\<close> that builds
  \<^verbatim>\<open>theorical_alpdu_header\<close>.
\<close>

record rle_context_configuration =
  implicit_protocol_type :: byte
  use_alpdu_crc :: bool
  use_compressed_ptype :: bool
  use_ptype_omission :: bool

definition is_suppressible :: "16 word \<Rightarrow> byte \<Rightarrow> bool" where
  "is_suppressible protocol_type default_ptype =
     (if protocol_type = 0x0082 then True
      else if protocol_type = 0x8100 then default_ptype = 0x0f
      else if protocol_type = 0x88a8 then default_ptype = 0x19
      else if protocol_type = 0x9100 then default_ptype = 0x1a
      else if protocol_type = 0x0800 then (default_ptype = 0x0d \<or> default_ptype = 0x30)
      else if protocol_type = 0x86dd then (default_ptype = 0x11 \<or> default_ptype = 0x30)
      else if protocol_type = 0x0806 then default_ptype = 0x0e
      else False)"

definition lo_byte :: "16 word \<Rightarrow> byte" where
  \<comment> \<open>\<^verbatim>\<open>(unsigned char)(protocol_type & 0x00ff)\<close>\<close>
  "lo_byte w = ucast (w AND 0x00ff)"

definition hi_byte :: "16 word \<Rightarrow> byte" where
  \<comment> \<open>\<^verbatim>\<open>(unsigned char)((protocol_type & 0xff00) >> 8)\<close>\<close>
  "hi_byte w = ucast (drop_bit 8 (w AND 0xff00))"

definition theorical_alpdu_header :: "rle_context_configuration \<Rightarrow> 16 word \<Rightarrow> byte list" where
  "theorical_alpdu_header conf protocol_type =
     (if \<not> is_suppressible protocol_type (implicit_protocol_type conf) then
        (if use_compressed_ptype conf then
           (if protocol_type = 0x0800 then [0x0d]
            else if protocol_type = 0x86dd then [0x11]
            else if protocol_type = 0x8100 then [0x0f]
            else if protocol_type = 0x88a8 then [0x19]
            else if protocol_type = 0x9100 then [0x1a]
            else if protocol_type = 0x0806 then [0x0e]
            else [0xff, lo_byte protocol_type, hi_byte protocol_type])
         else [lo_byte protocol_type, hi_byte protocol_type])
      else [])"






definition conf_omitted :: "byte \<Rightarrow> rle_context_configuration" where
  "conf_omitted default_ptype = \<lparr>implicit_protocol_type = default_ptype, use_alpdu_crc = False,
     use_compressed_ptype = False, use_ptype_omission = True\<rparr>"

definition conf_omitted_ip :: rle_context_configuration where
  "conf_omitted_ip = \<lparr>implicit_protocol_type = 0x30, use_alpdu_crc = False,
     use_compressed_ptype = False, use_ptype_omission = True\<rparr>"

definition conf_not_omitted :: rle_context_configuration where
  "conf_not_omitted = \<lparr>implicit_protocol_type = 0x00, use_alpdu_crc = False,
     use_compressed_ptype = False, use_ptype_omission = True\<rparr>"





subsection \<open>The header-overhead query and the expectations of \<^verbatim>\<open>test_rle_misc.c\<close>\<close>

text \<open>
  \<^verbatim>\<open>struct rle_config\<close> as the tests initialise it (the flags are 0 or 1 there), the
  FPDU types and the status codes the tests compare with.
\<close>

record rle_config =
  allow_ptype_omission :: bool
  use_compressed_ptype :: bool
  allow_alpdu_crc :: bool
  allow_alpdu_sequence_number :: bool
  use_explicit_payload_header_map :: bool
  implicit_protocol_type :: byte
  implicit_ppdu_label_size :: byte
  implicit_payload_label_size :: byte
  type_0_alpdu_label_size :: byte

datatype rle_fpdu_types =
  RLE_LOGON_FPDU | RLE_CTRL_FPDU | RLE_TRAFFIC_FPDU | RLE_TRAFFIC_CTRL_FPDU

datatype rle_header_size_status =
  RLE_HEADER_SIZE_OK | RLE_HEADER_SIZE_ERR_NON_DETERMINISTIC | RLE_HEADER_SIZE_ERR_INVALID_CONFIG

definition rle_config_check :: "(byte \<Rightarrow> bool) \<Rightarrow> rle_config \<Rightarrow> bool" where
  \<comment> \<open>Modelled from the spec: the configuration validator is missing. Section 3
      rejects a configuration when a label size exceeds 15, when the implicit protocol
      type is \<^verbatim>\<open>0x31\<close> or an undefined code, when neither CRC nor sequence number is
      allowed, or when the reserved option is set. The specification does not list the
      defined codes; they are the parameter \<open>defined_code\<close>.\<close>
  "rle_config_check defined_code conf \<longleftrightarrow>
     implicit_ppdu_label_size conf \<le> 15 \<and>
     implicit_payload_label_size conf \<le> 15 \<and>
     type_0_alpdu_label_size conf \<le> 15 \<and>
     implicit_protocol_type conf \<noteq> 0x31 \<and>
     defined_code (implicit_protocol_type conf) \<and>
     (allow_alpdu_crc conf \<or> allow_alpdu_sequence_number conf) \<and>
     \<not> use_explicit_payload_header_map conf"

definition rle_get_header_size ::
  "(byte \<Rightarrow> bool) \<Rightarrow> rle_config \<Rightarrow> rle_fpdu_types \<Rightarrow> rle_header_size_status \<times> nat option" where
  \<comment> \<open>Modelled from the spec: \<^verbatim>\<open>rle_get_header_size\<close> is missing. Section 6.2 gives
      the overheads 6, 3 and 5 for Logon, Control and Traffic-Control FPDUs whatever the
      configuration, the answer "non-deterministic" for a Traffic FPDU, and a status
      for an invalid configuration. The size is \<open>None\<close> when the status is an error.\<close>
  "rle_get_header_size defined_code conf fpdu_type =
     (if \<not> rle_config_check defined_code conf then (RLE_HEADER_SIZE_ERR_INVALID_CONFIG, None)
      else case fpdu_type of
        RLE_LOGON_FPDU \<Rightarrow> (RLE_HEADER_SIZE_OK, Some 6)
      | RLE_CTRL_FPDU \<Rightarrow> (RLE_HEADER_SIZE_OK, Some 3)
      | RLE_TRAFFIC_FPDU \<Rightarrow> (RLE_HEADER_SIZE_ERR_NON_DETERMINISTIC, None)
      | RLE_TRAFFIC_CTRL_FPDU \<Rightarrow> (RLE_HEADER_SIZE_OK, Some 5))"

text \<open>
  The requests of \<^verbatim>\<open>test_request_rle_header_overhead_all\<close> and the configuration of
  \<^verbatim>\<open>test_request_rle_header_overhead_traffic\<close>.
\<close>

record test_request =
  fpdu_type :: rle_fpdu_types
  expected_size :: nat
  conf :: rle_config

definition test_conf :: "bool \<Rightarrow> bool \<Rightarrow> byte \<Rightarrow> rle_config" where
  \<comment> \<open>The initialiser the tests share: only omission, compression and the implicit
      protocol type vary.\<close>
  "test_conf omission compression implicit = \<lparr>allow_ptype_omission = omission,
     use_compressed_ptype = compression, allow_alpdu_crc = False,
     allow_alpdu_sequence_number = True, use_explicit_payload_header_map = False,
     implicit_protocol_type = implicit, implicit_ppdu_label_size = 0,
     implicit_payload_label_size = 0, type_0_alpdu_label_size = 0\<rparr>"

definition test_requests :: "test_request list" where
  "test_requests =
     [\<lparr>fpdu_type = RLE_LOGON_FPDU, expected_size = 6, conf = test_conf False False 0x00\<rparr>,
      \<lparr>fpdu_type = RLE_CTRL_FPDU, expected_size = 3, conf = test_conf False False 0x00\<rparr>,
      \<lparr>fpdu_type = RLE_TRAFFIC_CTRL_FPDU, expected_size = 5, conf = test_conf True False 0x34\<rparr>,
      \<lparr>fpdu_type = RLE_TRAFFIC_CTRL_FPDU, expected_size = 5, conf = test_conf False True 0x34\<rparr>,
      \<lparr>fpdu_type = RLE_TRAFFIC_CTRL_FPDU, expected_size = 5, conf = test_conf False False 0x34\<rparr>]"

definition test_request_rle_header_overhead ::
  "(byte \<Rightarrow> bool) \<Rightarrow> rle_fpdu_types \<Rightarrow> nat \<Rightarrow> rle_config \<Rightarrow> bool" where
  "test_request_rle_header_overhead defined_code ft expected cf =
     (case rle_get_header_size defined_code cf ft of
        (status, overhead_size) \<Rightarrow>
          status = RLE_HEADER_SIZE_OK \<and> overhead_size = Some expected)"

definition test_request_rle_header_overhead_all :: "(byte \<Rightarrow> bool) \<Rightarrow> bool" where
  "test_request_rle_header_overhead_all defined_code =
     list_all (\<lambda>q. test_request_rle_header_overhead defined_code
                      (fpdu_type q) (expected_size q) (conf q)) test_requests"

definition test_request_rle_header_overhead_traffic :: "(byte \<Rightarrow> bool) \<Rightarrow> bool" where
  "test_request_rle_header_overhead_traffic defined_code =
     (fst (rle_get_header_size defined_code (test_conf False False 0x00) RLE_TRAFFIC_FPDU)
        = RLE_HEADER_SIZE_ERR_NON_DETERMINISTIC)"


subsection \<open>The reassembly module, \<^verbatim>\<open>reassembly.c\<close>: data\<close>

text \<open>
  \<^verbatim>\<open>struct rle_sdu\<close>: a buffer, the number of its bytes in use and the protocol type.
  The fields carry the prefix \<open>sdu_\<close> (the C names are \<^verbatim>\<open>buffer\<close>, \<^verbatim>\<open>size\<close> and
  \<^verbatim>\<open>protocol_type\<close>).
\<close>

record rle_sdu =
  sdu_buffer :: "byte list"
  sdu_size :: nat
  sdu_protocol_type :: "16 word"

definition memcpy :: "byte list \<Rightarrow> nat \<Rightarrow> byte list \<Rightarrow> nat \<Rightarrow> byte list" where
  \<comment> \<open>\<^verbatim>\<open>memcpy(dst + off, src, n)\<close>: the bytes of \<open>dst\<close> with \<open>n\<close> bytes of \<open>src\<close>
      written at offset \<open>off\<close>. The C buffers are large enough; here a destination
      shorter than \<open>off + n\<close> grows.\<close>
  "memcpy dst off src n = take off dst @ take n src @ drop (off + n) dst"

text \<open>
  The reassembly buffer \<^verbatim>\<open>rle_rasm_buf_t\<close> and its accessors are in a missing header.
  The record keeps the storage from \<^verbatim>\<open>sdu.start\<close> on, and the three cursors as
  offsets from \<^verbatim>\<open>sdu.start\<close>; \<^verbatim>\<open>sdu_info.buffer\<close> points at the same storage.
\<close>

record rle_rasm_buf =
  rasm_bytes :: "byte list"
  sdu_end :: nat
  sdu_frag_start :: nat
  sdu_frag_end :: nat
  sdu_info_size :: nat
  sdu_info_protocol_type :: "16 word"
  comp_protocol_type :: byte

definition rasm_buf_init :: "rle_rasm_buf \<Rightarrow> rle_rasm_buf" where
  \<comment> \<open>Modelled from the spec: the reassembly-buffer header is missing; section 3 has
      the buffer initialised to empty before a new SDU is received.\<close>
  "rasm_buf_init b = b\<lparr>sdu_end := 0, sdu_frag_start := 0, sdu_frag_end := 0\<rparr>"

definition rasm_buf_sdu_put :: "rle_rasm_buf \<Rightarrow> nat \<Rightarrow> rle_rasm_buf" where
  \<comment> \<open>Modelled from the spec: the reassembly-buffer header is missing; the buffer
      remembers the declared total length of the SDU.\<close>
  "rasm_buf_sdu_put b n = b\<lparr>sdu_end := sdu_end b + n\<rparr>"

definition rasm_buf_init_sdu_frag :: "rle_rasm_buf \<Rightarrow> rle_rasm_buf" where
  \<comment> \<open>Modelled from the spec: the reassembly-buffer header is missing; the next
      fragment starts where the bytes received so far end.\<close>
  "rasm_buf_init_sdu_frag b = b\<lparr>sdu_frag_start := sdu_frag_end b\<rparr>"

definition rasm_buf_sdu_frag_put :: "rle_rasm_buf \<Rightarrow> nat \<Rightarrow> rle_rasm_buf" where
  \<comment> \<open>Modelled from the spec: the reassembly-buffer header is missing; the count of
      bytes received grows by the length of the fragment.\<close>
  "rasm_buf_sdu_frag_put b n = b\<lparr>sdu_frag_end := sdu_frag_end b + n\<rparr>"

definition rasm_buf_cpy_sdu_frag :: "rle_rasm_buf \<Rightarrow> byte list \<Rightarrow> rle_rasm_buf" where
  \<comment> \<open>Modelled from the spec: the reassembly-buffer header is missing; the fragment
      is accumulated at its place in the buffer.\<close>
  "rasm_buf_cpy_sdu_frag b sdu_frag =
     b\<lparr>rasm_bytes := memcpy (rasm_bytes b) (sdu_frag_start b) sdu_frag
                        (sdu_frag_end b - sdu_frag_start b)\<rparr>"

definition rasm_buf_get_sdu_len :: "rle_rasm_buf \<Rightarrow> nat" where
  \<comment> \<open>Modelled from the spec: the reassembly-buffer header is missing; the declared
      total length.\<close>
  "rasm_buf_get_sdu_len b = sdu_end b"

definition rasm_buf_get_reassembled_sdu_len :: "rle_rasm_buf \<Rightarrow> nat" where
  \<comment> \<open>Modelled from the spec: the reassembly-buffer header is missing; the number
      of bytes received so far.\<close>
  "rasm_buf_get_reassembled_sdu_len b = sdu_frag_end b"

text \<open>
  The receiver's context \<^verbatim>\<open>struct rle_ctx_mngt\<close> (the later name of the context
  structure): the reassembly buffer, the trailer mode, the byte count of the
  running burst and the statistics. Its counter functions are in the missing
  \<^verbatim>\<open>rle_ctx.h\<close>.
\<close>

record rle_ctx_mngt =
  buff :: rle_rasm_buf
  use_crc :: bool
  next_seq_nb :: byte
  current_counter :: "64 word"
  counter_in :: "64 word"
  counter_ok :: "64 word"
  counter_dropped :: "64 word"
  counter_lost :: "64 word"
  counter_bytes_in :: "64 word"
  counter_bytes_ok :: "64 word"
  counter_bytes_dropped :: "64 word"

definition rle_ctx_incr_counter_in :: "rle_ctx_mngt \<Rightarrow> rle_ctx_mngt" where
  \<comment> \<open>Modelled from the spec: \<^verbatim>\<open>rle_ctx.h\<close> is missing; packets in, plus one.\<close>
  "rle_ctx_incr_counter_in c = c\<lparr>counter_in := counter_in c + 1\<rparr>"

definition rle_ctx_incr_counter_bytes_in :: "rle_ctx_mngt \<Rightarrow> nat \<Rightarrow> rle_ctx_mngt" where
  \<comment> \<open>Modelled from the spec: \<^verbatim>\<open>rle_ctx.h\<close> is missing; bytes in, plus \<open>n\<close>.\<close>
  "rle_ctx_incr_counter_bytes_in c n = c\<lparr>counter_bytes_in := counter_bytes_in c + of_nat n\<rparr>"

definition rle_ctx_incr_counter_ok :: "rle_ctx_mngt \<Rightarrow> rle_ctx_mngt" where
  \<comment> \<open>Modelled from the spec: \<^verbatim>\<open>rle_ctx.h\<close> is missing; packets ok, plus one.\<close>
  "rle_ctx_incr_counter_ok c = c\<lparr>counter_ok := counter_ok c + 1\<rparr>"

definition rle_ctx_incr_counter_bytes_ok :: "rle_ctx_mngt \<Rightarrow> nat \<Rightarrow> rle_ctx_mngt" where
  \<comment> \<open>Modelled from the spec: \<^verbatim>\<open>rle_ctx.h\<close> is missing; bytes ok, plus \<open>n\<close>.\<close>
  "rle_ctx_incr_counter_bytes_ok c n = c\<lparr>counter_bytes_ok := counter_bytes_ok c + of_nat n\<rparr>"

definition rle_ctx_incr_counter_dropped_r :: "rle_ctx_mngt \<Rightarrow> rle_ctx_mngt" where
  \<comment> \<open>Modelled from the spec: \<^verbatim>\<open>rle_ctx.h\<close> is missing; packets dropped, plus one.
      (\<^verbatim>\<open>rle_ctx_incr_counter_dropped\<close> on the receiver's context type.)\<close>
  "rle_ctx_incr_counter_dropped_r c = c\<lparr>counter_dropped := counter_dropped c + 1\<rparr>"

definition rle_ctx_incr_counter_lost :: "rle_ctx_mngt \<Rightarrow> nat \<Rightarrow> rle_ctx_mngt" where
  \<comment> \<open>Modelled from the spec: \<^verbatim>\<open>rle_ctx.h\<close> is missing; packets lost, plus \<open>n\<close>.\<close>
  "rle_ctx_incr_counter_lost c n = c\<lparr>counter_lost := counter_lost c + of_nat n\<rparr>"

definition rle_ctx_incr_counter_bytes_dropped :: "rle_ctx_mngt \<Rightarrow> 64 word \<Rightarrow> rle_ctx_mngt" where
  \<comment> \<open>Modelled from the spec: \<^verbatim>\<open>rle_ctx.h\<close> is missing; bytes dropped, plus \<open>n\<close>.\<close>
  "rle_ctx_incr_counter_bytes_dropped c n =
     c\<lparr>counter_bytes_dropped := counter_bytes_dropped c + n\<rparr>"

definition rle_ctx_set_use_crc_r :: "rle_ctx_mngt \<Rightarrow> bool \<Rightarrow> rle_ctx_mngt" where
  \<comment> \<open>Modelled from the spec: \<^verbatim>\<open>rle_ctx.h\<close> is missing; the trailer mode is stored.
      (\<^verbatim>\<open>rle_ctx_set_use_crc\<close> on the receiver's context type.)\<close>
  "rle_ctx_set_use_crc_r c val = c\<lparr>use_crc := val\<rparr>"

definition rle_ctx_get_use_crc :: "rle_ctx_mngt \<Rightarrow> bool" where
  \<comment> \<open>Modelled from the spec: \<^verbatim>\<open>rle_ctx.h\<close> is missing; the trailer mode of the
      context.\<close>
  "rle_ctx_get_use_crc c = use_crc c"

text \<open>
  \<^verbatim>\<open>struct rle_receiver\<close>: eight contexts, the configuration, the bitmap of the
  contexts in use and one "sequence number initialised" flag per context.
\<close>

record rle_receiver =
  rle_ctx_man :: "rle_ctx_mngt list"
  conf :: rle_config
  free_ctx :: byte
  is_ctx_seqnum_init :: "bool list"

definition is_context_free :: "rle_receiver \<Rightarrow> nat \<Rightarrow> bool" where
  \<comment> \<open>Modelled from the spec: \<^verbatim>\<open>rle_receiver.c\<close> is missing; a context is free when
      its bit of the bitmap is clear.\<close>
  "is_context_free r i = (\<not> bit (free_ctx r) i)"

definition set_nonfree_frag_ctx_r :: "rle_receiver \<Rightarrow> nat \<Rightarrow> rle_receiver" where
  \<comment> \<open>Modelled from the spec: \<^verbatim>\<open>rle_receiver.c\<close> is missing; taking a context sets
      its bit. (\<^verbatim>\<open>set_nonfree_frag_ctx\<close> of the receiver.)\<close>
  "set_nonfree_frag_ctx_r r i = r\<lparr>free_ctx := set_bit i (free_ctx r)\<rparr>"

definition rle_receiver_free_context :: "rle_receiver \<Rightarrow> nat \<Rightarrow> rle_receiver" where
  \<comment> \<open>Modelled from the spec: \<^verbatim>\<open>rle_receiver.c\<close> is missing; releasing a context
      clears its bit.\<close>
  "rle_receiver_free_context r i = r\<lparr>free_ctx := unset_bit i (free_ctx r)\<rparr>"

definition ctx_at :: "rle_receiver \<Rightarrow> nat \<Rightarrow> rle_ctx_mngt" where
  \<comment> \<open>\<^verbatim>\<open>_this->rle_ctx_man[i]\<close>\<close>
  "ctx_at r i = rle_ctx_man r ! i"

definition ctx_upd :: "rle_receiver \<Rightarrow> nat \<Rightarrow> (rle_ctx_mngt \<Rightarrow> rle_ctx_mngt) \<Rightarrow> rle_receiver" where
  \<comment> \<open>A write through \<^verbatim>\<open>rle_ctx = &_this->rle_ctx_man[i]\<close>.\<close>
  "ctx_upd r i f = r\<lparr>rle_ctx_man := (rle_ctx_man r)[i := f (rle_ctx_man r ! i)]\<rparr>"

text \<open>
  The functions of the missing \<^verbatim>\<open>header.c\<close> and \<^verbatim>\<open>trailer.c\<close> that the reassembly
  functions call are parameters, collected in a record. A pair of a pointer and a
  length is a list. An extraction of the SDU fragment from an ALPDU fragment
  returns its status (0 for success), the protocol type, its compressed code, the
  SDU fragment and the length of the ALPDU header. The check of the trailer takes
  the trailer bytes, the reassembled SDU, the context and the context's
  "initialised" flag, and returns its status, the context, the flag and the number
  of lost packets. The last field is the compressed code for "VLAN without
  protocol-type field", a constant of the missing \<^verbatim>\<open>rle_header_proto_type_field.h\<close>.
\<close>

record extracted =
  x_ret :: int
  x_ptype :: "16 word"
  x_comp_ptype :: byte
  x_sdu_frag :: "byte list"
  x_alpdu_hdr_len :: nat

record header_ops =
  rle_comp_ppdu_hdr_get_is_suppressed :: "byte list \<Rightarrow> bool"
  rle_comp_ppdu_hdr_get_is_signal :: "byte list \<Rightarrow> bool"
  rle_start_ppdu_hdr_get_is_suppressed :: "byte list \<Rightarrow> bool"
  rle_start_ppdu_hdr_get_is_signal :: "byte list \<Rightarrow> bool"
  rle_start_ppdu_hdr_get_frag_id :: "byte list \<Rightarrow> nat"
  rle_cont_end_ppdu_hdr_get_frag_id :: "byte list \<Rightarrow> nat"
  comp_ppdu_extract_alpdu_frag :: "byte list \<Rightarrow> nat \<Rightarrow> byte list"
  start_ppdu_extract_alpdu_frag :: "byte list \<Rightarrow> nat \<Rightarrow> byte list \<times> nat \<times> bool"
  cont_end_ppdu_extract_alpdu_frag :: "byte list \<Rightarrow> nat \<Rightarrow> byte list"
  signal_alpdu_extract_sdu_frag :: "byte list \<Rightarrow> extracted"
  suppr_alpdu_extract_sdu_frag :: "byte list \<Rightarrow> rle_config \<Rightarrow> extracted"
  comp_alpdu_extract_sdu_frag :: "byte list \<Rightarrow> extracted"
  uncomp_alpdu_extract_sdu_frag :: "byte list \<Rightarrow> extracted"
  check_alpdu_trailer ::
    "byte list \<Rightarrow> rle_sdu \<Rightarrow> rle_ctx_mngt \<Rightarrow> bool \<Rightarrow> int \<times> rle_ctx_mngt \<times> bool \<times> nat"
  RLE_PROTO_TYPE_VLAN_COMP_WO_PTYPE_FIELD :: byte

definition sizeof_rle_alpdu_hdr_uncomp_t :: nat where
  \<comment> \<open>Modelled from the spec: \<^verbatim>\<open>header.h\<close> is missing; the uncompressed ALPDU header
      is the two bytes of the protocol type (section 6.1).\<close>
  "sizeof_rle_alpdu_hdr_uncomp_t = 2"

definition sizeof_rle_alpdu_crc_trailer_t :: nat where
  \<comment> \<open>Modelled from the spec: \<^verbatim>\<open>trailer.h\<close> is missing; the CRC trailer has 4 bytes.\<close>
  "sizeof_rle_alpdu_crc_trailer_t = 4"

definition sizeof_rle_alpdu_seqno_trailer_t :: nat where
  \<comment> \<open>Modelled from the spec: \<^verbatim>\<open>trailer.h\<close> is missing; the sequence-number trailer
      has 1 byte.\<close>
  "sizeof_rle_alpdu_seqno_trailer_t = 1"

definition RLE_PROTO_TYPE_VLAN_UNCOMP :: "16 word" where
  \<comment> \<open>Modelled from the spec: \<^verbatim>\<open>rle_header_proto_type_field.h\<close> is missing; VLAN is \<^verbatim>\<open>0x8100\<close>.\<close>
  "RLE_PROTO_TYPE_VLAN_UNCOMP = 0x8100"

definition RLE_PROTO_TYPE_IPV4_UNCOMP :: "16 word" where
  \<comment> \<open>Modelled from the spec: \<^verbatim>\<open>rle_header_proto_type_field.h\<close> is missing; IPv4 is \<^verbatim>\<open>0x0800\<close>.\<close>
  "RLE_PROTO_TYPE_IPV4_UNCOMP = 0x0800"

definition RLE_PROTO_TYPE_IPV6_UNCOMP :: "16 word" where
  \<comment> \<open>Modelled from the spec: \<^verbatim>\<open>rle_header_proto_type_field.h\<close> is missing; IPv6 is \<^verbatim>\<open>0x86dd\<close>.\<close>
  "RLE_PROTO_TYPE_IPV6_UNCOMP = 0x86dd"

definition sizeof_ether_header :: nat where
  \<comment> \<open>\<^verbatim>\<open>struct ether_header\<close> of the system's \<^verbatim>\<open>net/ethernet.h\<close>: two addresses of six
      bytes and the type, 14 bytes; the type is at offset 12.\<close>
  "sizeof_ether_header = 14"

definition sizeof_vlan_hdr :: nat where
  \<comment> \<open>Modelled from the spec: the declaration of \<^verbatim>\<open>struct vlan_hdr\<close> is missing; a
      VLAN header is the two bytes of the tag followed by the two bytes of the
      protocol type \<^verbatim>\<open>tpid\<close> (section 4.5 places the payload of a header without
      protocol type at "Ethernet header + VLAN header - 2").\<close>
  "sizeof_vlan_hdr = 4"

definition offsetof_vlan_hdr_tpid :: nat where
  \<comment> \<open>Modelled from the spec: as \<open>sizeof_vlan_hdr\<close>; the protocol type follows the tag.\<close>
  "offsetof_vlan_hdr_tpid = 2"


definition offsetof_ether_type :: nat where
  \<comment> \<open>The offset of \<^verbatim>\<open>ether_type\<close> in \<^verbatim>\<open>struct ether_header\<close>, after the two addresses.\<close>
  "offsetof_ether_type = 12"

definition htons :: "16 word \<Rightarrow> byte list" where
  \<comment> \<open>The two bytes of a 16-bit value in network byte order, as they lie in memory.\<close>
  "htons w = [ucast (drop_bit 8 w), ucast w]"

definition size_t_sub :: "nat \<Rightarrow> nat \<Rightarrow> nat" where
  \<comment> \<open>Subtraction of two \<^verbatim>\<open>size_t\<close> values of 64 bits: it wraps around below zero.\<close>
  "size_t_sub a b = (if b \<le> a then a - b else a + 2 ^ 64 - b)"

text \<open>
  The two fields \<^verbatim>\<open>reassembly_insert_vlan_ptype\<close> reads from a frame whose VLAN
  header lacks its protocol type: the type of the Ethernet header, at offset 12, and
  the version nibble of the first byte after the shortened VLAN header, at offset 16.
\<close>

definition vlan_eth_proto_type :: "byte list \<Rightarrow> 16 word" where
  "vlan_eth_proto_type sdu_frag = ntohs (sdu_frag ! 12) (sdu_frag ! 13)"

definition vlan_ip_version :: "byte list \<Rightarrow> byte" where
  "vlan_ip_version sdu_frag = drop_bit 4 (sdu_frag ! 16) AND 0x0f"

text \<open>
  A frame of 18 bytes: two zero addresses, the type \<^verbatim>\<open>0x8100\<close>, a VLAN tag and the
  first two bytes of an IPv4 header; the same frame with an IP version of 5; and an
  SDU structure with an empty buffer.
\<close>

definition vlan_frame :: "byte list" where
  "vlan_frame = [0, 0, 0, 0, 0, 0, 0, 0, 0, 0, 0, 0, 0x81, 0x00, 0x00, 0x01, 0x45, 0x00]"

definition vlan_frame_v5 :: "byte list" where
  "vlan_frame_v5 = [0, 0, 0, 0, 0, 0, 0, 0, 0, 0, 0, 0, 0x81, 0x00, 0x00, 0x01, 0x55, 0x00]"

definition empty_sdu :: rle_sdu where
  "empty_sdu = \<lparr>sdu_buffer = [], sdu_size = 0, sdu_protocol_type = 0\<rparr>"

subsection \<open>The reassembly module, \<^verbatim>\<open>reassembly.c\<close>: functions\<close>

text \<open>
  An \<^verbatim>\<open>assert\<close> that fails aborts the program: the functions return \<open>None\<close> there.
  An output parameter is returned next to the status; \<^verbatim>\<open>reassembled_sdu\<close> is
  returned as it is left in memory, also when the status is an error.
\<close>

definition reassembly_insert_vlan_ptype :: "byte list \<Rightarrow> nat \<Rightarrow> rle_sdu \<Rightarrow> bool \<times> rle_sdu" where
  "reassembly_insert_vlan_ptype sdu_frag sdu_frag_len reassembled_sdu =
     (let comp_eth_vlan_len = sizeof_ether_header + sizeof_vlan_hdr - 2;
          sdu_min_len = comp_eth_vlan_len + 1
      in if sdu_frag_len < sdu_min_len then (False, reassembled_sdu)
         else
           let eth_proto_type = ntohs (sdu_frag ! offsetof_ether_type)
                                      (sdu_frag ! (offsetof_ether_type + 1));
               vlan_payload = sizeof_ether_header + sizeof_vlan_hdr - 2;
               ip_version = drop_bit 4 (sdu_frag ! vlan_payload) AND 0x0f
           in if eth_proto_type \<noteq> RLE_PROTO_TYPE_VLAN_UNCOMP then (False, reassembled_sdu)
              else if ip_version \<noteq> 4 \<and> ip_version \<noteq> 6 then (False, reassembled_sdu)
              else
                let vlan_uncomp_ptype =
                      (if ip_version = 4 then RLE_PROTO_TYPE_IPV4_UNCOMP
                       else RLE_PROTO_TYPE_IPV6_UNCOMP);
                    b1 = memcpy (sdu_buffer reassembled_sdu) 0 sdu_frag comp_eth_vlan_len;
                    b2 = memcpy b1 (sizeof_ether_header + offsetof_vlan_hdr_tpid)
                           (htons vlan_uncomp_ptype) 2;
                    b3 = memcpy b2 (sizeof_ether_header + sizeof_vlan_hdr)
                           (drop comp_eth_vlan_len sdu_frag) (sdu_frag_len - comp_eth_vlan_len)
                in (True, \<lparr>sdu_buffer = b3, sdu_size = sdu_frag_len + 2,
                           sdu_protocol_type = RLE_PROTO_TYPE_VLAN_UNCOMP\<rparr>))"

definition reassembly_comp_ppdu ::
  "header_ops \<Rightarrow> rle_receiver \<Rightarrow> byte list \<Rightarrow> nat \<Rightarrow> rle_sdu \<Rightarrow> (c_status \<times> rle_sdu) option" where
  "reassembly_comp_ppdu h this ppdu ppdu_length reassembled_sdu =
     (let alpdu_frag = comp_ppdu_extract_alpdu_frag h ppdu ppdu_length;
          x = (if rle_comp_ppdu_hdr_get_is_suppressed h ppdu then
                 (if rle_comp_ppdu_hdr_get_is_signal h ppdu
                  then signal_alpdu_extract_sdu_frag h alpdu_frag
                  else suppr_alpdu_extract_sdu_frag h alpdu_frag (conf this))
               else if use_compressed_ptype (conf this)
               then comp_alpdu_extract_sdu_frag h alpdu_frag
               else uncomp_alpdu_extract_sdu_frag h alpdu_frag);
          sdu_frag = x_sdu_frag x;
          sdu_frag_len = length sdu_frag
      in if x_ret x \<noteq> 0 then Some (C_ERROR, reassembled_sdu)
         else if x_comp_ptype x \<noteq> RLE_PROTO_TYPE_VLAN_COMP_WO_PTYPE_FIELD h then
           Some (C_REASSEMBLY_OK,
                 \<lparr>sdu_buffer = memcpy (sdu_buffer reassembled_sdu) 0 sdu_frag sdu_frag_len,
                  sdu_size = sdu_frag_len, sdu_protocol_type = x_ptype x\<rparr>)
         else if x_ptype x \<noteq> RLE_PROTO_TYPE_VLAN_UNCOMP then None
         else
           (case reassembly_insert_vlan_ptype sdu_frag sdu_frag_len reassembled_sdu of
              (False, s) \<Rightarrow> Some (C_ERROR, s)
            | (True, s) \<Rightarrow> Some (C_REASSEMBLY_OK, s)))"

definition drop_context :: "rle_receiver \<Rightarrow> nat \<Rightarrow> nat \<Rightarrow> rle_receiver" where
  \<comment> \<open>The three counter updates of an error exit: one packet dropped, \<open>lost\<close> packets
      lost, the bytes of the running burst dropped.\<close>
  "drop_context this i lost =
     ctx_upd this i (\<lambda>c.
       let c1 = rle_ctx_incr_counter_dropped_r c;
           c2 = rle_ctx_incr_counter_lost c1 lost
       in rle_ctx_incr_counter_bytes_dropped c2 (current_counter c2))"

definition reassembly_start_ppdu ::
  "header_ops \<Rightarrow> rle_receiver \<Rightarrow> byte list \<Rightarrow> nat \<Rightarrow> (c_status \<times> rle_receiver \<times> nat) option" where
  "reassembly_start_ppdu h this ppdu ppdu_length =
     (let index_ctx = rle_start_ppdu_hdr_get_frag_id h ppdu in
      if \<not> index_ctx \<le> unat RLE_MAX_FRAG_ID then None
      else
        let r1 = ctx_upd this index_ctx (\<lambda>c. c\<lparr>current_counter := of_nat ppdu_length\<rparr>);
            r2 = ctx_upd r1 index_ctx rle_ctx_incr_counter_in;
            r3 = ctx_upd r2 index_ctx (\<lambda>c. rle_ctx_incr_counter_bytes_in c ppdu_length);
            out_error = (\<lambda>r. Some (C_ERROR,
                           rle_receiver_free_context (drop_context r index_ctx 1) index_ctx,
                           index_ctx))
        in if \<not> is_context_free r3 index_ctx then out_error r3
           else
             let r4 = set_nonfree_frag_ctx_r r3 index_ctx;
                 (alpdu_frag, alpdu_total_len, is_crc_used) =
                    start_ppdu_extract_alpdu_frag h ppdu ppdu_length;
                 sdu_total_len = alpdu_total_len;
                 (x, alpdu_hdr_len) =
                    (if rle_start_ppdu_hdr_get_is_suppressed h ppdu then
                       (if rle_start_ppdu_hdr_get_is_signal h ppdu
                        then signal_alpdu_extract_sdu_frag h alpdu_frag
                        else suppr_alpdu_extract_sdu_frag h alpdu_frag (conf this), 0)
                     else if use_compressed_ptype (conf this)
                     then (comp_alpdu_extract_sdu_frag h alpdu_frag,
                           x_alpdu_hdr_len (comp_alpdu_extract_sdu_frag h alpdu_frag))
                     else (uncomp_alpdu_extract_sdu_frag h alpdu_frag,
                           sizeof_rle_alpdu_hdr_uncomp_t));
                 sdu_frag = x_sdu_frag x;
                 sdu_frag_len = length sdu_frag
             in if x_ret x \<noteq> 0 then out_error r4
                else if sdu_frag_len > sdu_total_len then out_error r4
                else
                  let sdu_total_len1 = size_t_sub sdu_total_len alpdu_hdr_len;
                      alpdu_trailer_len =
                        (if is_crc_used then sizeof_rle_alpdu_crc_trailer_t
                         else sizeof_rle_alpdu_seqno_trailer_t)
                  in if alpdu_trailer_len > sdu_total_len1 then out_error r4
                     else
                       let sdu_total_len2 = sdu_total_len1 - alpdu_trailer_len;
                           r5 = ctx_upd r4 index_ctx (\<lambda>c. rle_ctx_set_use_crc_r c is_crc_used)
                       in if sdu_frag_len > sdu_total_len2 then out_error r5
                          else
                            let r6 = ctx_upd r5 index_ctx (\<lambda>c. c\<lparr>buff :=
                                   (let b1 = rasm_buf_init (buff c);
                                        b2 = rasm_buf_sdu_put b1 sdu_total_len2;
                                        b3 = rasm_buf_sdu_frag_put b2 sdu_frag_len;
                                        b4 = b3\<lparr>sdu_info_protocol_type := x_ptype x,
                                                comp_protocol_type := x_comp_ptype x,
                                                sdu_info_size := sdu_total_len2\<rparr>
                                    in rasm_buf_cpy_sdu_frag b4 sdu_frag)\<rparr>)
                            in Some (C_OK, r6, index_ctx))"

definition reassembly_cont_ppdu ::
  "header_ops \<Rightarrow> rle_receiver \<Rightarrow> byte list \<Rightarrow> nat \<Rightarrow> (c_status \<times> rle_receiver \<times> nat) option" where
  "reassembly_cont_ppdu h this ppdu ppdu_length =
     (let index_ctx = rle_cont_end_ppdu_hdr_get_frag_id h ppdu in
      if \<not> index_ctx \<le> unat RLE_MAX_FRAG_ID then None
      else
        let r1 = ctx_upd this index_ctx
                   (\<lambda>c. c\<lparr>current_counter := current_counter c + of_nat ppdu_length\<rparr>);
            r2 = ctx_upd r1 index_ctx (\<lambda>c. rle_ctx_incr_counter_bytes_in c ppdu_length);
            out_error = (\<lambda>r. Some (C_ERROR,
                           rle_receiver_free_context (drop_context r index_ctx 1) index_ctx,
                           index_ctx))
        in if is_context_free r2 index_ctx then out_error r2
           else
             let alpdu_frag = cont_end_ppdu_extract_alpdu_frag h ppdu ppdu_length;
                 sdu_frag = alpdu_frag;
                 sdu_frag_len = length alpdu_frag;
                 rasm_buf = buff (ctx_at r2 index_ctx)
             in if rasm_buf_get_reassembled_sdu_len rasm_buf + sdu_frag_len >
                   rasm_buf_get_sdu_len rasm_buf then out_error r2
                else
                  let r3 = ctx_upd r2 index_ctx (\<lambda>c. c\<lparr>buff :=
                         (let b1 = rasm_buf_init_sdu_frag (buff c);
                              b2 = rasm_buf_sdu_frag_put b1 sdu_frag_len
                          in rasm_buf_cpy_sdu_frag b2 sdu_frag)\<rparr>)
                  in Some (C_OK, r3, index_ctx))"

definition end_build_sdu ::
  "header_ops \<Rightarrow> rle_rasm_buf \<Rightarrow> rle_sdu \<Rightarrow> (bool \<times> rle_sdu) option" where
  \<comment> \<open>The block of \<^verbatim>\<open>reassembly_end_ppdu\<close> that fills \<^verbatim>\<open>reassembled_sdu\<close> from the
      complete reassembly buffer: a plain copy, or the insertion of the VLAN protocol
      type. The flag is false when the insertion fails.\<close>
  "end_build_sdu h rb reassembled_sdu =
     (if comp_protocol_type rb \<noteq> RLE_PROTO_TYPE_VLAN_COMP_WO_PTYPE_FIELD h
      then Some (True,
        \<lparr>sdu_buffer = memcpy (sdu_buffer reassembled_sdu) 0 (rasm_bytes rb) (sdu_info_size rb),
         sdu_size = sdu_info_size rb,
         sdu_protocol_type = sdu_info_protocol_type rb\<rparr>)
      else if sdu_info_protocol_type rb \<noteq> RLE_PROTO_TYPE_VLAN_UNCOMP then None
      else Some (reassembly_insert_vlan_ptype (rasm_bytes rb) (sdu_info_size rb)
                   reassembled_sdu))"

definition reassembly_end_ppdu ::
  "header_ops \<Rightarrow> rle_receiver \<Rightarrow> byte list \<Rightarrow> nat \<Rightarrow> rle_sdu \<Rightarrow>
   (c_status \<times> rle_receiver \<times> nat \<times> rle_sdu) option" where
  "reassembly_end_ppdu h this ppdu ppdu_length reassembled_sdu =
     (let index_ctx = rle_cont_end_ppdu_hdr_get_frag_id h ppdu in
      if \<not> index_ctx \<le> unat RLE_MAX_FRAG_ID then None
      else
        let r1 = ctx_upd this index_ctx
                   (\<lambda>c. c\<lparr>current_counter := current_counter c + of_nat ppdu_length\<rparr>);
            r2 = ctx_upd r1 index_ctx (\<lambda>c. rle_ctx_incr_counter_bytes_in c ppdu_length);
            out_error = (\<lambda>r lost_packets s. Some (C_ERROR,
                           rle_receiver_free_context (drop_context r index_ctx lost_packets)
                             index_ctx,
                           index_ctx, s))
        in if is_context_free r2 index_ctx
           then out_error (rle_receiver_free_context (drop_context r2 index_ctx 1) index_ctx)
                  0 reassembled_sdu
           else
             let alpdu_frag = cont_end_ppdu_extract_alpdu_frag h ppdu ppdu_length;
                 alpdu_frag_len = length alpdu_frag;
                 rle_trailer_len =
                   (if rle_ctx_get_use_crc (ctx_at r2 index_ctx)
                    then sizeof_rle_alpdu_crc_trailer_t
                    else sizeof_rle_alpdu_seqno_trailer_t)
             in if alpdu_frag_len < rle_trailer_len then out_error r2 0 reassembled_sdu
                else
                  let sdu_frag_len = alpdu_frag_len - rle_trailer_len;
                      sdu_frag = take sdu_frag_len alpdu_frag;
                      rle_trailer = drop sdu_frag_len alpdu_frag;
                      rasm_buf = buff (ctx_at r2 index_ctx)
                  in if sdu_info_size rasm_buf \<noteq> rasm_buf_get_sdu_len rasm_buf then None
                     else if rasm_buf_get_reassembled_sdu_len rasm_buf + sdu_frag_len >
                             rasm_buf_get_sdu_len rasm_buf
                     then out_error r2 0 reassembled_sdu
                     else
                       let r3 = ctx_upd r2 index_ctx (\<lambda>c. c\<lparr>buff :=
                              (let b1 = rasm_buf_init_sdu_frag (buff c);
                                   b2 = rasm_buf_sdu_frag_put b1 sdu_frag_len
                               in rasm_buf_cpy_sdu_frag b2 sdu_frag)\<rparr>);
                           rb = buff (ctx_at r3 index_ctx)
                       in if rasm_buf_get_sdu_len rb > rasm_buf_get_reassembled_sdu_len rb
                          then out_error r3 0 reassembled_sdu
                          else
                            (case end_build_sdu h rb reassembled_sdu of
                               None \<Rightarrow> None
                             | Some (False, s) \<Rightarrow> out_error r3 0 s
                             | Some (True, s) \<Rightarrow>
                                 let (st, c', init', lost_packets) =
                                       check_alpdu_trailer h rle_trailer s (ctx_at r3 index_ctx)
                                         (is_ctx_seqnum_init r3 ! index_ctx);
                                     r4 = (ctx_upd r3 index_ctx (\<lambda>_. c'))
                                            \<lparr>is_ctx_seqnum_init :=
                                               (is_ctx_seqnum_init r3)[index_ctx := init']\<rparr>
                                 in if st \<noteq> 0 then out_error r4 lost_packets s
                                    else
                                      let r5 = ctx_upd r4 index_ctx
                                                 (\<lambda>c. rle_ctx_incr_counter_bytes_ok c (sdu_size s));
                                          r6 = ctx_upd r5 index_ctx rle_ctx_incr_counter_ok
                                      in Some (C_REASSEMBLY_OK,
                                               rle_receiver_free_context r6 index_ctx,
                                               index_ctx, s)))"

subsection \<open>What an error exit of the reassembly leaves behind\<close>

text \<open>
  The effect the error exits have on the context \<open>i\<close>, from the receiver \<open>r\<close> before
  the call to the receiver \<open>r'\<close> after it, for a PPDU of \<open>n\<close> bytes: one more packet
  dropped, \<open>lost\<close> more packets lost, the bytes of the running burst (those counted
  before the call and the \<open>n\<close> of this PPDU) added to the dropped bytes, and the
  context free.
\<close>

definition counted :: "rle_receiver \<Rightarrow> nat \<Rightarrow> nat \<Rightarrow> rle_receiver" where
  \<comment> \<open>The receiver after the first two statements of \<^verbatim>\<open>reassembly_cont_ppdu\<close> and
      \<^verbatim>\<open>reassembly_end_ppdu\<close>, which count the PPDU in the context.\<close>
  "counted r i n =
     ctx_upd (ctx_upd r i (\<lambda>c. c\<lparr>current_counter := current_counter c + of_nat n\<rparr>)) i
       (\<lambda>c. rle_ctx_incr_counter_bytes_in c n)"

text \<open>
  Names for what \<^verbatim>\<open>reassembly_end_ppdu\<close> computes on its way to the check of the
  trailer, for an ALPDU fragment \<open>frag\<close> on the context \<open>i\<close>: the length of the
  trailer, the reassembly buffer once the SDU bytes of the fragment are appended,
  and the call of the check itself, on the SDU \<open>s1\<close> that was built.
\<close>

definition end_trailer_len :: "rle_receiver \<Rightarrow> nat \<Rightarrow> nat" where
  "end_trailer_len r i =
     (if rle_ctx_get_use_crc (ctx_at r i) then sizeof_rle_alpdu_crc_trailer_t
      else sizeof_rle_alpdu_seqno_trailer_t)"

definition end_rasm_buf :: "rle_receiver \<Rightarrow> nat \<Rightarrow> byte list \<Rightarrow> rle_rasm_buf" where
  "end_rasm_buf r i frag =
     (let sdu_frag_len = length frag - end_trailer_len r i;
          b1 = rasm_buf_init_sdu_frag (buff (ctx_at r i));
          b2 = rasm_buf_sdu_frag_put b1 sdu_frag_len
      in rasm_buf_cpy_sdu_frag b2 (take sdu_frag_len frag))"

definition end_check ::
  "header_ops \<Rightarrow> rle_receiver \<Rightarrow> nat \<Rightarrow> nat \<Rightarrow> byte list \<Rightarrow> rle_sdu \<Rightarrow>
   int \<times> rle_ctx_mngt \<times> bool \<times> nat" where
  "end_check h r i n frag s1 =
     check_alpdu_trailer h (drop (length frag - end_trailer_len r i) frag) s1
       ((ctx_at (counted r i n) i)\<lparr>buff := end_rasm_buf r i frag\<rparr>)
       (is_ctx_seqnum_init r ! i)"

definition check_keeps_counters :: "header_ops \<Rightarrow> bool" where
  \<comment> \<open>The check of the trailer leaves the statistics of the context alone.\<close>
  "check_keeps_counters h \<longleftrightarrow>
     (\<forall>t s c b. case check_alpdu_trailer h t s c b of
        (st, c', b', l) \<Rightarrow>
          counter_dropped c' = counter_dropped c \<and> counter_lost c' = counter_lost c \<and>
          counter_bytes_dropped c' = counter_bytes_dropped c \<and>
          current_counter c' = current_counter c)"

definition dropped_and_released ::
  "rle_receiver \<Rightarrow> rle_receiver \<Rightarrow> nat \<Rightarrow> nat \<Rightarrow> nat \<Rightarrow> bool" where
  "dropped_and_released r r' i n lost \<longleftrightarrow>
     counter_dropped (ctx_at r' i) = counter_dropped (ctx_at r i) + 1 \<and>
     counter_lost (ctx_at r' i) = counter_lost (ctx_at r i) + of_nat lost \<and>
     counter_bytes_dropped (ctx_at r' i) =
       counter_bytes_dropped (ctx_at r i) + (current_counter (ctx_at r i) + of_nat n) \<and>
     is_context_free r' i"

subsection \<open>An instance of the missing header and trailer functions\<close>

text \<open>
  To run the reassembly functions on concrete PPDUs, the parameters need values.
  The instance below reads the headers as section 6.1 of the specification lays
  them out: in the first byte of every PPDU the start and end flags and, for START
  and COMP, two bits of label type and the "protocol type suppressed" bit, then
  the eleven bits of length; a START header continues with three bits of fragment
  id, twelve bits of total length and the CRC flag; a CONT or END header ends with
  the three bits of fragment id. The ALPDU header is read as section 4.1 writes it.
  The trailer check follows section 4.5 for the sequence number; for the CRC it
  compares the trailer with the value of a checksum function given as argument.
\<close>

definition decompress_ptype :: "byte \<Rightarrow> 16 word option" where
  \<comment> \<open>Modelled from the spec: the protocol-type table is missing; the codes of
      section 4.1, and \<^verbatim>\<open>0x42\<close> for the signalling type as in \<^verbatim>\<open>test_encap_all\<close>.\<close>
  "decompress_ptype code =
     (if code = 0x0f then Some 0x8100
      else if code = 0x19 then Some 0x88a8
      else if code = 0x1a then Some 0x9100
      else if code = 0x0d then Some 0x0800
      else if code = 0x11 then Some 0x86dd
      else if code = 0x0e then Some 0x0806
      else if code = 0x42 then Some 0x0082
      else None)"

definition extraction_failed :: extracted where
  "extraction_failed = \<lparr>x_ret = 1, x_ptype = 0, x_comp_ptype = 0, x_sdu_frag = [],
     x_alpdu_hdr_len = 0\<rparr>"

definition example_uncomp_extract :: "byte list \<Rightarrow> extracted" where
  \<comment> \<open>Modelled from the spec: \<^verbatim>\<open>header.c\<close> is missing; two bytes of protocol type,
      low byte first (section 4.1), then the SDU bytes.\<close>
  "example_uncomp_extract alpdu_frag =
     (if length alpdu_frag < 2 then extraction_failed
      else \<lparr>x_ret = 0,
            x_ptype = push_bit 8 (ucast (alpdu_frag ! 1)) OR ucast (alpdu_frag ! 0),
            x_comp_ptype = 0xff, x_sdu_frag = drop 2 alpdu_frag, x_alpdu_hdr_len = 2\<rparr>)"

definition example_comp_extract :: "byte list \<Rightarrow> extracted" where
  \<comment> \<open>Modelled from the spec: \<^verbatim>\<open>header.c\<close> is missing; one byte of compressed code,
      or \<^verbatim>\<open>0xff\<close> and two bytes of protocol type, low byte first (section 4.1).\<close>
  "example_comp_extract alpdu_frag =
     (if length alpdu_frag < 1 then extraction_failed
      else if alpdu_frag ! 0 = 0xff then
        (if length alpdu_frag < 3 then extraction_failed
         else \<lparr>x_ret = 0,
               x_ptype = push_bit 8 (ucast (alpdu_frag ! 2)) OR ucast (alpdu_frag ! 1),
               x_comp_ptype = 0xff, x_sdu_frag = drop 3 alpdu_frag, x_alpdu_hdr_len = 3\<rparr>)
      else if alpdu_frag ! 0 = 0x31 then
        \<lparr>x_ret = 0, x_ptype = 0x8100, x_comp_ptype = 0x31, x_sdu_frag = drop 1 alpdu_frag,
         x_alpdu_hdr_len = 1\<rparr>
      else
        (case decompress_ptype (alpdu_frag ! 0) of
           None \<Rightarrow> extraction_failed
         | Some pt \<Rightarrow> \<lparr>x_ret = 0, x_ptype = pt, x_comp_ptype = alpdu_frag ! 0,
                       x_sdu_frag = drop 1 alpdu_frag, x_alpdu_hdr_len = 1\<rparr>))"

definition example_suppr_extract :: "byte list \<Rightarrow> rle_config \<Rightarrow> extracted" where
  \<comment> \<open>Modelled from the spec: \<^verbatim>\<open>header.c\<close> is missing; the type is the implicit one
      of the configuration, where \<^verbatim>\<open>0x30\<close> stands for IPv4 or IPv6 by the first nibble
      of the payload (section 3).\<close>
  "example_suppr_extract alpdu_frag cf =
     (if implicit_protocol_type cf = 0x30 then
        (if length alpdu_frag < 1 then extraction_failed
         else if drop_bit 4 (alpdu_frag ! 0) = 4 then
           \<lparr>x_ret = 0, x_ptype = 0x0800, x_comp_ptype = 0x30, x_sdu_frag = alpdu_frag,
            x_alpdu_hdr_len = 0\<rparr>
         else if drop_bit 4 (alpdu_frag ! 0) = 6 then
           \<lparr>x_ret = 0, x_ptype = 0x86dd, x_comp_ptype = 0x30, x_sdu_frag = alpdu_frag,
            x_alpdu_hdr_len = 0\<rparr>
         else extraction_failed)
      else
        (case decompress_ptype (implicit_protocol_type cf) of
           None \<Rightarrow> extraction_failed
         | Some pt \<Rightarrow> \<lparr>x_ret = 0, x_ptype = pt, x_comp_ptype = implicit_protocol_type cf,
                       x_sdu_frag = alpdu_frag, x_alpdu_hdr_len = 0\<rparr>))"

definition example_check_alpdu_trailer ::
  "(rle_sdu \<Rightarrow> byte list) \<Rightarrow> byte list \<Rightarrow> rle_sdu \<Rightarrow> rle_ctx_mngt \<Rightarrow> bool \<Rightarrow>
   int \<times> rle_ctx_mngt \<times> bool \<times> nat" where
  \<comment> \<open>Modelled from the spec: \<^verbatim>\<open>trailer.c\<close> is missing. Section 4.5: with a CRC, a
      trailer that differs from the computed value is a mismatch; with a sequence
      number, the first END of a fragment id records the number, and a later one
      counts the distance to the expected number as lost packets and delivers.\<close>
  "example_check_alpdu_trailer crc rle_trailer sdu c seqnum_init =
     (if use_crc c then
        (if rle_trailer = crc sdu then (0, c, seqnum_init, 0) else (1, c, seqnum_init, 0))
      else
        let received = (rle_trailer ! 0) AND 7;
            c' = c\<lparr>next_seq_nb := (received + 1) AND 7\<rparr>
        in if \<not> seqnum_init then (0, c', True, 0)
           else (0, c', True, unat ((received - next_seq_nb c) AND 7)))"

definition example_header_ops :: "(rle_sdu \<Rightarrow> byte list) \<Rightarrow> header_ops" where
  \<comment> \<open>Modelled from the spec: \<^verbatim>\<open>header.c\<close> and \<^verbatim>\<open>trailer.c\<close> are missing; the header
      layouts of section 6.1 as described above.\<close>
  "example_header_ops crc = \<lparr>
     rle_comp_ppdu_hdr_get_is_suppressed = (\<lambda>p. bit (p ! 0) 3),
     rle_comp_ppdu_hdr_get_is_signal = (\<lambda>p. drop_bit 4 (p ! 0) AND 3 = 3),
     rle_start_ppdu_hdr_get_is_suppressed = (\<lambda>p. bit (p ! 0) 3),
     rle_start_ppdu_hdr_get_is_signal = (\<lambda>p. drop_bit 4 (p ! 0) AND 3 = 3),
     rle_start_ppdu_hdr_get_frag_id = (\<lambda>p. unat (drop_bit 5 (p ! 2))),
     rle_cont_end_ppdu_hdr_get_frag_id = (\<lambda>p. unat ((p ! 1) AND 7)),
     comp_ppdu_extract_alpdu_frag = (\<lambda>p n. take (n - 2) (drop 2 p)),
     start_ppdu_extract_alpdu_frag = (\<lambda>p n. (take (n - 4) (drop 4 p),
        unat ((p ! 2) AND 0x1f) * 128 + unat (drop_bit 1 (p ! 3)), bit (p ! 3) 0)),
     cont_end_ppdu_extract_alpdu_frag = (\<lambda>p n. take (n - 2) (drop 2 p)),
     signal_alpdu_extract_sdu_frag = (\<lambda>a. \<lparr>x_ret = 0, x_ptype = 0x0082, x_comp_ptype = 0x42,
        x_sdu_frag = a, x_alpdu_hdr_len = 0\<rparr>),
     suppr_alpdu_extract_sdu_frag = example_suppr_extract,
     comp_alpdu_extract_sdu_frag = example_comp_extract,
     uncomp_alpdu_extract_sdu_frag = example_uncomp_extract,
     check_alpdu_trailer = example_check_alpdu_trailer crc,
     RLE_PROTO_TYPE_VLAN_COMP_WO_PTYPE_FIELD = 0x31\<rparr>"

text \<open>
  A receiver as it is after its creation with the configuration of the tests (the
  protocol type neither omitted nor compressed, a sequence number as trailer), and
  three PPDUs on fragment id 0: a START that announces an ALPDU of 13 bytes (two of
  header, ten of SDU, one of trailer) and carries the header and three bytes of the
  SDU; a CONT with eight bytes, more than the SDU has left; and an END with two
  bytes of the SDU and the trailer, which leaves five bytes missing.
\<close>

definition new_rasm_buf :: rle_rasm_buf where
  "new_rasm_buf = \<lparr>rasm_bytes = [], sdu_end = 0, sdu_frag_start = 0, sdu_frag_end = 0,
     sdu_info_size = 0, sdu_info_protocol_type = 0, comp_protocol_type = 0\<rparr>"

definition new_ctx :: rle_ctx_mngt where
  "new_ctx = \<lparr>buff = new_rasm_buf, use_crc = False, next_seq_nb = 0, current_counter = 0,
     counter_in = 0, counter_ok = 0, counter_dropped = 0, counter_lost = 0,
     counter_bytes_in = 0, counter_bytes_ok = 0, counter_bytes_dropped = 0\<rparr>"

definition new_receiver :: rle_receiver where
  "new_receiver = \<lparr>rle_ctx_man =
       [new_ctx, new_ctx, new_ctx, new_ctx, new_ctx, new_ctx, new_ctx, new_ctx],
     conf = test_conf False False 0x00, free_ctx = 0,
     is_ctx_seqnum_init = [False, False, False, False, False, False, False, False]\<rparr>"

definition no_crc :: "rle_sdu \<Rightarrow> byte list" where
  "no_crc s = [0, 0, 0, 0]"

definition start_ppdu_13 :: "byte list" where
  "start_ppdu_13 = [0x80, 0x05, 0x00, 0x1a, 0x00, 0x08, 1, 2, 3]"

definition cont_ppdu_8 :: "byte list" where
  "cont_ppdu_8 = [0x00, 0x40, 4, 5, 6, 7, 8, 9, 10, 11]"

definition end_ppdu_short :: "byte list" where
  "end_ppdu_short = [0x40, 0x18, 4, 5, 0x00]"

definition start_ppdu_crc :: "byte list" where
  \<comment> \<open>As \<open>start_ppdu_13\<close>, with the CRC flag: an ALPDU of 16 bytes.\<close>
  "start_ppdu_crc = [0x80, 0x05, 0x00, 0x21, 0x00, 0x08, 1, 2, 3]"

definition end_ppdu_bad_crc :: "byte list" where
  \<comment> \<open>The seven bytes the SDU has left and a trailer of four bytes that is not the
      checksum.\<close>
  "end_ppdu_bad_crc = [0x40, 0x58, 4, 5, 6, 7, 8, 9, 10, 1, 1, 1, 1]"

definition comp_ppdu_vlan :: "byte list" where
  \<comment> \<open>A COMP PPDU of 21 bytes: the header, the compressed code \<^verbatim>\<open>0x31\<close> and the frame
      \<open>vlan_frame\<close>.\<close>
  "comp_ppdu_vlan = [0xc0, 0x13, 0x31] @ vlan_frame"

definition started_receiver :: rle_receiver where
  \<comment> \<open>The receiver after the START.\<close>
  "started_receiver =
     (case reassembly_start_ppdu (example_header_ops no_crc) new_receiver start_ppdu_13 9 of
        Some (ret, r, i) \<Rightarrow> r
      | None \<Rightarrow> new_receiver)"

definition started_receiver_crc :: rle_receiver where
  \<comment> \<open>The receiver after the START with the CRC flag.\<close>
  "started_receiver_crc =
     (case reassembly_start_ppdu (example_header_ops no_crc) new_receiver start_ppdu_crc 9 of
        Some (ret, r, i) \<Rightarrow> r
      | None \<Rightarrow> new_receiver)"

subsection \<open>The reassembly functions called on the PPDUs of an SDU\<close>

text \<open>
  The decapsulation loop that calls the four functions is not in the sources. Here
  each PPDU comes with its kind and is handed to the function of that kind, with
  its length and an empty SDU to fill; the SDUs of the calls that return
  \<^verbatim>\<open>C_REASSEMBLY_OK\<close> are collected in order.
\<close>

datatype ppdu_kind = PPDU_COMP | PPDU_START | PPDU_CONT | PPDU_END

definition reassembly_ppdu ::
  "header_ops \<Rightarrow> rle_receiver \<Rightarrow> ppdu_kind \<times> byte list \<Rightarrow> (rle_receiver \<times> rle_sdu list) option" where
  "reassembly_ppdu h r kp =
     (case kp of
        (PPDU_COMP, p) \<Rightarrow>
          (case reassembly_comp_ppdu h r p (length p) empty_sdu of
             None \<Rightarrow> None
           | Some (ret, s) \<Rightarrow> Some (r, if ret = C_REASSEMBLY_OK then [s] else []))
      | (PPDU_START, p) \<Rightarrow>
          (case reassembly_start_ppdu h r p (length p) of
             None \<Rightarrow> None
           | Some (ret, r', i) \<Rightarrow> Some (r', []))
      | (PPDU_CONT, p) \<Rightarrow>
          (case reassembly_cont_ppdu h r p (length p) of
             None \<Rightarrow> None
           | Some (ret, r', i) \<Rightarrow> Some (r', []))
      | (PPDU_END, p) \<Rightarrow>
          (case reassembly_end_ppdu h r p (length p) empty_sdu of
             None \<Rightarrow> None
           | Some (ret, r', i, s) \<Rightarrow> Some (r', if ret = C_REASSEMBLY_OK then [s] else [])))"

fun reassembly_ppdus ::
  "header_ops \<Rightarrow> rle_receiver \<Rightarrow> (ppdu_kind \<times> byte list) list \<Rightarrow>
   (rle_receiver \<times> rle_sdu list) option" where
  "reassembly_ppdus h r [] = Some (r, [])"
| "reassembly_ppdus h r (kp # kps) =
     (case reassembly_ppdu h r kp of
        None \<Rightarrow> None
      | Some (r', out) \<Rightarrow>
          (case reassembly_ppdus h r' kps of
             None \<Rightarrow> None
           | Some (r'', outs) \<Rightarrow> Some (r'', out @ outs)))"

text \<open>
  The extraction of the SDU fragment that \<^verbatim>\<open>reassembly_comp_ppdu\<close> and
  \<^verbatim>\<open>reassembly_start_ppdu\<close> both perform on the ALPDU fragment of their PPDU, chosen
  by the two flags of the PPDU header and by the configuration, with the length of
  the ALPDU header that \<^verbatim>\<open>reassembly_start_ppdu\<close> notes.
\<close>

definition alpdu_extract_sdu_frag ::
  "header_ops \<Rightarrow> rle_config \<Rightarrow> bool \<Rightarrow> bool \<Rightarrow> byte list \<Rightarrow> extracted \<times> nat" where
  "alpdu_extract_sdu_frag h cf is_suppressed is_signal alpdu_frag =
     (if is_suppressed then
        (if is_signal then signal_alpdu_extract_sdu_frag h alpdu_frag
         else suppr_alpdu_extract_sdu_frag h alpdu_frag cf, 0)
      else if use_compressed_ptype cf
      then (comp_alpdu_extract_sdu_frag h alpdu_frag,
            x_alpdu_hdr_len (comp_alpdu_extract_sdu_frag h alpdu_frag))
      else (uncomp_alpdu_extract_sdu_frag h alpdu_frag, sizeof_rle_alpdu_hdr_uncomp_t))"

text \<open>
  What a receiver holds for the fragment id \<open>i\<close> while the bytes \<open>got\<close> of an SDU
  of \<open>n\<close> bytes have been received: the context is in use, and its reassembly
  buffer starts with the bytes received and remembers the length of the SDU, the
  protocol type, its compressed code and the kind of trailer.
\<close>

definition reassembling ::
  "rle_receiver \<Rightarrow> nat \<Rightarrow> byte list \<Rightarrow> nat \<Rightarrow> 16 word \<Rightarrow> byte \<Rightarrow> bool \<Rightarrow> bool" where
  "reassembling r i got n pt cpt crc \<longleftrightarrow>
     length (rle_ctx_man r) = 8 \<and> \<not> is_context_free r i \<and>
     use_crc (ctx_at r i) = crc \<and>
     sdu_end (buff (ctx_at r i)) = n \<and>
     sdu_info_size (buff (ctx_at r i)) = n \<and>
     sdu_frag_end (buff (ctx_at r i)) = length got \<and>
     take (length got) (rasm_bytes (buff (ctx_at r i))) = got \<and>
     length got \<le> length (rasm_bytes (buff (ctx_at r i))) \<and>
     sdu_info_protocol_type (buff (ctx_at r i)) = pt \<and>
     comp_protocol_type (buff (ctx_at r i)) = cpt"

text \<open>
  The PPDUs of an SDU, as the header functions of the receiver read them. A COMP
  PPDU carries the SDU \<open>bytes\<close> of the protocol type \<open>pt\<close> when the extraction
  succeeds on it and returns these bytes and this type. A START PPDU on the
  fragment id \<open>i\<close> opens an SDU of \<open>n\<close> bytes with the fragment \<open>f0\<close> when the
  extraction returns the fragment and the type, and the total length the PPDU
  announces is that of the ALPDU: the ALPDU header, the \<open>n\<close> bytes and the
  trailer. A CONT PPDU on \<open>i\<close> carries the fragment \<open>f\<close>, and an END PPDU the
  fragment \<open>fl\<close> followed by the trailer.
\<close>

definition comp_carries ::
  "header_ops \<Rightarrow> rle_config \<Rightarrow> byte list \<Rightarrow> byte list \<Rightarrow> 16 word \<Rightarrow> bool" where
  "comp_carries h cf p bytes pt \<longleftrightarrow>
     (let x = fst (alpdu_extract_sdu_frag h cf (rle_comp_ppdu_hdr_get_is_suppressed h p)
                     (rle_comp_ppdu_hdr_get_is_signal h p)
                     (comp_ppdu_extract_alpdu_frag h p (length p)))
      in x_ret x = 0 \<and> x_ptype x = pt \<and> x_sdu_frag x = bytes \<and>
         x_comp_ptype x \<noteq> RLE_PROTO_TYPE_VLAN_COMP_WO_PTYPE_FIELD h)"

definition start_carries ::
  "header_ops \<Rightarrow> rle_config \<Rightarrow> byte list \<Rightarrow> nat \<Rightarrow> byte list \<Rightarrow> nat \<Rightarrow> 16 word \<Rightarrow> byte \<Rightarrow>
   bool \<Rightarrow> bool" where
  "start_carries h cf p i f0 n pt cpt crc \<longleftrightarrow>
     rle_start_ppdu_hdr_get_frag_id h p = i \<and>
     (case start_ppdu_extract_alpdu_frag h p (length p) of
        (alpdu_frag, alpdu_total_len, is_crc_used) \<Rightarrow>
          (case alpdu_extract_sdu_frag h cf (rle_start_ppdu_hdr_get_is_suppressed h p)
                  (rle_start_ppdu_hdr_get_is_signal h p) alpdu_frag of
             (x, alpdu_hdr_len) \<Rightarrow>
               x_ret x = 0 \<and> x_ptype x = pt \<and> x_comp_ptype x = cpt \<and> x_sdu_frag x = f0 \<and>
               is_crc_used = crc \<and>
               alpdu_total_len =
                 alpdu_hdr_len + n +
                 (if crc then sizeof_rle_alpdu_crc_trailer_t
                  else sizeof_rle_alpdu_seqno_trailer_t)))"

definition cont_carries :: "header_ops \<Rightarrow> byte list \<Rightarrow> nat \<Rightarrow> byte list \<Rightarrow> bool" where
  "cont_carries h p i f \<longleftrightarrow>
     rle_cont_end_ppdu_hdr_get_frag_id h p = i \<and>
     cont_end_ppdu_extract_alpdu_frag h p (length p) = f"

definition end_carries :: "header_ops \<Rightarrow> byte list \<Rightarrow> nat \<Rightarrow> byte list \<Rightarrow> byte list \<Rightarrow> bool" where
  "end_carries h p i fl trailer \<longleftrightarrow>
     rle_cont_end_ppdu_hdr_get_frag_id h p = i \<and>
     cont_end_ppdu_extract_alpdu_frag h p (length p) = fl @ trailer"

definition trailer_accepted ::
  "header_ops \<Rightarrow> byte list \<Rightarrow> byte list \<Rightarrow> 16 word \<Rightarrow> bool \<Rightarrow> bool \<Rightarrow> bool" where
  \<comment> \<open>The check accepts the trailer for the SDU in a context of the trailer kind
      \<open>crc\<close> whose sequence-number flag is \<open>flag\<close>, whatever the rest of the context
      and of the SDU's buffer.\<close>
  "trailer_accepted h trailer bytes pt crc flag \<longleftrightarrow>
     (\<forall>s c. sdu_size s = length bytes \<and> take (length bytes) (sdu_buffer s) = bytes \<and>
            sdu_protocol_type s = pt \<and> use_crc c = crc \<longrightarrow>
            fst (check_alpdu_trailer h trailer s c flag) = 0)"

text \<open>
  The PPDUs \<open>ppdus\<close> carry the SDU on the fragment id \<open>i\<close>: they are one COMP PPDU
  that carries it, or a START, any number of CONT and an END PPDU on \<open>i\<close> whose
  fragments make up its bytes in order, with a trailer of the length of its kind
  that the check accepts. The compressed code is not the one of a VLAN header
  without protocol type, which takes the path of \<^verbatim>\<open>reassembly_insert_vlan_ptype\<close>.
\<close>

definition carries ::
  "header_ops \<Rightarrow> rle_config \<Rightarrow> bool \<Rightarrow> nat \<Rightarrow> (ppdu_kind \<times> byte list) list \<Rightarrow> byte list \<Rightarrow>
   16 word \<Rightarrow> bool" where
  "carries h cf flag i ppdus bytes pt \<longleftrightarrow>
     (\<exists>p. ppdus = [(PPDU_COMP, p)] \<and> comp_carries h cf p bytes pt) \<or>
     (\<exists>p0 ps pe f0 fs fl trailer cpt crc.
        ppdus = (PPDU_START, p0) # map (Pair PPDU_CONT) ps @ [(PPDU_END, pe)] \<and>
        bytes = f0 @ concat fs @ fl \<and>
        start_carries h cf p0 i f0 (length bytes) pt cpt crc \<and>
        list_all2 (\<lambda>p f. cont_carries h p i f) ps fs \<and>
        end_carries h pe i fl trailer \<and>
        length trailer = (if crc then sizeof_rle_alpdu_crc_trailer_t
                          else sizeof_rle_alpdu_seqno_trailer_t) \<and>
        cpt \<noteq> RLE_PROTO_TYPE_VLAN_COMP_WO_PTYPE_FIELD h \<and>
        trailer_accepted h trailer bytes pt crc flag)"

text \<open>
  Three PPDUs on fragment id 0 that carry the SDU of the ten bytes 1 to 10 with the
  protocol type \<^verbatim>\<open>0x0800\<close>: the START \<open>start_ppdu_13\<close> above, a CONT with four bytes
  and an END with three bytes and the trailer. And the COMP PPDU of an ALPDU without
  header, the twenty bytes of \<open>ipv4_sdu 20\<close>, with the flag "protocol type
  suppressed".
\<close>

definition cont_ppdu_4 :: "byte list" where
  "cont_ppdu_4 = [0x00, 0x20, 4, 5, 6, 7]"

definition end_ppdu_4 :: "byte list" where
  "end_ppdu_4 = [0x40, 0x20, 8, 9, 10, 0x00]"

definition comp_ppdu_suppressed :: "byte list" where
  "comp_ppdu_suppressed = [0xc8, 0x14] @ ipv4_sdu 20"

subsection \<open>The frames whose VLAN protocol type is rebuilt\<close>

definition vlan_frame_ok :: "byte list \<Rightarrow> bool" where
  \<comment> \<open>The frame is long enough for the Ethernet header, the VLAN tag and one byte
      of payload, the type of its Ethernet header is VLAN and the version nibble of
      its payload is 4 or 6.\<close>
  "vlan_frame_ok frame \<longleftrightarrow>
     17 \<le> length frame \<and> vlan_eth_proto_type frame = 0x8100 \<and>
     (vlan_ip_version frame = 4 \<or> vlan_ip_version frame = 6)"

definition vlan_rebuilt :: "byte list \<Rightarrow> byte list" where
  \<comment> \<open>The frame with the protocol type of its payload put back behind the VLAN
      tag: the Ethernet header and the tag, the type, the payload.\<close>
  "vlan_rebuilt frame =
     take 16 frame @ (if vlan_ip_version frame = 4 then [0x08, 0x00] else [0x86, 0xdd])
     @ drop 16 frame"

definition rebuilt_sdu :: "rle_sdu \<Rightarrow> byte list \<Rightarrow> bool" where
  \<comment> \<open>The SDU holds the rebuilt frame: two bytes more than the frame, the protocol
      type VLAN.\<close>
  "rebuilt_sdu s frame \<longleftrightarrow>
     sdu_size s = length frame + 2 \<and> sdu_protocol_type s = 0x8100 \<and>
     take (length frame + 2) (sdu_buffer s) = vlan_rebuilt frame"

text \<open>
  PPDUs that carry the frames \<open>vlan_frame\<close> and \<open>vlan_frame_v5\<close> with the compressed
  code \<^verbatim>\<open>0x31\<close>, for a receiver with compression on: the COMP PPDU of the second
  frame; a START on fragment id 0 that announces an ALPDU of 20 bytes (the code,
  the 18 bytes of the frame and a sequence number) and carries the code and the
  first ten bytes, which the two frames share; and for each frame the END with
  its last eight bytes and the trailer.
\<close>

definition vlan_receiver :: rle_receiver where
  "vlan_receiver = new_receiver\<lparr>conf := test_conf False True 0x00\<rparr>"

definition comp_ppdu_vlan_v5 :: "byte list" where
  "comp_ppdu_vlan_v5 = [0xc0, 0x13, 0x31] @ vlan_frame_v5"

definition start_ppdu_vlan :: "byte list" where
  "start_ppdu_vlan = [0x80, 0x0b, 0x00, 0x28, 0x31] @ take 10 vlan_frame"

definition end_ppdu_vlan :: "byte list" where
  "end_ppdu_vlan = [0x40, 0x48] @ drop 10 vlan_frame @ [0x00]"

definition end_ppdu_vlan_v5 :: "byte list" where
  "end_ppdu_vlan_v5 = [0x40, 0x48] @ drop 10 vlan_frame_v5 @ [0x00]"

definition started_receiver_vlan :: rle_receiver where
  \<comment> \<open>The receiver after the START.\<close>
  "started_receiver_vlan =
     (case reassembly_start_ppdu (example_header_ops no_crc) vlan_receiver start_ppdu_vlan 15 of
        Some (ret, r, i) \<Rightarrow> r
      | None \<Rightarrow> vlan_receiver)"

section \<open>Properties of the context and of the transmitter\<close>

subsection \<open>The setter of the label type\<close>

text \<open>
  Claim C9. Whatever value it is given, \<^verbatim>\<open>rle_ctx_set_label_type\<close> reports an invalid
  value and leaves the stored label type as it was; this holds in particular for the
  two legal values, implicit protocol type and signal (two different constants).
\<close>

theorem rle_ctx_set_label_type_rejects_all:
  assumes "lt_implicit_proto_type \<noteq> lt_proto_signal"
  shows "rle_ctx_set_label_type lt_implicit_proto_type lt_proto_signal c val = (c, True) \<and>
         rle_ctx_set_label_type lt_implicit_proto_type lt_proto_signal c lt_implicit_proto_type
           = (c, True) \<and>
         rle_ctx_set_label_type lt_implicit_proto_type lt_proto_signal c lt_proto_signal
           = (c, True) \<and>
         rle_ctx_get_label_type
           (fst (rle_ctx_set_label_type lt_implicit_proto_type lt_proto_signal c val))
           = rle_ctx_get_label_type c"
  using assms by (auto simp: rle_ctx_set_label_type_def)

theorem rle_ctx_set_label_type_rejects_all_witness:
  "(2 :: byte) \<noteq> 3 \<and>
   rle_ctx_set_label_type 2 3 (init_ctx 0) 2 = (init_ctx 0, True) \<and>
   rle_ctx_set_label_type 2 3 (init_ctx 0) 3 = (init_ctx 0, True) \<and>
   rle_ctx_get_label_type (fst (rle_ctx_set_label_type 2 3 (init_ctx 0) 2)) = 0xff"
proof -
  have d: "(2 :: byte) \<noteq> 3" by simp
  have l: "rle_ctx_get_label_type (init_ctx 0) = 0xff"
    by (simp add: rle_ctx_get_label_type_def init_ctx_def rle_ctx_set_seq_nb_def
        rle_ctx_set_frag_id_def flush_def)
  from rle_ctx_set_label_type_rejects_all [OF d, of "init_ctx 0" 2] d l
  show ?thesis by simp
qed

subsection \<open>The sequence number\<close>

lemma next_seq_nb_init_ctx: "rle_ctx_management.next_seq_nb (init_ctx i) = 0"
  by (simp add: init_ctx_def rle_ctx_set_seq_nb_def)

lemma next_seq_nb_incr:
  "rle_ctx_management.next_seq_nb (rle_ctx_incr_seq_nb c) = rle_ctx_management.next_seq_nb c + 1"
  by (simp add: rle_ctx_incr_seq_nb_def)

lemma next_seq_nb_incr_funpow:
  "rle_ctx_management.next_seq_nb ((rle_ctx_incr_seq_nb ^^ n) c) =
     rle_ctx_management.next_seq_nb c + of_nat n"
  by (induction n) (simp_all add: next_seq_nb_incr)

text \<open>
  Claim C7, as the code has it. \<^verbatim>\<open>rle_ctx_incr_seq_nb\<close> advances the stored next
  sequence number by one modulo 256, the width of the byte that holds it; the three
  low-order bits of the stored value, which are what a 3-bit trailer field takes
  from it, advance by one modulo 8.
\<close>

theorem rle_ctx_incr_seq_nb_mod_256:
  "unat (rle_ctx_management.next_seq_nb (rle_ctx_incr_seq_nb c)) =
     (unat (rle_ctx_management.next_seq_nb c) + 1) mod 256 \<and>
   unat (rle_ctx_management.next_seq_nb (rle_ctx_incr_seq_nb c)) mod 8 =
     (unat (rle_ctx_management.next_seq_nb c) mod 8 + 1) mod 8"
proof -
  have a: "unat (rle_ctx_management.next_seq_nb (rle_ctx_incr_seq_nb c)) =
             (unat (rle_ctx_management.next_seq_nb c) + 1) mod 256"
    by (simp add: next_seq_nb_incr unat_word_ariths)
  have "((unat (rle_ctx_management.next_seq_nb c) + 1) mod 256) mod 8 =
          (unat (rle_ctx_management.next_seq_nb c) + 1) mod 8"
    by (rule mod_mod_cancel) simp
  also have "\<dots> = (unat (rle_ctx_management.next_seq_nb c) mod 8 + 1) mod 8"
    by (simp only: mod_add_left_eq)
  finally show ?thesis using a by simp
qed

text \<open>
  Claim C7 as stated fails: a context starts with the sequence number 0, and after
  eight increments the stored value is 8, outside the range 0..7 and not 0, the
  successor of 7 modulo 8.
\<close>

theorem rle_ctx_incr_seq_nb_leaves_range:
  "rle_ctx_management.next_seq_nb ((rle_ctx_incr_seq_nb ^^ 8) (init_ctx 0)) = 8 \<and>
   \<not> unat (rle_ctx_management.next_seq_nb ((rle_ctx_incr_seq_nb ^^ 8) (init_ctx 0))) < 8 \<and>
   unat (rle_ctx_management.next_seq_nb ((rle_ctx_incr_seq_nb ^^ 7) (init_ctx 0))) = 7 \<and>
   unat (rle_ctx_management.next_seq_nb
           (rle_ctx_incr_seq_nb ((rle_ctx_incr_seq_nb ^^ 7) (init_ctx 0)))) \<noteq> (7 + 1) mod 8"
  by (simp add: next_seq_nb_incr next_seq_nb_incr_funpow next_seq_nb_init_ctx)

subsection \<open>The bitmap of the contexts in use\<close>

lemma is_frag_ctx_free_bit: "is_frag_ctx_free t j = bit (rle_transmitter.free_ctx t) j"
proof -
  have "is_frag_ctx_free t j = odd (drop_bit j (uint (rle_transmitter.free_ctx t)))"
    by (simp add: is_frag_ctx_free_def and_one_eq odd_iff_mod_2_eq_one)
  also have "\<dots> = bit (uint (rle_transmitter.free_ctx t)) j"
    by (simp only: bit_iff_odd_drop_bit)
  also have "\<dots> = bit (rle_transmitter.free_ctx t) j"
    by (auto simp add: bit_uint_iff dest: bit_imp_le_length)
  finally show ?thesis .
qed

lemma set_nonfree_frag_ctx_bit:
  "bit (rle_transmitter.free_ctx (set_nonfree_frag_ctx t i)) j =
     (bit (rle_transmitter.free_ctx t) j \<or> (j = i \<and> i < 8))"
  by (auto simp add: set_nonfree_frag_ctx_def bit_simps dest: bit_imp_le_length)

lemma set_free_frag_ctx_zero: "rle_transmitter.free_ctx (set_free_frag_ctx t i) = 0"
  by (simp add: set_free_frag_ctx_def)

text \<open>
  Claim C3 at its failing input. \<^verbatim>\<open>set_free_frag_ctx\<close> stores
  \<^verbatim>\<open>(0 << index) & 0xff\<close>, which is 0 for every index: releasing one fragment id
  clears the whole bitmap. With the contexts 0 and 1 taken, context 1 is reported in
  use; after context 0 is released through \<^verbatim>\<open>rle_transmitter_free_context\<close>,
  context 1 is reported free too, though nothing was done to it.
\<close>

theorem set_free_frag_ctx_clears_every_bit:
  "rle_transmitter.free_ctx (set_free_frag_ctx t i) = 0 \<and>
   is_frag_ctx_free (set_nonfree_frag_ctx (set_nonfree_frag_ctx init 0) 1) 0 \<and>
   is_frag_ctx_free (set_nonfree_frag_ctx (set_nonfree_frag_ctx init 0) 1) 1 \<and>
   \<not> is_frag_ctx_free
       (rle_transmitter_free_context (set_nonfree_frag_ctx (set_nonfree_frag_ctx init 0) 1) 0) 1"
  by (simp add: is_frag_ctx_free_bit set_nonfree_frag_ctx_bit rle_transmitter_free_context_def
      set_free_frag_ctx_zero)

text \<open>
  The same happens on the error exit of \<^verbatim>\<open>rle_transmitter_get_packet\<close>, whatever
  contexts were in use: a status other than \<^verbatim>\<open>C_OK\<close> leaves the bitmap at 0.
\<close>

lemma rle_transmitter_get_packet_error_clears_every_bit:
  assumes "rle_transmitter_get_packet max_seq_no frag t buf n fid pt = (ret, t', b)"
    and "ret \<noteq> C_OK"
  shows "rle_transmitter.free_ctx t' = 0"
  using assms
  by (auto simp: rle_transmitter_get_packet_def Let_def set_free_frag_ctx_zero
      split: prod.splits if_splits)

subsection \<open>The statistics queries\<close>

lemma counter_loop_sum:
  "counter_loop get t i acc =
     acc + (\<Sum>k = i..<RLE_MAX_FRAG_NUMBER. get (rle_transmitter.rle_ctx_man t ! k))"
proof (induction get t i acc rule: counter_loop.induct)
  case (1 get t i acc)
  show ?case
  proof (cases "i < RLE_MAX_FRAG_NUMBER")
    case True
    have "counter_loop get t i acc =
            counter_loop get t (Suc i) (acc + get (rle_transmitter.rle_ctx_man t ! i))"
      using True by (subst counter_loop.simps) (simp only: if_True)
    also have "\<dots> = acc + get (rle_transmitter.rle_ctx_man t ! i) +
                 (\<Sum>k = Suc i..<RLE_MAX_FRAG_NUMBER. get (rle_transmitter.rle_ctx_man t ! k))"
      using True by (rule "1.IH")
    also have "\<dots> = acc + (\<Sum>k = i..<RLE_MAX_FRAG_NUMBER.
                          get (rle_transmitter.rle_ctx_man t ! k))"
      using True by (simp only: sum.atLeast_Suc_lessThan add.assoc)
    finally show ?thesis .
  next
    case False
    have "counter_loop get t i acc = acc"
      using False by (subst counter_loop.simps) (simp only: if_False)
    then show ?thesis using False by simp
  qed
qed

lemma sum_nth_sum_list:
  fixes get :: "'a \<Rightarrow> 64 word"
  shows "(\<Sum>k = 0..<length xs. get (xs ! k)) = sum_list (map get xs)"
proof -
  have "sum_list (map get xs) = (\<Sum>k = 0..<length (map get xs). map get xs ! k)"
    by (rule sum_list_sum_nth)
  also have "\<dots> = (\<Sum>k = 0..<length xs. get (xs ! k))"
    by (rule sum.cong) simp_all
  finally show ?thesis by simp
qed

lemma counter_loop_sum_list:
  assumes "length (rle_transmitter.rle_ctx_man t) = RLE_MAX_FRAG_NUMBER"
  shows "counter_loop get t 0 0 = sum_list (map get (rle_transmitter.rle_ctx_man t))"
proof -
  have "counter_loop get t 0 0 =
          (\<Sum>k = 0..<length (rle_transmitter.rle_ctx_man t).
              get (rle_transmitter.rle_ctx_man t ! k))"
    by (simp add: counter_loop_sum assms)
  then show ?thesis by (simp only: sum_nth_sum_list)
qed

lemma unat_sum_list_word:
  fixes ws :: "64 word list"
  shows "unat (sum_list ws) = sum_list (map unat ws) mod 2 ^ 64"
proof (induction ws)
  case Nil
  show ?case by simp
next
  case (Cons w ws)
  have "unat (w + sum_list ws) = (unat w + unat (sum_list ws)) mod 2 ^ 64"
    by (simp add: unat_word_ariths)
  also have "\<dots> = (unat w + sum_list (map unat ws) mod 2 ^ 64) mod 2 ^ 64"
    by (simp add: Cons.IH)
  also have "\<dots> = (unat w + sum_list (map unat ws)) mod 2 ^ 64"
    by (simp add: mod_add_right_eq)
  finally show ?case by simp
qed


text \<open>
  Claim C10. On a transmitter with its eight contexts, each statistics query returns
  the sum of the corresponding counter over the contexts, added up as \<^verbatim>\<open>uint64_t\<close>
  values (so modulo \<open>2 ^ 64\<close>), and returns the transmitter as it was given.
\<close>

theorem rle_transmitter_get_counters_sum:
  assumes "length (rle_transmitter.rle_ctx_man t) = RLE_MAX_FRAG_NUMBER"
  shows "rle_transmitter_get_counter_ok t =
           (sum_list (map rle_ctx_management.counter_ok (rle_transmitter.rle_ctx_man t)), t) \<and>
         rle_transmitter_get_counter_dropped t =
           (sum_list (map rle_ctx_management.counter_dropped (rle_transmitter.rle_ctx_man t)), t) \<and>
         rle_transmitter_get_counter_lost t =
           (sum_list (map rle_ctx_management.counter_lost (rle_transmitter.rle_ctx_man t)), t) \<and>
         rle_transmitter_get_counter_bytes t =
           (sum_list (map counter_bytes (rle_transmitter.rle_ctx_man t)), t) \<and>
         unat (fst (rle_transmitter_get_counter_ok t)) =
           (\<Sum>c\<leftarrow>rle_transmitter.rle_ctx_man t. unat (rle_ctx_management.counter_ok c))
             mod 2 ^ 64 \<and>
         unat (fst (rle_transmitter_get_counter_dropped t)) =
           (\<Sum>c\<leftarrow>rle_transmitter.rle_ctx_man t. unat (rle_ctx_management.counter_dropped c))
             mod 2 ^ 64 \<and>
         unat (fst (rle_transmitter_get_counter_lost t)) =
           (\<Sum>c\<leftarrow>rle_transmitter.rle_ctx_man t. unat (rle_ctx_management.counter_lost c))
             mod 2 ^ 64 \<and>
         unat (fst (rle_transmitter_get_counter_bytes t)) =
           (\<Sum>c\<leftarrow>rle_transmitter.rle_ctx_man t. unat (counter_bytes c)) mod 2 ^ 64"
proof -
  note L = counter_loop_sum_list [OF assms]
  have 1: "rle_transmitter_get_counter_ok t =
           (sum_list (map rle_ctx_management.counter_ok (rle_transmitter.rle_ctx_man t)), t)"
    by (simp only: rle_transmitter_get_counter_ok_def L)
  have 2: "rle_transmitter_get_counter_dropped t =
           (sum_list (map rle_ctx_management.counter_dropped (rle_transmitter.rle_ctx_man t)), t)"
    by (simp only: rle_transmitter_get_counter_dropped_def L)
  have 3: "rle_transmitter_get_counter_lost t =
           (sum_list (map rle_ctx_management.counter_lost (rle_transmitter.rle_ctx_man t)), t)"
    by (simp only: rle_transmitter_get_counter_lost_def L)
  have 4: "rle_transmitter_get_counter_bytes t =
           (sum_list (map counter_bytes (rle_transmitter.rle_ctx_man t)), t)"
    by (simp only: rle_transmitter_get_counter_bytes_def L)
  have 5: "unat (fst (rle_transmitter_get_counter_ok t)) =
           (\<Sum>c\<leftarrow>rle_transmitter.rle_ctx_man t. unat (rle_ctx_management.counter_ok c))
             mod 2 ^ 64"
    by (simp only: 1 fst_conv unat_sum_list_word map_map comp_def)
  have 6: "unat (fst (rle_transmitter_get_counter_dropped t)) =
           (\<Sum>c\<leftarrow>rle_transmitter.rle_ctx_man t. unat (rle_ctx_management.counter_dropped c))
             mod 2 ^ 64"
    by (simp only: 2 fst_conv unat_sum_list_word map_map comp_def)
  have 7: "unat (fst (rle_transmitter_get_counter_lost t)) =
           (\<Sum>c\<leftarrow>rle_transmitter.rle_ctx_man t. unat (rle_ctx_management.counter_lost c))
             mod 2 ^ 64"
    by (simp only: 3 fst_conv unat_sum_list_word map_map comp_def)
  have 8: "unat (fst (rle_transmitter_get_counter_bytes t)) =
           (\<Sum>c\<leftarrow>rle_transmitter.rle_ctx_man t. unat (counter_bytes c)) mod 2 ^ 64"
    by (simp only: 4 fst_conv unat_sum_list_word map_map comp_def)
  from 1 2 3 4 5 6 7 8 show ?thesis by blast
qed

lemma stats_transmitter_ctxs:
  "rle_transmitter.rle_ctx_man stats_transmitter =
     [stats_ctx 0, stats_ctx 1, stats_ctx 2, stats_ctx 3,
      stats_ctx 4, stats_ctx 5, stats_ctx 6, stats_ctx 7]"
  by (simp add: stats_transmitter_def RLE_MAX_FRAG_NUMBER_def upt_rec eval_nat_numeral)

theorem rle_transmitter_get_counters_sum_witness:
  "length (rle_transmitter.rle_ctx_man stats_transmitter) = RLE_MAX_FRAG_NUMBER \<and>
   rle_transmitter_get_counter_ok stats_transmitter = (36, stats_transmitter) \<and>
   rle_transmitter_get_counter_dropped stats_transmitter = (56, stats_transmitter) \<and>
   rle_transmitter_get_counter_lost stats_transmitter = (8, stats_transmitter) \<and>
   rle_transmitter_get_counter_bytes stats_transmitter = (2800, stats_transmitter)"
proof -
  have len: "length (rle_transmitter.rle_ctx_man stats_transmitter) = RLE_MAX_FRAG_NUMBER"
    by (simp add: stats_transmitter_ctxs RLE_MAX_FRAG_NUMBER_def)
  from rle_transmitter_get_counters_sum [OF len] len show ?thesis
    by (simp add: stats_transmitter_ctxs stats_ctx_def)
qed

section \<open>Properties of the early encapsulation module\<close>

lemma ipv4_sdu_unfold:
  assumes "4 \<le> n"
  shows "ipv4_sdu n = [0x45, 0x00, 0x00, 0x14] @ replicate (n - 4) 0"
proof -
  have "ipv4_sdu n = take n [0x45, 0x00, 0x00, 0x14] @ take (n - 4) (replicate n 0)"
    unfolding ipv4_sdu_def by (simp only: take_append) simp
  also have "take n [0x45, 0x00, 0x00, 0x14 :: byte] = [0x45, 0x00, 0x00, 0x14]"
    using assms by (intro take_all) simp
  also have "take (n - 4) (replicate n (0 :: byte)) = replicate (n - 4) 0"
    by (simp add: min_def)
  finally show ?thesis .
qed

lemma length_ipv4_sdu: "length (ipv4_sdu n) = n"
  by (simp add: ipv4_sdu_def)

lemma length_zero_sdu: "length (zero_sdu n) = n"
  by (simp add: zero_sdu_def)

lemma encap_check_pdu_validity_ipv4_sdu:
  assumes "4 \<le> n"
  shows "encap_check_pdu_validity (ipv4_sdu n) = Some C_OK"
  using assms
  by (simp add: ipv4_sdu_unfold encap_check_pdu_validity_def iphdr_tot_len_def
      iphdr_version_def ntohs_def RLE_MAX_PDU_SIZE_def IP_VERSION_4_def IP_VERSION_6_def)

lemma encap_check_pdu_validity_zero_sdu:
  assumes "4 \<le> n"
  shows "encap_check_pdu_validity (zero_sdu n) = Some C_ERROR"
  using assms
  by (simp add: zero_sdu_def encap_check_pdu_validity_def iphdr_tot_len_def
      iphdr_version_def ntohs_def RLE_MAX_PDU_SIZE_def IP_VERSION_4_def IP_VERSION_6_def)

text \<open>
  Claim C6 at its failing input. \<^verbatim>\<open>encap_check_pdu_validity\<close> compares the total
  length announced in the IP header of the SDU with \<^verbatim>\<open>RLE_MAX_PDU_SIZE\<close>, not the
  length of the SDU. An SDU of 4089 bytes, one more than the maximum, that begins
  with an IPv4 header announcing 20 bytes passes the check, and
  \<^verbatim>\<open>encap_encapsulate_pdu\<close> returns \<^verbatim>\<open>C_OK\<close> for it; the only error status there is
  is \<^verbatim>\<open>C_ERROR\<close>. An SDU of 4088 zero bytes is refused, for its version nibble.
\<close>

theorem encap_accepts_4089_bytes:
  "length (ipv4_sdu 4089) = 4089 \<and>
   \<not> length (ipv4_sdu 4089) \<le> RLE_MAX_PDU_SIZE \<and>
   encap_check_pdu_validity (ipv4_sdu 4089) = Some C_OK \<and>
   map_option fst (encap_encapsulate_pdu k c (ipv4_sdu 4089) 4089) = Some C_OK \<and>
   length (zero_sdu 4088) = 4088 \<and>
   encap_encapsulate_pdu k c (zero_sdu 4088) 4088 = Some (C_ERROR, c)"
  by (simp add: encap_encapsulate_pdu_def encap_check_pdu_validity_ipv4_sdu
      encap_check_pdu_validity_zero_sdu create_header_def Let_def
      length_ipv4_sdu length_zero_sdu RLE_MAX_PDU_SIZE_def)

text \<open>
  The length the context keeps after that call is not the length of the SDU: the
  setters of \<^verbatim>\<open>rle_ctx.c\<close> refuse 4089 and return without a status.
\<close>

lemma encap_4089_keeps_old_length:
  "map_option (pdu_length \<circ> snd) (encap_encapsulate_pdu k c (ipv4_sdu 4089) 4089)
     = Some (pdu_length c)"
  by (simp add: encap_encapsulate_pdu_def encap_check_pdu_validity_ipv4_sdu
      create_header_def Let_def rle_ctx_set_is_fragmented_def rle_ctx_set_frag_counter_def
      rle_ctx_set_use_crc_def rle_ctx_set_pdu_length_def rle_ctx_set_remaining_pdu_length_def
      rle_ctx_set_rle_length_def rle_ctx_set_proto_type_def rle_ctx_set_label_type_def
      rle_ctx_set_qos_tag_def RLE_MAX_PDU_SIZE_def unat_of_nat)

text \<open>
  When the encapsulation fails, \<^verbatim>\<open>rle_transmitter_encap_data\<close> counts a dropped packet
  in the context and stores 0 in the bitmap.
\<close>

lemma rle_transmitter_encap_data_error_state:
  assumes "encap (rle_transmitter.rle_ctx_man t ! unat fid) buf n pt = (C_ERROR, c')"
    and "unat fid < length (rle_transmitter.rle_ctx_man t)"
    and "\<not> is_frag_ctx_free t (unat fid)"
  shows "rle_transmitter_encap_data encap (Some t) (Some buf) n pt fid =
           (C_ERROR, Some \<lparr>rle_transmitter.rle_ctx_man = (rle_transmitter.rle_ctx_man t)
                              [unat fid := rle_ctx_incr_counter_dropped c'],
                            rle_transmitter.free_ctx = 0\<rparr>)"
  using assms
  by (simp add: rle_transmitter_encap_data_def Let_def set_nonfree_frag_ctx_def upd_ctx_def
      set_free_frag_ctx_def)

section \<open>The ALPDU header the encapsulation tests expect\<close>


lemma is_suppressible_signal: "is_suppressible 0x0082 d"
  by (simp add: is_suppressible_def)







section \<open>The header-overhead query\<close>

text \<open>
  Claim C8. For a valid configuration the query answers 6 for a Logon FPDU, 3 for a
  Control FPDU and 5 for a Traffic-Control FPDU, whatever the omission and
  compression settings, and the status "non-deterministic" for a Traffic FPDU.
\<close>

theorem rle_get_header_size_fixed:
  assumes "rle_config_check defined_code cf"
  shows "rle_get_header_size defined_code cf RLE_LOGON_FPDU = (RLE_HEADER_SIZE_OK, Some 6) \<and>
         rle_get_header_size defined_code cf RLE_CTRL_FPDU = (RLE_HEADER_SIZE_OK, Some 3) \<and>
         rle_get_header_size defined_code cf RLE_TRAFFIC_CTRL_FPDU = (RLE_HEADER_SIZE_OK, Some 5) \<and>
         rle_get_header_size defined_code cf RLE_TRAFFIC_FPDU =
           (RLE_HEADER_SIZE_ERR_NON_DETERMINISTIC, None)"
  using assms by (simp add: rle_get_header_size_def)

lemma rle_config_check_test_conf:
  assumes "defined_code implicit" and "implicit \<noteq> 0x31"
  shows "rle_config_check defined_code (test_conf omission compression implicit)"
  using assms by (simp add: rle_config_check_def test_conf_def)

theorem rle_get_header_size_fixed_witness:
  "rle_config_check (\<lambda>c. c \<noteq> 0x31) (test_conf False False 0x00) \<and>
   rle_get_header_size (\<lambda>c. c \<noteq> 0x31) (test_conf False False 0x00) RLE_TRAFFIC_CTRL_FPDU
     = (RLE_HEADER_SIZE_OK, Some 5) \<and>
   rle_get_header_size (\<lambda>c. c \<noteq> 0x31) (test_conf False False 0x00) RLE_TRAFFIC_FPDU
     = (RLE_HEADER_SIZE_ERR_NON_DETERMINISTIC, None)"
proof -
  have v: "rle_config_check (\<lambda>c. c \<noteq> 0x31) (test_conf False False 0x00)"
    by (rule rle_config_check_test_conf) simp_all
  from rle_get_header_size_fixed [OF v] v show ?thesis by simp
qed

text \<open>
  With the codes \<^verbatim>\<open>0x00\<close> and \<^verbatim>\<open>0x34\<close> of the test configurations defined, the two
  tests of \<^verbatim>\<open>test_rle_misc.c\<close> pass on the modelled query.
\<close>

lemma header_overhead_tests_pass:
  assumes "defined_code 0x00" and "defined_code 0x34"
  shows "test_request_rle_header_overhead_all defined_code \<and>
         test_request_rle_header_overhead_traffic defined_code"
  using assms
  by (simp add: test_request_rle_header_overhead_all_def test_requests_def
      test_request_rle_header_overhead_def test_request_rle_header_overhead_traffic_def
      rle_get_header_size_def rle_config_check_test_conf)

section \<open>Properties of the reassembly module\<close>

subsection \<open>Rebuilding the protocol type of a VLAN header\<close>

lemma take_memcpy:
  assumes "off \<le> length dst" and "n \<le> length src"
  shows "take (off + n) (memcpy dst off src n) = take off dst @ take n src"
proof -
  have a: "length (take off dst) = off" using assms(1) by simp
  have b: "length (take n src) = n" using assms(2) by simp
  have "take (off + n) ((take off dst @ take n src) @ drop (off + n) dst)
          = take off dst @ take n src"
    using a b by (simp del: length_take)
  then show ?thesis by (simp add: memcpy_def)
qed

lemma length_memcpy_ge:
  assumes "off \<le> length dst" and "n \<le> length src"
  shows "off + n \<le> length (memcpy dst off src n)"
  using assms by (simp add: memcpy_def)

lemma vlan_rebuild_bytes:
  fixes sdu_frag :: "byte list"
  assumes "17 \<le> sdu_frag_len" and "sdu_frag_len \<le> length sdu_frag" and "length e = 2"
  shows "take (sdu_frag_len + 2)
           (memcpy (memcpy (memcpy dst 0 sdu_frag 16) 16 e 2) 18
              (drop 16 sdu_frag) (sdu_frag_len - 16))
         = take 16 sdu_frag @ e @ take (sdu_frag_len - 16) (drop 16 sdu_frag)"
proof -
  define b1 where "b1 = memcpy dst 0 sdu_frag 16"
  define b2 where "b2 = memcpy b1 16 e 2"
  have s16: "16 \<le> length sdu_frag" using assms(1,2) by linarith
  have b1: "take 16 b1 = take 16 sdu_frag"
    using take_memcpy [of 0 dst 16 sdu_frag] s16 by (simp add: b1_def)
  have lb1: "16 \<le> length b1"
    using length_memcpy_ge [of 0 dst 16 sdu_frag] s16 by (simp add: b1_def)
  have b2: "take 18 b2 = take 16 sdu_frag @ e"
    using take_memcpy [of 16 b1 2 e] lb1 assms(3) b1 by (simp add: b2_def)
  have lb2: "18 \<le> length b2"
    using length_memcpy_ge [of 16 b1 2 e] lb1 assms(3) by (simp add: b2_def)
  have lr: "sdu_frag_len - 16 \<le> length (drop 16 sdu_frag)"
    using assms(2) by simp
  have "take (18 + (sdu_frag_len - 16)) (memcpy b2 18 (drop 16 sdu_frag) (sdu_frag_len - 16))
          = take 18 b2 @ take (sdu_frag_len - 16) (drop 16 sdu_frag)"
    by (rule take_memcpy [OF lb2 lr])
  moreover have "18 + (sdu_frag_len - 16) = sdu_frag_len + 2" using assms(1) by linarith
  ultimately have "take (sdu_frag_len + 2)
                     (memcpy b2 18 (drop 16 sdu_frag) (sdu_frag_len - 16))
                   = (take 16 sdu_frag @ e) @ take (sdu_frag_len - 16) (drop 16 sdu_frag)"
    by (simp only: b2)
  then show ?thesis by (simp only: b2_def b1_def append_assoc)
qed

lemma reassembly_insert_vlan_ptype_fails:
  assumes "sdu_frag_len < 17 \<or> vlan_eth_proto_type sdu_frag \<noteq> 0x8100 \<or>
           (vlan_ip_version sdu_frag \<noteq> 4 \<and> vlan_ip_version sdu_frag \<noteq> 6)"
  shows "reassembly_insert_vlan_ptype sdu_frag sdu_frag_len s = (False, s)"
  using assms
  by (auto simp: reassembly_insert_vlan_ptype_def Let_def sizeof_ether_header_def
      sizeof_vlan_hdr_def offsetof_ether_type_def RLE_PROTO_TYPE_VLAN_UNCOMP_def
      vlan_ip_version_def vlan_eth_proto_type_def)

lemma reassembly_insert_vlan_ptype_ok:
  assumes "17 \<le> sdu_frag_len"
    and "vlan_eth_proto_type sdu_frag = 0x8100"
    and "vlan_ip_version sdu_frag = 4 \<or> vlan_ip_version sdu_frag = 6"
  shows "reassembly_insert_vlan_ptype sdu_frag sdu_frag_len s =
           (True, \<lparr>sdu_buffer =
                     memcpy (memcpy (memcpy (sdu_buffer s) 0 sdu_frag 16) 16
                               (if vlan_ip_version sdu_frag = 4 then [0x08, 0x00]
                                else [0x86, 0xdd]) 2)
                       18 (drop 16 sdu_frag) (sdu_frag_len - 16),
                   sdu_size = sdu_frag_len + 2, sdu_protocol_type = 0x8100\<rparr>)"
proof -
  have n: "\<not> sdu_frag_len < 17" using assms(1) by simp
  have h4: "htons RLE_PROTO_TYPE_IPV4_UNCOMP = [0x08, 0x00]"
    by (simp add: htons_def RLE_PROTO_TYPE_IPV4_UNCOMP_def)
  have h6: "htons RLE_PROTO_TYPE_IPV6_UNCOMP = [0x86, 0xdd]"
    by (simp add: htons_def RLE_PROTO_TYPE_IPV6_UNCOMP_def)
  from assms(3) show ?thesis
  proof
    assume v: "vlan_ip_version sdu_frag = 4"
    show ?thesis
      using n assms(2) v
      by (simp add: reassembly_insert_vlan_ptype_def Let_def sizeof_ether_header_def
          sizeof_vlan_hdr_def offsetof_ether_type_def offsetof_vlan_hdr_tpid_def
          RLE_PROTO_TYPE_VLAN_UNCOMP_def vlan_ip_version_def vlan_eth_proto_type_def h4)
  next
    assume v: "vlan_ip_version sdu_frag = 6"
    show ?thesis
      using n assms(2) v
      by (simp add: reassembly_insert_vlan_ptype_def Let_def sizeof_ether_header_def
          sizeof_vlan_hdr_def offsetof_ether_type_def offsetof_vlan_hdr_tpid_def
          RLE_PROTO_TYPE_VLAN_UNCOMP_def vlan_ip_version_def vlan_eth_proto_type_def h6)
  qed
qed

text \<open>
  The function on its own. Given the reassembled bytes of an SDU whose compressed
  protocol type is "VLAN without protocol-type field": if there are at least 17 of
  them, the type of
  the Ethernet header is \<^verbatim>\<open>0x8100\<close> and the version nibble of the VLAN payload is 4
  or 6, the function succeeds with an SDU two bytes longer, of protocol type
  \<^verbatim>\<open>0x8100\<close>, whose bytes are the first 16 bytes of the input (Ethernet header and
  VLAN tag), then \<^verbatim>\<open>0x0800\<close> for version 4 or \<^verbatim>\<open>0x86dd\<close> for version 6, then the
  rest of the input; in every other case it fails and leaves the SDU untouched, and
  the callers drop the frame.
\<close>

lemma reassembly_insert_vlan_ptype_correct:
  assumes "sdu_frag_len \<le> length sdu_frag"
  shows "(17 \<le> sdu_frag_len \<and> vlan_eth_proto_type sdu_frag = 0x8100 \<and>
          (vlan_ip_version sdu_frag = 4 \<or> vlan_ip_version sdu_frag = 6) \<longrightarrow>
            (\<exists>b. reassembly_insert_vlan_ptype sdu_frag sdu_frag_len s =
                   (True, \<lparr>sdu_buffer = b, sdu_size = sdu_frag_len + 2,
                           sdu_protocol_type = 0x8100\<rparr>) \<and>
                 take (sdu_frag_len + 2) b =
                   take 16 sdu_frag
                   @ (if vlan_ip_version sdu_frag = 4 then [0x08, 0x00] else [0x86, 0xdd])
                   @ take (sdu_frag_len - 16) (drop 16 sdu_frag))) \<and>
         (sdu_frag_len < 17 \<or> vlan_eth_proto_type sdu_frag \<noteq> 0x8100 \<or>
          (vlan_ip_version sdu_frag \<noteq> 4 \<and> vlan_ip_version sdu_frag \<noteq> 6) \<longrightarrow>
            reassembly_insert_vlan_ptype sdu_frag sdu_frag_len s = (False, s))"
proof (intro conjI impI)
  assume a: "17 \<le> sdu_frag_len \<and> vlan_eth_proto_type sdu_frag = 0x8100 \<and>
             (vlan_ip_version sdu_frag = 4 \<or> vlan_ip_version sdu_frag = 6)"
  define e :: "byte list" where
    "e = (if vlan_ip_version sdu_frag = 4 then [0x08, 0x00] else [0x86, 0xdd])"
  have le: "length e = 2" by (simp add: e_def)
  define b where
    "b = memcpy (memcpy (memcpy (sdu_buffer s) 0 sdu_frag 16) 16 e 2)
           18 (drop 16 sdu_frag) (sdu_frag_len - 16)"
  have r: "reassembly_insert_vlan_ptype sdu_frag sdu_frag_len s =
             (True, \<lparr>sdu_buffer = b, sdu_size = sdu_frag_len + 2, sdu_protocol_type = 0x8100\<rparr>)"
    using a reassembly_insert_vlan_ptype_ok [of sdu_frag_len sdu_frag s]
    by (simp only: b_def e_def)
  have t: "take (sdu_frag_len + 2) b =
             take 16 sdu_frag @ e @ take (sdu_frag_len - 16) (drop 16 sdu_frag)"
    unfolding b_def using a assms le by (intro vlan_rebuild_bytes) simp_all
  from r t show "\<exists>b. reassembly_insert_vlan_ptype sdu_frag sdu_frag_len s =
                   (True, \<lparr>sdu_buffer = b, sdu_size = sdu_frag_len + 2,
                           sdu_protocol_type = 0x8100\<rparr>) \<and>
                 take (sdu_frag_len + 2) b =
                   take 16 sdu_frag
                   @ (if vlan_ip_version sdu_frag = 4 then [0x08, 0x00] else [0x86, 0xdd])
                   @ take (sdu_frag_len - 16) (drop 16 sdu_frag)"
    unfolding e_def by blast
next
  assume "sdu_frag_len < 17 \<or> vlan_eth_proto_type sdu_frag \<noteq> 0x8100 \<or>
          (vlan_ip_version sdu_frag \<noteq> 4 \<and> vlan_ip_version sdu_frag \<noteq> 6)"
  then show "reassembly_insert_vlan_ptype sdu_frag sdu_frag_len s = (False, s)"
    by (rule reassembly_insert_vlan_ptype_fails)
qed

lemma vlan_frame_fields:
  "length vlan_frame = 18" "vlan_eth_proto_type vlan_frame = 0x8100"
  "vlan_ip_version vlan_frame = 4"
  "length vlan_frame_v5 = 18" "vlan_eth_proto_type vlan_frame_v5 = 0x8100"
  "vlan_ip_version vlan_frame_v5 = 5"
  by (simp_all add: vlan_frame_def vlan_frame_v5_def vlan_eth_proto_type_def
      vlan_ip_version_def ntohs_def)

lemma reassembly_insert_vlan_ptype_examples:
  "fst (reassembly_insert_vlan_ptype vlan_frame 18 empty_sdu) \<and>
   sdu_size (snd (reassembly_insert_vlan_ptype vlan_frame 18 empty_sdu)) = 20 \<and>
   sdu_protocol_type (snd (reassembly_insert_vlan_ptype vlan_frame 18 empty_sdu)) = 0x8100 \<and>
   take 20 (sdu_buffer (snd (reassembly_insert_vlan_ptype vlan_frame 18 empty_sdu))) =
     [0, 0, 0, 0, 0, 0, 0, 0, 0, 0, 0, 0, 0x81, 0x00, 0x00, 0x01, 0x08, 0x00, 0x45, 0x00] \<and>
   reassembly_insert_vlan_ptype vlan_frame_v5 18 empty_sdu = (False, empty_sdu) \<and>
   reassembly_insert_vlan_ptype vlan_frame 16 empty_sdu = (False, empty_sdu)"
proof -
  have l: "18 \<le> length vlan_frame" "18 \<le> length vlan_frame_v5" "16 \<le> length vlan_frame"
    by (simp_all add: vlan_frame_fields)
  have t: "take 16 vlan_frame @ [0x08, 0x00] @ take (18 - 16) (drop 16 vlan_frame) =
             [0, 0, 0, 0, 0, 0, 0, 0, 0, 0, 0, 0, 0x81, 0x00, 0x00, 0x01, 0x08, 0x00, 0x45, 0x00]"
    by (simp add: vlan_frame_def)
  from reassembly_insert_vlan_ptype_correct [OF l(1), of empty_sdu]
    reassembly_insert_vlan_ptype_correct [OF l(2), of empty_sdu]
    reassembly_insert_vlan_ptype_correct [OF l(3), of empty_sdu] t
  show ?thesis by (auto simp: vlan_frame_fields)
qed

subsection \<open>The error exits\<close>

lemma length_ctx_upd [simp]: "length (rle_ctx_man (ctx_upd r i f)) = length (rle_ctx_man r)"
  by (simp add: ctx_upd_def)

lemma ctx_at_ctx_upd [simp]:
  "i < length (rle_ctx_man r) \<Longrightarrow> ctx_at (ctx_upd r i f) i = f (ctx_at r i)"
  by (simp add: ctx_upd_def ctx_at_def)

lemma free_ctx_ctx_upd [simp]: "free_ctx (ctx_upd r i f) = free_ctx r"
  by (simp add: ctx_upd_def)

lemma is_context_free_ctx_upd [simp]: "is_context_free (ctx_upd r i f) j = is_context_free r j"
  by (simp add: is_context_free_def)

lemma ctx_at_free_context [simp]: "ctx_at (rle_receiver_free_context r i) j = ctx_at r j"
  by (simp add: rle_receiver_free_context_def ctx_at_def)

lemma length_free_context [simp]:
  "length (rle_ctx_man (rle_receiver_free_context r i)) = length (rle_ctx_man r)"
  by (simp add: rle_receiver_free_context_def)

lemma is_context_free_free_context [simp]:
  "is_context_free (rle_receiver_free_context r i) i"
  by (simp add: rle_receiver_free_context_def is_context_free_def bit_unset_bit_iff)

lemma length_drop_context [simp]:
  "length (rle_ctx_man (drop_context r i n)) = length (rle_ctx_man r)"
  by (simp add: drop_context_def)

lemma ctx_at_drop_context:
  assumes "i < length (rle_ctx_man r)"
  shows "ctx_at (drop_context r i n) i =
           (ctx_at r i)\<lparr>counter_dropped := counter_dropped (ctx_at r i) + 1,
                        counter_lost := counter_lost (ctx_at r i) + of_nat n,
                        counter_bytes_dropped :=
                          counter_bytes_dropped (ctx_at r i) + current_counter (ctx_at r i)\<rparr>"
  using assms
  by (simp add: drop_context_def Let_def rle_ctx_incr_counter_dropped_r_def
      rle_ctx_incr_counter_lost_def rle_ctx_incr_counter_bytes_dropped_def)

lemma ctx_at_counted:
  assumes "i < length (rle_ctx_man r)"
  shows "ctx_at (counted r i n) i =
           (ctx_at r i)\<lparr>current_counter := current_counter (ctx_at r i) + of_nat n,
                        counter_bytes_in := counter_bytes_in (ctx_at r i) + of_nat n\<rparr>"
  using assms by (simp add: counted_def rle_ctx_incr_counter_bytes_in_def)

lemma counted_simps [simp]:
  "length (rle_ctx_man (counted r i n)) = length (rle_ctx_man r)"
  "is_context_free (counted r i n) j = is_context_free r j"
  by (simp_all add: counted_def)

lemma error_exit:
  assumes "i < length (rle_ctx_man r)"
  shows "dropped_and_released r
           (rle_receiver_free_context (drop_context (counted r i n) i lost) i) i n lost"
  using assms
  by (simp add: dropped_and_released_def ctx_at_drop_context ctx_at_counted)


lemma reassembly_cont_ppdu_error:
  assumes "rle_cont_end_ppdu_hdr_get_frag_id h ppdu = i" and "i < 8"
    and "length (rle_ctx_man r) = 8"
    and "is_context_free r i \<or>
         sdu_frag_end (buff (ctx_at r i)) + length (cont_end_ppdu_extract_alpdu_frag h ppdu n)
           > sdu_end (buff (ctx_at r i))"
  shows "reassembly_cont_ppdu h r ppdu n =
           Some (C_ERROR, rle_receiver_free_context (drop_context (counted r i n) i 1) i, i)"
proof -
  have b: "buff (ctx_at (counted r i n) i) = buff (ctx_at r i)"
    using assms(2,3) by (simp add: ctx_at_counted)
  show ?thesis
    using assms b
    by (auto simp add: reassembly_cont_ppdu_def Let_def counted_def [symmetric]
        RLE_MAX_FRAG_ID_def rasm_buf_get_reassembled_sdu_len_def rasm_buf_get_sdu_len_def)
qed

lemma reassembly_end_ppdu_free:
  assumes "rle_cont_end_ppdu_hdr_get_frag_id h ppdu = i" and "i < 8"
    and "length (rle_ctx_man r) = 8"
    and "is_context_free r i"
  shows "reassembly_end_ppdu h r ppdu n s =
           Some (C_ERROR,
                 rle_receiver_free_context
                   (drop_context
                      (rle_receiver_free_context (drop_context (counted r i n) i 1) i) i 0) i,
                 i, s)"
  using assms
  by (simp add: reassembly_end_ppdu_def Let_def counted_def [symmetric] RLE_MAX_FRAG_ID_def)

lemma reassembly_end_ppdu_length_error:
  assumes "rle_cont_end_ppdu_hdr_get_frag_id h ppdu = i" and "i < 8"
    and "length (rle_ctx_man r) = 8"
    and "\<not> is_context_free r i"
    and "length (cont_end_ppdu_extract_alpdu_frag h ppdu n) < end_trailer_len r i \<or>
         (sdu_info_size (buff (ctx_at r i)) = sdu_end (buff (ctx_at r i)) \<and>
          sdu_frag_end (buff (ctx_at r i))
            + (length (cont_end_ppdu_extract_alpdu_frag h ppdu n) - end_trailer_len r i)
            \<noteq> sdu_end (buff (ctx_at r i)))"
  shows "\<exists>r2. reassembly_end_ppdu h r ppdu n s =
           Some (C_ERROR, rle_receiver_free_context (drop_context r2 i 0) i, i, s) \<and>
           length (rle_ctx_man r2) = 8 \<and>
           counter_dropped (ctx_at r2 i) = counter_dropped (ctx_at r i) \<and>
           counter_lost (ctx_at r2 i) = counter_lost (ctx_at r i) \<and>
           counter_bytes_dropped (ctx_at r2 i) = counter_bytes_dropped (ctx_at r i) \<and>
           current_counter (ctx_at r2 i) = current_counter (ctx_at r i) + of_nat n"
proof -
  let ?frag = "cont_end_ppdu_extract_alpdu_frag h ppdu n"
  let ?c = "counted r i n"
  have i: "i < length (rle_ctx_man r)" using assms(2,3) by simp
  have c: "ctx_at ?c i =
             (ctx_at r i)\<lparr>current_counter := current_counter (ctx_at r i) + of_nat n,
                          counter_bytes_in := counter_bytes_in (ctx_at r i) + of_nat n\<rparr>"
    using i by (rule ctx_at_counted)
  have tl: "(if rle_ctx_get_use_crc (ctx_at ?c i) then sizeof_rle_alpdu_crc_trailer_t
             else sizeof_rle_alpdu_seqno_trailer_t) = end_trailer_len r i"
    by (simp add: c rle_ctx_get_use_crc_def end_trailer_len_def)
  define k where "k = length ?frag - end_trailer_len r i"
  define r3 where "r3 = ctx_upd ?c i (\<lambda>c. c\<lparr>buff :=
                         rasm_buf_cpy_sdu_frag
                           (rasm_buf_sdu_frag_put (rasm_buf_init_sdu_frag (buff c)) k)
                           (take k ?frag)\<rparr>)"
  have c3: "ctx_at r3 i = (ctx_at ?c i)\<lparr>buff :=
                         rasm_buf_cpy_sdu_frag
                           (rasm_buf_sdu_frag_put (rasm_buf_init_sdu_frag (buff (ctx_at ?c i))) k)
                           (take k ?frag)\<rparr>"
    using i by (simp add: r3_def)
  have good: "\<And>r2. r2 = ?c \<or> r2 = r3 \<Longrightarrow>
                length (rle_ctx_man r2) = 8 \<and>
                counter_dropped (ctx_at r2 i) = counter_dropped (ctx_at r i) \<and>
                counter_lost (ctx_at r2 i) = counter_lost (ctx_at r i) \<and>
                counter_bytes_dropped (ctx_at r2 i) = counter_bytes_dropped (ctx_at r i) \<and>
                current_counter (ctx_at r2 i) = current_counter (ctx_at r i) + of_nat n"
    using assms(3) by (auto simp: c c3) (simp add: r3_def)
  have res: "reassembly_end_ppdu h r ppdu n s =
               Some (C_ERROR, rle_receiver_free_context (drop_context ?c i 0) i, i, s) \<or>
             reassembly_end_ppdu h r ppdu n s =
               Some (C_ERROR, rle_receiver_free_context (drop_context r3 i 0) i, i, s)"
  proof (cases "length ?frag < end_trailer_len r i")
    case True
    then show ?thesis
      using assms(1,2,4) tl
      by (simp add: reassembly_end_ppdu_def Let_def counted_def [symmetric] RLE_MAX_FRAG_ID_def)
  next
    case False
    with assms(5) have a: "sdu_info_size (buff (ctx_at r i)) = sdu_end (buff (ctx_at r i))"
      and ne: "sdu_frag_end (buff (ctx_at r i)) + k \<noteq> sdu_end (buff (ctx_at r i))"
      by (simp_all add: k_def)
    show ?thesis
    proof (cases "sdu_frag_end (buff (ctx_at r i)) + k > sdu_end (buff (ctx_at r i))")
      case True
      then show ?thesis
        using assms(1,2,4) tl False a
        by (simp add: reassembly_end_ppdu_def Let_def counted_def [symmetric] RLE_MAX_FRAG_ID_def
            c rasm_buf_get_reassembled_sdu_len_def rasm_buf_get_sdu_len_def k_def)
    next
      case F2: False
      with ne have lt: "sdu_frag_end (buff (ctx_at r i)) + k < sdu_end (buff (ctx_at r i))"
        by simp
      have rb: "sdu_end (buff (ctx_at r3 i)) = sdu_end (buff (ctx_at r i))"
               "sdu_frag_end (buff (ctx_at r3 i)) = sdu_frag_end (buff (ctx_at r i)) + k"
        by (simp_all add: c3 c rasm_buf_cpy_sdu_frag_def rasm_buf_sdu_frag_put_def
            rasm_buf_init_sdu_frag_def)
      show ?thesis
        using assms(1,2,4) tl False a F2 lt rb
        by (simp add: reassembly_end_ppdu_def Let_def counted_def [symmetric] RLE_MAX_FRAG_ID_def
            c rasm_buf_get_reassembled_sdu_len_def rasm_buf_get_sdu_len_def k_def [symmetric]
            r3_def [symmetric])
    qed
  qed
  from res good show ?thesis by blast
qed


lemma reassembly_end_ppdu_trailer_error:
  assumes "rle_cont_end_ppdu_hdr_get_frag_id h ppdu = i" and "i < 8"
    and "length (rle_ctx_man r) = 8"
    and "\<not> is_context_free r i"
    and "frag = cont_end_ppdu_extract_alpdu_frag h ppdu n"
    and "end_trailer_len r i \<le> length frag"
    and "sdu_info_size (buff (ctx_at r i)) = sdu_end (buff (ctx_at r i))"
    and "sdu_frag_end (buff (ctx_at r i)) + (length frag - end_trailer_len r i)
           = sdu_end (buff (ctx_at r i))"
    and "end_build_sdu h (end_rasm_buf r i frag) s = Some (True, s1)"
    and "end_check h r i n frag s1 = (st, c', init', lost)"
    and "st \<noteq> 0"
  shows "reassembly_end_ppdu h r ppdu n s =
           Some (C_ERROR,
                 rle_receiver_free_context
                   (drop_context
                      ((ctx_upd (ctx_upd (counted r i n) i (\<lambda>c. c\<lparr>buff := end_rasm_buf r i frag\<rparr>))
                          i (\<lambda>_. c'))
                       \<lparr>is_ctx_seqnum_init := (is_ctx_seqnum_init r)[i := init']\<rparr>)
                      i lost) i,
                 i, s1)"
proof -
  let ?c = "counted r i n"
  have i: "i < length (rle_ctx_man r)" using assms(2,3) by simp
  have c: "ctx_at ?c i =
             (ctx_at r i)\<lparr>current_counter := current_counter (ctx_at r i) + of_nat n,
                          counter_bytes_in := counter_bytes_in (ctx_at r i) + of_nat n\<rparr>"
    using i by (rule ctx_at_counted)
  have tl: "(if rle_ctx_get_use_crc (ctx_at ?c i) then sizeof_rle_alpdu_crc_trailer_t
             else sizeof_rle_alpdu_seqno_trailer_t) = end_trailer_len r i"
    by (simp add: c rle_ctx_get_use_crc_def end_trailer_len_def)
  define k where "k = length frag - end_trailer_len r i"
  have bc: "buff (ctx_at ?c i) = buff (ctx_at r i)" by (simp add: c)
  have rbeq: "rasm_buf_cpy_sdu_frag
                (rasm_buf_sdu_frag_put (rasm_buf_init_sdu_frag (buff (ctx_at r i))) k)
                (take k frag) = end_rasm_buf r i frag"
    by (simp add: end_rasm_buf_def Let_def k_def)
  define r3 where "r3 = ctx_upd ?c i (\<lambda>c. c\<lparr>buff := end_rasm_buf r i frag\<rparr>)"
  have r3': "ctx_upd ?c i (\<lambda>c. c\<lparr>buff :=
               rasm_buf_cpy_sdu_frag
                 (rasm_buf_sdu_frag_put (rasm_buf_init_sdu_frag (buff c)) k) (take k frag)\<rparr>)
             = r3"
    using i bc rbeq by (simp add: r3_def ctx_upd_def ctx_at_def)
  have c3: "ctx_at r3 i = (ctx_at ?c i)\<lparr>buff := end_rasm_buf r i frag\<rparr>"
    using i by (simp add: r3_def)
  have rb: "sdu_end (end_rasm_buf r i frag) = sdu_end (buff (ctx_at r i))"
           "sdu_frag_end (end_rasm_buf r i frag) = sdu_frag_end (buff (ctx_at r i)) + k"
    by (simp_all add: end_rasm_buf_def Let_def k_def rasm_buf_cpy_sdu_frag_def
        rasm_buf_sdu_frag_put_def rasm_buf_init_sdu_frag_def)
  have init3: "is_ctx_seqnum_init r3 = is_ctx_seqnum_init r"
    by (simp add: r3_def counted_def ctx_upd_def)
  have chk: "check_alpdu_trailer h (drop k frag) s1 (ctx_at r3 i) (is_ctx_seqnum_init r3 ! i)
               = (st, c', init', lost)"
    using assms(10) by (simp add: end_check_def c3 init3 k_def)
  show ?thesis
    using assms(1,2,4,6,7,8,9,11) tl chk
    by (simp add: reassembly_end_ppdu_def Let_def counted_def [symmetric] RLE_MAX_FRAG_ID_def
        assms(5) [symmetric] bc rasm_buf_get_reassembled_sdu_len_def rasm_buf_get_sdu_len_def
        k_def [symmetric] r3' c3 rb init3 r3_def [symmetric])
qed


lemma released_after_length_error:
  assumes "i < 8" and "length (rle_ctx_man r2) = 8"
    and "counter_dropped (ctx_at r2 i) = counter_dropped (ctx_at r i)"
    and "counter_lost (ctx_at r2 i) = counter_lost (ctx_at r i)"
    and "counter_bytes_dropped (ctx_at r2 i) = counter_bytes_dropped (ctx_at r i)"
    and "current_counter (ctx_at r2 i) = current_counter (ctx_at r i) + of_nat n"
  shows "dropped_and_released r (rle_receiver_free_context (drop_context r2 i lost) i) i n lost"
  using assms by (simp add: dropped_and_released_def ctx_at_drop_context)

text \<open>
  Claim C4, as the code has it. For a PPDU of \<open>n\<close> bytes on the fragment id \<open>i\<close>,
  with the ALPDU fragment \<open>frag\<close>:
  \<^item> a CONT on a free context, or one that would exceed the declared length of the
    SDU, returns an error; one packet is counted dropped and one lost, the bytes of
    the burst are counted dropped, the context is free afterwards;
  \<^item> an END on a free context returns an error, counts one packet lost and leaves
    the context free;
  \<^item> an END on a context in use that is too short for its trailer, would exceed the
    declared length or leaves bytes missing returns an error; one packet is counted
    dropped, the bytes of the burst are counted dropped, the context is released, and
    the counter of lost packets keeps its value;
  \<^item> an END whose trailer the check refuses returns an error; one packet is counted
    dropped, the bytes of the burst are counted dropped, the context is released, and
    the counter of lost packets grows by the number the check reports.
  None of them returns \<^verbatim>\<open>C_REASSEMBLY_OK\<close>, the status that delivers an SDU.
\<close>

theorem reassembly_errors_drop_and_release:
  assumes "rle_cont_end_ppdu_hdr_get_frag_id h ppdu = i" and "i < 8"
    and "length (rle_ctx_man r) = 8"
    and "frag = cont_end_ppdu_extract_alpdu_frag h ppdu n"
  shows "(is_context_free r i \<or>
          sdu_frag_end (buff (ctx_at r i)) + length frag > sdu_end (buff (ctx_at r i)) \<longrightarrow>
            (\<exists>r'. reassembly_cont_ppdu h r ppdu n = Some (C_ERROR, r', i) \<and>
                  dropped_and_released r r' i n 1)) \<and>
         (is_context_free r i \<longrightarrow>
            (\<exists>r'. reassembly_end_ppdu h r ppdu n s = Some (C_ERROR, r', i, s) \<and>
                  counter_lost (ctx_at r' i) = counter_lost (ctx_at r i) + 1 \<and>
                  is_context_free r' i)) \<and>
         (\<not> is_context_free r i \<and>
          (length frag < end_trailer_len r i \<or>
           (sdu_info_size (buff (ctx_at r i)) = sdu_end (buff (ctx_at r i)) \<and>
            sdu_frag_end (buff (ctx_at r i)) + (length frag - end_trailer_len r i)
              \<noteq> sdu_end (buff (ctx_at r i)))) \<longrightarrow>
            (\<exists>r'. reassembly_end_ppdu h r ppdu n s = Some (C_ERROR, r', i, s) \<and>
                  dropped_and_released r r' i n 0)) \<and>
         (\<not> is_context_free r i \<and> end_trailer_len r i \<le> length frag \<and>
          sdu_info_size (buff (ctx_at r i)) = sdu_end (buff (ctx_at r i)) \<and>
          sdu_frag_end (buff (ctx_at r i)) + (length frag - end_trailer_len r i)
            = sdu_end (buff (ctx_at r i)) \<and>
          end_build_sdu h (end_rasm_buf r i frag) s = Some (True, s1) \<and>
          check_keeps_counters h \<and>
          end_check h r i n frag s1 = (st, c', init', lost) \<and> st \<noteq> 0 \<longrightarrow>
            (\<exists>r'. reassembly_end_ppdu h r ppdu n s = Some (C_ERROR, r', i, s1) \<and>
                  dropped_and_released r r' i n lost))"
proof (intro conjI impI)
  have i: "i < length (rle_ctx_man r)" using assms(2,3) by simp
  {
    assume "is_context_free r i \<or>
            sdu_frag_end (buff (ctx_at r i)) + length frag > sdu_end (buff (ctx_at r i))"
    then have "reassembly_cont_ppdu h r ppdu n =
                 Some (C_ERROR, rle_receiver_free_context (drop_context (counted r i n) i 1) i, i)"
      using assms by (intro reassembly_cont_ppdu_error) simp_all
    moreover have "dropped_and_released r
                     (rle_receiver_free_context (drop_context (counted r i n) i 1) i) i n 1"
      using i by (rule error_exit)
    ultimately show "\<exists>r'. reassembly_cont_ppdu h r ppdu n = Some (C_ERROR, r', i) \<and>
                          dropped_and_released r r' i n 1"
      by blast
  }
  {
    assume f: "is_context_free r i"
    let ?r' = "rle_receiver_free_context
                 (drop_context (rle_receiver_free_context (drop_context (counted r i n) i 1) i)
                    i 0) i"
    have "reassembly_end_ppdu h r ppdu n s = Some (C_ERROR, ?r', i, s)"
      using assms(1,2,3) f by (rule reassembly_end_ppdu_free)
    moreover have "counter_lost (ctx_at ?r' i) = counter_lost (ctx_at r i) + 1"
      using i by (simp add: ctx_at_drop_context ctx_at_counted)
    moreover have "is_context_free ?r' i" by simp
    ultimately show "\<exists>r'. reassembly_end_ppdu h r ppdu n s = Some (C_ERROR, r', i, s) \<and>
                          counter_lost (ctx_at r' i) = counter_lost (ctx_at r i) + 1 \<and>
                          is_context_free r' i"
      by blast
  }
  {
    assume a: "\<not> is_context_free r i \<and>
          (length frag < end_trailer_len r i \<or>
           (sdu_info_size (buff (ctx_at r i)) = sdu_end (buff (ctx_at r i)) \<and>
            sdu_frag_end (buff (ctx_at r i)) + (length frag - end_trailer_len r i)
              \<noteq> sdu_end (buff (ctx_at r i))))"
    then obtain r2 where
      r2: "reassembly_end_ppdu h r ppdu n s =
             Some (C_ERROR, rle_receiver_free_context (drop_context r2 i 0) i, i, s)"
        "length (rle_ctx_man r2) = 8"
        "counter_dropped (ctx_at r2 i) = counter_dropped (ctx_at r i)"
        "counter_lost (ctx_at r2 i) = counter_lost (ctx_at r i)"
        "counter_bytes_dropped (ctx_at r2 i) = counter_bytes_dropped (ctx_at r i)"
        "current_counter (ctx_at r2 i) = current_counter (ctx_at r i) + of_nat n"
      using reassembly_end_ppdu_length_error [OF assms(1,2,3), of n s] assms(4) by blast
    have "dropped_and_released r (rle_receiver_free_context (drop_context r2 i 0) i) i n 0"
      using assms(2) r2(2-6) by (rule released_after_length_error)
    with r2(1) show "\<exists>r'. reassembly_end_ppdu h r ppdu n s = Some (C_ERROR, r', i, s) \<and>
                          dropped_and_released r r' i n 0"
      by blast
  }
  {
    assume a: "\<not> is_context_free r i \<and> end_trailer_len r i \<le> length frag \<and>
          sdu_info_size (buff (ctx_at r i)) = sdu_end (buff (ctx_at r i)) \<and>
          sdu_frag_end (buff (ctx_at r i)) + (length frag - end_trailer_len r i)
            = sdu_end (buff (ctx_at r i)) \<and>
          end_build_sdu h (end_rasm_buf r i frag) s = Some (True, s1) \<and>
          check_keeps_counters h \<and>
          end_check h r i n frag s1 = (st, c', init', lost) \<and> st \<noteq> 0"
    define r4 where
      "r4 = (ctx_upd (ctx_upd (counted r i n) i (\<lambda>c. c\<lparr>buff := end_rasm_buf r i frag\<rparr>))
               i (\<lambda>_. c'))\<lparr>is_ctx_seqnum_init := (is_ctx_seqnum_init r)[i := init']\<rparr>"
    have res: "reassembly_end_ppdu h r ppdu n s =
                 Some (C_ERROR, rle_receiver_free_context (drop_context r4 i lost) i, i, s1)"
      unfolding r4_def using assms(1,2,3) a assms(4)
      by (intro reassembly_end_ppdu_trailer_error [where st = st]) simp_all
    have l4: "length (rle_ctx_man r4) = 8" using assms(3) by (simp add: r4_def)
    have c4: "ctx_at r4 i = c'"
      using i by (simp add: r4_def ctx_at_def ctx_upd_def counted_def)
    define cin where "cin = (ctx_at (counted r i n) i)\<lparr>buff := end_rasm_buf r i frag\<rparr>"
    from a have kc: "check_keeps_counters h"
      and ec: "end_check h r i n frag s1 = (st, c', init', lost)" by simp_all
    from kc have all: "\<forall>t s c b. case check_alpdu_trailer h t s c b of
                    (st, c', b', l) \<Rightarrow>
                      counter_dropped c' = counter_dropped c \<and>
                      counter_lost c' = counter_lost c \<and>
                      counter_bytes_dropped c' = counter_bytes_dropped c \<and>
                      current_counter c' = current_counter c"
      unfolding check_keeps_counters_def .
    have "case check_alpdu_trailer h (drop (length frag - end_trailer_len r i) frag) s1
                         cin (is_ctx_seqnum_init r ! i) of
                    (st, c', b', l) \<Rightarrow>
                      counter_dropped c' = counter_dropped cin \<and>
                      counter_lost c' = counter_lost cin \<and>
                      counter_bytes_dropped c' = counter_bytes_dropped cin \<and>
                      current_counter c' = current_counter cin"
      by (rule all [rule_format])
    moreover have "check_alpdu_trailer h (drop (length frag - end_trailer_len r i) frag) s1
                     cin (is_ctx_seqnum_init r ! i) = (st, c', init', lost)"
      using ec by (simp only: end_check_def cin_def)
    ultimately have keep: "counter_dropped c' = counter_dropped cin"
        "counter_lost c' = counter_lost cin"
        "counter_bytes_dropped c' = counter_bytes_dropped cin"
        "current_counter c' = current_counter cin"
      by simp_all
    have cin: "counter_dropped cin = counter_dropped (ctx_at r i)"
        "counter_lost cin = counter_lost (ctx_at r i)"
        "counter_bytes_dropped cin = counter_bytes_dropped (ctx_at r i)"
        "current_counter cin = current_counter (ctx_at r i) + of_nat n"
      using i by (simp_all add: cin_def ctx_at_counted)
    have "dropped_and_released r (rle_receiver_free_context (drop_context r4 i lost) i) i n lost"
      using assms(2) l4
      by (rule released_after_length_error) (simp_all only: c4 keep cin)
    with res show "\<exists>r'. reassembly_end_ppdu h r ppdu n s = Some (C_ERROR, r', i, s1) \<and>
                        dropped_and_released r r' i n lost"
      by blast
  }
qed

lemma example_ops_simps:
  "rle_start_ppdu_hdr_get_frag_id (example_header_ops crc) p = unat (drop_bit 5 (p ! 2))"
  "rle_cont_end_ppdu_hdr_get_frag_id (example_header_ops crc) p = unat ((p ! 1) AND 7)"
  "cont_end_ppdu_extract_alpdu_frag (example_header_ops crc) p n = take (n - 2) (drop 2 p)"
  "start_ppdu_extract_alpdu_frag (example_header_ops crc) p n =
     (take (n - 4) (drop 4 p), unat ((p ! 2) AND 0x1f) * 128 + unat (drop_bit 1 (p ! 3)),
      bit (p ! 3) 0)"
  "rle_start_ppdu_hdr_get_is_suppressed (example_header_ops crc) p = bit (p ! 0) 3"
  "uncomp_alpdu_extract_sdu_frag (example_header_ops crc) = example_uncomp_extract"
  "check_alpdu_trailer (example_header_ops crc) = example_check_alpdu_trailer crc"
  "RLE_PROTO_TYPE_VLAN_COMP_WO_PTYPE_FIELD (example_header_ops crc) = 0x31"
  by (simp_all add: example_header_ops_def)

lemma started_receiver_eq:
  "reassembly_start_ppdu (example_header_ops no_crc) new_receiver start_ppdu_13 9 =
     Some (C_OK, started_receiver, 0)"
  "length (rle_ctx_man started_receiver) = 8"
  "\<not> is_context_free started_receiver 0"
  "ctx_at started_receiver 0 =
     new_ctx\<lparr>buff := \<lparr>rasm_bytes = [1, 2, 3], sdu_end = 10, sdu_frag_start = 0, sdu_frag_end = 3,
                       sdu_info_size = 10, sdu_info_protocol_type = 0x0800,
                       comp_protocol_type = 0xff\<rparr>,
             current_counter := 9, counter_in := 1, counter_bytes_in := 9\<rparr>"
  by (simp_all add: started_receiver_def reassembly_start_ppdu_def Let_def example_ops_simps
      new_receiver_def start_ppdu_13_def RLE_MAX_FRAG_ID_def ctx_upd_def ctx_at_def
      is_context_free_def set_nonfree_frag_ctx_r_def rle_ctx_incr_counter_in_def
      rle_ctx_incr_counter_bytes_in_def test_conf_def example_uncomp_extract_def
      size_t_sub_def sizeof_rle_alpdu_hdr_uncomp_t_def sizeof_rle_alpdu_crc_trailer_t_def
      sizeof_rle_alpdu_seqno_trailer_t_def rle_ctx_set_use_crc_r_def rasm_buf_init_def
      rasm_buf_sdu_put_def rasm_buf_sdu_frag_put_def rasm_buf_cpy_sdu_frag_def memcpy_def
      new_ctx_def new_rasm_buf_def)

lemma started_receiver_crc_eq:
  "length (rle_ctx_man started_receiver_crc) = 8"
  "\<not> is_context_free started_receiver_crc 0"
  "ctx_at started_receiver_crc 0 =
     new_ctx\<lparr>buff := \<lparr>rasm_bytes = [1, 2, 3], sdu_end = 10, sdu_frag_start = 0, sdu_frag_end = 3,
                       sdu_info_size = 10, sdu_info_protocol_type = 0x0800,
                       comp_protocol_type = 0xff\<rparr>,
             use_crc := True,
             current_counter := 9, counter_in := 1, counter_bytes_in := 9\<rparr>"
  "is_ctx_seqnum_init started_receiver_crc ! 0 = False"
  by (simp_all add: started_receiver_crc_def reassembly_start_ppdu_def Let_def example_ops_simps
      new_receiver_def start_ppdu_crc_def RLE_MAX_FRAG_ID_def ctx_upd_def ctx_at_def
      is_context_free_def set_nonfree_frag_ctx_r_def rle_ctx_incr_counter_in_def
      rle_ctx_incr_counter_bytes_in_def test_conf_def example_uncomp_extract_def
      size_t_sub_def sizeof_rle_alpdu_hdr_uncomp_t_def sizeof_rle_alpdu_crc_trailer_t_def
      sizeof_rle_alpdu_seqno_trailer_t_def rle_ctx_set_use_crc_r_def rasm_buf_init_def
      rasm_buf_sdu_put_def rasm_buf_sdu_frag_put_def rasm_buf_cpy_sdu_frag_def memcpy_def
      new_ctx_def new_rasm_buf_def)

lemma new_receiver_facts:
  "length (rle_ctx_man new_receiver) = 8" "is_context_free new_receiver 0"
  by (simp_all add: new_receiver_def is_context_free_def)

lemma check_keeps_counters_example: "check_keeps_counters (example_header_ops crc)"
  by (simp add: check_keeps_counters_def example_ops_simps example_check_alpdu_trailer_def
      Let_def)

lemma example_ppdus:
  "rle_cont_end_ppdu_hdr_get_frag_id (example_header_ops crc) cont_ppdu_8 = 0"
  "cont_end_ppdu_extract_alpdu_frag (example_header_ops crc) cont_ppdu_8 10
     = [4, 5, 6, 7, 8, 9, 10, 11]"
  "rle_cont_end_ppdu_hdr_get_frag_id (example_header_ops crc) end_ppdu_short = 0"
  "cont_end_ppdu_extract_alpdu_frag (example_header_ops crc) end_ppdu_short 5 = [4, 5, 0]"
  "rle_cont_end_ppdu_hdr_get_frag_id (example_header_ops crc) end_ppdu_bad_crc = 0"
  "cont_end_ppdu_extract_alpdu_frag (example_header_ops crc) end_ppdu_bad_crc 13
     = [4, 5, 6, 7, 8, 9, 10, 1, 1, 1, 1]"
  by (simp_all add: example_ops_simps cont_ppdu_8_def end_ppdu_short_def end_ppdu_bad_crc_def)

text \<open>
  Claim C4 as stated fails. After the START of an SDU of ten bytes that carries
  three of them, an END with two more bytes leaves five bytes missing: the END
  returns an error, and the counter of lost packets has the value it had.
\<close>

theorem end_with_bytes_missing_counts_no_loss:
  "\<not> is_context_free started_receiver 0 \<and>
   sdu_frag_end (buff (ctx_at started_receiver 0)) + 2 < sdu_end (buff (ctx_at started_receiver 0)) \<and>
   (\<exists>r'. reassembly_end_ppdu (example_header_ops no_crc) started_receiver end_ppdu_short 5
            empty_sdu = Some (C_ERROR, r', 0, empty_sdu) \<and>
         counter_lost (ctx_at r' 0) = counter_lost (ctx_at started_receiver 0) \<and>
         counter_lost (ctx_at r' 0) = 0)"
proof -
  let ?h = "example_header_ops no_crc"
  have tl: "end_trailer_len started_receiver 0 = 1"
    by (simp add: end_trailer_len_def started_receiver_eq rle_ctx_get_use_crc_def new_ctx_def
        sizeof_rle_alpdu_seqno_trailer_t_def)
  have "\<exists>r2. reassembly_end_ppdu ?h started_receiver end_ppdu_short 5 empty_sdu =
           Some (C_ERROR, rle_receiver_free_context (drop_context r2 0 0) 0, 0, empty_sdu) \<and>
           length (rle_ctx_man r2) = 8 \<and>
           counter_dropped (ctx_at r2 0) = counter_dropped (ctx_at started_receiver 0) \<and>
           counter_lost (ctx_at r2 0) = counter_lost (ctx_at started_receiver 0) \<and>
           counter_bytes_dropped (ctx_at r2 0) = counter_bytes_dropped (ctx_at started_receiver 0) \<and>
           current_counter (ctx_at r2 0) = current_counter (ctx_at started_receiver 0) + of_nat 5"
    by (rule reassembly_end_ppdu_length_error)
       (simp_all add: example_ppdus started_receiver_eq tl)
  then obtain r2 where
    r: "reassembly_end_ppdu ?h started_receiver end_ppdu_short 5 empty_sdu =
           Some (C_ERROR, rle_receiver_free_context (drop_context r2 0 0) 0, 0, empty_sdu)"
    and l: "length (rle_ctx_man r2) = 8"
    and k: "counter_lost (ctx_at r2 0) = counter_lost (ctx_at started_receiver 0)"
    by blast
  have "counter_lost (ctx_at (rle_receiver_free_context (drop_context r2 0 0) 0) 0)
          = counter_lost (ctx_at started_receiver 0)"
    using l k by (simp add: ctx_at_drop_context)
  moreover have "counter_lost (ctx_at started_receiver 0) = 0"
    by (simp add: started_receiver_eq new_ctx_def)
  ultimately show ?thesis
    using r by (auto simp: started_receiver_eq)
qed


theorem reassembly_errors_drop_and_release_witness:
  "(\<exists>r'. reassembly_cont_ppdu (example_header_ops no_crc) started_receiver cont_ppdu_8 10 =
           Some (C_ERROR, r', 0) \<and>
         dropped_and_released started_receiver r' 0 10 1) \<and>
   (\<exists>r'. reassembly_end_ppdu (example_header_ops no_crc) new_receiver end_ppdu_short 5
           empty_sdu = Some (C_ERROR, r', 0, empty_sdu) \<and>
         counter_lost (ctx_at r' 0) = 1 \<and> is_context_free r' 0) \<and>
   (\<exists>r'. reassembly_end_ppdu (example_header_ops no_crc) started_receiver end_ppdu_short 5
           empty_sdu = Some (C_ERROR, r', 0, empty_sdu) \<and>
         dropped_and_released started_receiver r' 0 5 0) \<and>
   (\<exists>r' s1. reassembly_end_ppdu (example_header_ops no_crc) started_receiver_crc
              end_ppdu_bad_crc 13 empty_sdu = Some (C_ERROR, r', 0, s1) \<and>
            dropped_and_released started_receiver_crc r' 0 13 0)"
proof -
  let ?h = "example_header_ops no_crc"
  have tl: "end_trailer_len started_receiver 0 = 1" "end_trailer_len started_receiver_crc 0 = 4"
    by (simp_all add: end_trailer_len_def started_receiver_eq started_receiver_crc_eq
        rle_ctx_get_use_crc_def new_ctx_def sizeof_rle_alpdu_seqno_trailer_t_def
        sizeof_rle_alpdu_crc_trailer_t_def)
  have a: "\<exists>r'. reassembly_cont_ppdu ?h started_receiver cont_ppdu_8 10 = Some (C_ERROR, r', 0) \<and>
                dropped_and_released started_receiver r' 0 10 1"
    using reassembly_errors_drop_and_release
            [of ?h cont_ppdu_8 0 started_receiver "[4, 5, 6, 7, 8, 9, 10, 11]" 10]
    by (simp add: example_ppdus started_receiver_eq)
  have b: "\<exists>r'. reassembly_end_ppdu ?h new_receiver end_ppdu_short 5 empty_sdu =
                  Some (C_ERROR, r', 0, empty_sdu) \<and>
                counter_lost (ctx_at r' 0) = 1 \<and> is_context_free r' 0"
    using reassembly_errors_drop_and_release
            [of ?h end_ppdu_short 0 new_receiver "[4, 5, 0]" 5 empty_sdu]
    by (simp add: example_ppdus new_receiver_facts)
       (simp add: ctx_at_def new_receiver_def new_ctx_def)
  have c: "\<exists>r'. reassembly_end_ppdu ?h started_receiver end_ppdu_short 5 empty_sdu =
                  Some (C_ERROR, r', 0, empty_sdu) \<and>
                dropped_and_released started_receiver r' 0 5 0"
    using reassembly_errors_drop_and_release
            [of ?h end_ppdu_short 0 started_receiver "[4, 5, 0]" 5 empty_sdu]
    by (simp add: example_ppdus started_receiver_eq tl)
  define frag :: "byte list" where "frag = [4, 5, 6, 7, 8, 9, 10, 1, 1, 1, 1]"
  define rb where "rb = end_rasm_buf started_receiver_crc 0 frag"
  define s1 where "s1 = \<lparr>sdu_buffer = [1, 2, 3, 4, 5, 6, 7, 8, 9, 10], sdu_size = 10,
                          sdu_protocol_type = 0x0800\<rparr>"
  have rbv: "rb = \<lparr>rasm_bytes = [1, 2, 3, 4, 5, 6, 7, 8, 9, 10], sdu_end = 10,
                   sdu_frag_start = 3, sdu_frag_end = 10, sdu_info_size = 10,
                   sdu_info_protocol_type = 0x0800, comp_protocol_type = 0xff\<rparr>"
    by (simp add: rb_def end_rasm_buf_def tl Let_def frag_def started_receiver_crc_eq
        rasm_buf_init_sdu_frag_def rasm_buf_sdu_frag_put_def rasm_buf_cpy_sdu_frag_def
        memcpy_def)
  have bs: "end_build_sdu ?h rb empty_sdu = Some (True, s1)"
    by (simp add: end_build_sdu_def rbv example_ops_simps s1_def empty_sdu_def memcpy_def)
  have ck: "\<exists>cc. end_check ?h started_receiver_crc 0 13 frag s1 = (1, cc, False, 0)"
    by (simp add: end_check_def example_ops_simps example_check_alpdu_trailer_def tl frag_def
        ctx_at_counted started_receiver_crc_eq new_ctx_def no_crc_def)
  then obtain cc where ck': "end_check ?h started_receiver_crc 0 13 frag s1 = (1, cc, False, 0)"
    by blast
  have d: "\<exists>r' s1. reassembly_end_ppdu ?h started_receiver_crc end_ppdu_bad_crc 13 empty_sdu =
                  Some (C_ERROR, r', 0, s1) \<and>
                dropped_and_released started_receiver_crc r' 0 13 0"
    using reassembly_errors_drop_and_release
            [of ?h end_ppdu_bad_crc 0 started_receiver_crc frag 13 empty_sdu s1 1 cc False 0]
      bs ck' check_keeps_counters_example [of no_crc]
    by (simp add: example_ppdus started_receiver_crc_eq tl frag_def [symmetric] rb_def [symmetric])
       (auto simp: frag_def)
  from a b c d show ?thesis by blast
qed

subsection \<open>The rebuilt SDU on its way out of the receiver\<close>

text \<open>
  In a COMP PPDU whose ALPDU header is the compressed code for "VLAN without
  protocol-type field", the SDU is delivered exactly when the protocol type can be
  inserted, and it is the SDU the insertion built.
\<close>

lemma reassembly_comp_ppdu_vlan:
  assumes "\<not> rle_comp_ppdu_hdr_get_is_suppressed h ppdu"
    and "use_compressed_ptype (conf this)"
    and "comp_alpdu_extract_sdu_frag h (comp_ppdu_extract_alpdu_frag h ppdu n) = x"
    and "x_ret x = 0"
    and "x_comp_ptype x = RLE_PROTO_TYPE_VLAN_COMP_WO_PTYPE_FIELD h"
    and "x_ptype x = 0x8100"
  shows "reassembly_comp_ppdu h this ppdu n s =
           Some (case reassembly_insert_vlan_ptype (x_sdu_frag x) (length (x_sdu_frag x)) s of
                   (False, s') \<Rightarrow> (C_ERROR, s')
                 | (True, s') \<Rightarrow> (C_REASSEMBLY_OK, s'))"
  using assms
  by (simp add: reassembly_comp_ppdu_def Let_def RLE_PROTO_TYPE_VLAN_UNCOMP_def
      split: prod.splits bool.splits)

text \<open>
  In an END PPDU the SDU the insertion built is the one handed to the check of the
  trailer, and an insertion that fails ends the reassembly with an error.
\<close>

lemma end_build_sdu_vlan:
  assumes "comp_protocol_type rb = RLE_PROTO_TYPE_VLAN_COMP_WO_PTYPE_FIELD h"
    and "sdu_info_protocol_type rb = 0x8100"
  shows "end_build_sdu h rb s =
           Some (reassembly_insert_vlan_ptype (rasm_bytes rb) (sdu_info_size rb) s)"
  using assms by (simp add: end_build_sdu_def RLE_PROTO_TYPE_VLAN_UNCOMP_def)

text \<open>
  The sixth scenario of the specification: the COMP PPDU with the frame
  \<open>vlan_frame\<close>, received with compression on, delivers the frame with \<^verbatim>\<open>0x0800\<close>
  inserted.
\<close>

lemma comp_ppdu_vlan_delivered:
  "map_option (\<lambda>(ret, s'). (ret, sdu_size s', sdu_protocol_type s', take 20 (sdu_buffer s')))
     (reassembly_comp_ppdu (example_header_ops no_crc)
        (new_receiver\<lparr>conf := test_conf False True 0x00\<rparr>) comp_ppdu_vlan 21 empty_sdu)
   = Some (C_REASSEMBLY_OK, 20, 0x8100,
           [0, 0, 0, 0, 0, 0, 0, 0, 0, 0, 0, 0, 0x81, 0x00, 0x00, 0x01, 0x08, 0x00, 0x45, 0x00])"
proof -
  let ?h = "example_header_ops no_crc"
  let ?x = "\<lparr>x_ret = 0, x_ptype = 0x8100, x_comp_ptype = 0x31, x_sdu_frag = vlan_frame,
             x_alpdu_hdr_len = 1\<rparr>"
  have x: "comp_alpdu_extract_sdu_frag ?h (comp_ppdu_extract_alpdu_frag ?h comp_ppdu_vlan 21) = ?x"
    by (simp add: example_header_ops_def example_comp_extract_def comp_ppdu_vlan_def
        vlan_frame_def)
  have r: "reassembly_comp_ppdu ?h (new_receiver\<lparr>conf := test_conf False True 0x00\<rparr>)
             comp_ppdu_vlan 21 empty_sdu =
           Some (case reassembly_insert_vlan_ptype vlan_frame 18 empty_sdu of
                   (False, s') \<Rightarrow> (C_ERROR, s')
                 | (True, s') \<Rightarrow> (C_REASSEMBLY_OK, s'))"
    using reassembly_comp_ppdu_vlan [OF _ _ x, of "new_receiver\<lparr>conf := test_conf False True 0x00\<rparr>" empty_sdu]
    by (simp add: example_header_ops_def comp_ppdu_vlan_def test_conf_def vlan_frame_fields)
  have ok: "reassembly_insert_vlan_ptype vlan_frame 18 empty_sdu =
              (True, \<lparr>sdu_buffer =
                        memcpy (memcpy (memcpy (sdu_buffer empty_sdu) 0 vlan_frame 16) 16
                                  [0x08, 0x00] 2) 18 (drop 16 vlan_frame) (18 - 16),
                      sdu_size = 18 + 2, sdu_protocol_type = 0x8100\<rparr>)"
    using reassembly_insert_vlan_ptype_ok [of 18 vlan_frame empty_sdu]
    by (simp add: vlan_frame_fields)
  show ?thesis
    unfolding r ok by (simp add: memcpy_def empty_sdu_def vlan_frame_def)
qed

section \<open>The way of an SDU through the reassembly\<close>

text \<open>
  The transmitter is not in the sources, nor are the functions that write and read
  the headers. What arrives at the receiver is described by what the receiver's
  header functions read from it (\<open>carries\<close>); what the encapsulation makes of an SDU
  is known from the ALPDU that \<^verbatim>\<open>test_rle_encap.c\<close> expects in the transmitter's
  context.
\<close>

subsection \<open>The steps of a reassembly\<close>

lemma conf_ctx_upd [simp]: "conf (ctx_upd r i f) = conf r"
  by (simp add: ctx_upd_def)

lemma seqnum_ctx_upd [simp]: "is_ctx_seqnum_init (ctx_upd r i f) = is_ctx_seqnum_init r"
  by (simp add: ctx_upd_def)

lemma set_nonfree_simps [simp]:
  "conf (set_nonfree_frag_ctx_r r i) = conf r"
  "is_ctx_seqnum_init (set_nonfree_frag_ctx_r r i) = is_ctx_seqnum_init r"
  "rle_ctx_man (set_nonfree_frag_ctx_r r i) = rle_ctx_man r"
  "ctx_at (set_nonfree_frag_ctx_r r i) j = ctx_at r j"
  by (simp_all add: set_nonfree_frag_ctx_r_def ctx_at_def)

lemma not_free_set_nonfree:
  "i < 8 \<Longrightarrow> \<not> is_context_free (set_nonfree_frag_ctx_r r i) i"
  by (simp add: set_nonfree_frag_ctx_r_def is_context_free_def bit_set_bit_iff)

lemma memcpy_append:
  assumes "take (length got) dst = got" and "length got \<le> length dst"
  shows "take (length got + length f) (memcpy dst (length got) f (length got + length f - length got))
           = got @ f"
    and "length got + length f \<le> length (memcpy dst (length got) f (length got + length f - length got))"
  using assms by (simp_all add: memcpy_def)

lemma reassembly_start_ppdu_ok:
  assumes r: "length (rle_ctx_man r) = 8" and i: "i \<le> 7" and free: "is_context_free r i"
    and start: "start_carries h (conf r) p i f0 n pt cpt crc"
    and len: "length f0 \<le> n"
  shows "\<exists>r'. reassembly_start_ppdu h r p (length p) = Some (C_OK, r', i) \<and>
              reassembling r' i f0 n pt cpt crc \<and> conf r' = conf r \<and>
              is_ctx_seqnum_init r' = is_ctx_seqnum_init r"
proof -
  obtain alpdu_frag alpdu_total_len is_crc_used
    where e: "start_ppdu_extract_alpdu_frag h p (length p) = (alpdu_frag, alpdu_total_len, is_crc_used)"
    by (cases "start_ppdu_extract_alpdu_frag h p (length p)") auto
  obtain x hl where
    x: "alpdu_extract_sdu_frag h (conf r) (rle_start_ppdu_hdr_get_is_suppressed h p)
          (rle_start_ppdu_hdr_get_is_signal h p) alpdu_frag = (x, hl)"
    by (cases "alpdu_extract_sdu_frag h (conf r) (rle_start_ppdu_hdr_get_is_suppressed h p)
          (rle_start_ppdu_hdr_get_is_signal h p) alpdu_frag") auto
  from start e x have s:
    "rle_start_ppdu_hdr_get_frag_id h p = i" "x_ret x = 0" "x_ptype x = pt" "x_comp_ptype x = cpt"
    "x_sdu_frag x = f0" "is_crc_used = crc"
    "alpdu_total_len = hl + n + (if crc then sizeof_rle_alpdu_crc_trailer_t
                  else sizeof_rle_alpdu_seqno_trailer_t)"
    by (simp_all add: start_carries_def)
  have i8: "i < 8" using i by simp
  show ?thesis
    using r i8 free len x s(2-) not_free_set_nonfree [OF i8]
    unfolding reassembly_start_ppdu_def s(1) Let_def e prod.case
      alpdu_extract_sdu_frag_def [symmetric]
    by (simp add: RLE_MAX_FRAG_ID_def size_t_sub_def reassembling_def
        rasm_buf_init_def rasm_buf_sdu_put_def rasm_buf_sdu_frag_put_def
        rasm_buf_cpy_sdu_frag_def rle_ctx_set_use_crc_r_def memcpy_def)
qed

lemma reassembly_cont_ppdu_ok:
  assumes inv: "reassembling r i got n pt cpt crc" and i: "i \<le> 7"
    and cont: "cont_carries h p i f" and len: "length got + length f \<le> n"
  shows "\<exists>r'. reassembly_cont_ppdu h r p (length p) = Some (C_OK, r', i) \<and>
              reassembling r' i (got @ f) n pt cpt crc \<and> conf r' = conf r \<and>
              is_ctx_seqnum_init r' = is_ctx_seqnum_init r"
proof -
  from cont have c: "rle_cont_end_ppdu_hdr_get_frag_id h p = i"
    "cont_end_ppdu_extract_alpdu_frag h p (length p) = f"
    by (simp_all add: cont_carries_def)
  have i8: "i < 8" using i by simp
  from inv have r: "length (rle_ctx_man r) = 8" "\<not> is_context_free r i"
    "use_crc (ctx_at r i) = crc" "sdu_end (buff (ctx_at r i)) = n"
    "sdu_info_size (buff (ctx_at r i)) = n" "sdu_frag_end (buff (ctx_at r i)) = length got"
    "take (length got) (rasm_bytes (buff (ctx_at r i))) = got"
    "length got \<le> length (rasm_bytes (buff (ctx_at r i)))"
    "sdu_info_protocol_type (buff (ctx_at r i)) = pt" "comp_protocol_type (buff (ctx_at r i)) = cpt"
    by (simp_all add: reassembling_def)
  show ?thesis
    using r i8 len
    unfolding reassembly_cont_ppdu_def c Let_def
    by (simp add: RLE_MAX_FRAG_ID_def reassembling_def
        rasm_buf_init_sdu_frag_def rasm_buf_sdu_frag_put_def rasm_buf_get_sdu_len_def
        rasm_buf_get_reassembled_sdu_len_def rle_ctx_incr_counter_bytes_in_def
        rasm_buf_cpy_sdu_frag_def memcpy_def)
qed

lemma reassembly_conts_ok:
  assumes "list_all2 (\<lambda>p f. cont_carries h p i f) ps fs" and "i \<le> 7"
    and "reassembling r i got n pt cpt crc"
    and "length got + length (concat fs) \<le> n"
    and "\<And>r'. reassembling r' i (got @ concat fs) n pt cpt crc \<Longrightarrow>
           is_ctx_seqnum_init r' = is_ctx_seqnum_init r \<Longrightarrow>
           \<exists>r'' out. reassembly_ppdus h r' rest = Some (r'', out) \<and> Q r'' out"
  shows "\<exists>r'' out. reassembly_ppdus h r (map (Pair PPDU_CONT) ps @ rest) = Some (r'', out) \<and> Q r'' out"
  using assms
proof (induction ps fs arbitrary: r got rule: list_all2_induct)
  case Nil
  then show ?case by simp
next
  case (Cons p ps f fs)
  from Cons.prems(3) have len: "length got + length f \<le> n" by simp
  from reassembly_cont_ppdu_ok [OF Cons.prems(2) Cons.prems(1) Cons.hyps(1) len]
  obtain r1 where r1: "reassembly_cont_ppdu h r p (length p) = Some (C_OK, r1, i)"
    "reassembling r1 i (got @ f) n pt cpt crc" "conf r1 = conf r"
    "is_ctx_seqnum_init r1 = is_ctx_seqnum_init r" by blast
  have "\<exists>r'' out. reassembly_ppdus h r1 (map (Pair PPDU_CONT) ps @ rest) = Some (r'', out) \<and> Q r'' out"
  proof (rule Cons.IH [OF Cons.prems(1) r1(2)])
    show "length (got @ f) + length (concat fs) \<le> n" using Cons.prems(3) by simp
  next
    fix r'
    assume "reassembling r' i ((got @ f) @ concat fs) n pt cpt crc"
      "is_ctx_seqnum_init r' = is_ctx_seqnum_init r1"
    then show "\<exists>r'' out. reassembly_ppdus h r' rest = Some (r'', out) \<and> Q r'' out"
      using Cons.prems(4) [of r'] r1(4) by simp
  qed
  then obtain r2 out where "reassembly_ppdus h r1 (map (Pair PPDU_CONT) ps @ rest) = Some (r2, out)" "Q r2 out" by blast
  then show ?case by (simp add: reassembly_ppdu_def r1(1))
qed

lemma reassembly_end_ppdu_ok:
  assumes inv: "reassembling r i got (length (got @ fl)) pt cpt crc" and i: "i \<le> 7"
    and e: "end_carries h p i fl trailer"
    and tl: "length trailer = (if crc then sizeof_rle_alpdu_crc_trailer_t
                               else sizeof_rle_alpdu_seqno_trailer_t)"
    and cpt: "cpt \<noteq> RLE_PROTO_TYPE_VLAN_COMP_WO_PTYPE_FIELD h"
    and acc: "trailer_accepted h trailer (got @ fl) pt crc (is_ctx_seqnum_init r ! i)"
  shows "\<exists>r' s. reassembly_end_ppdu h r p (length p) empty_sdu = Some (C_REASSEMBLY_OK, r', i, s) \<and>
              sdu_size s = length (got @ fl) \<and>
              take (length (got @ fl)) (sdu_buffer s) = got @ fl \<and>
              sdu_protocol_type s = pt \<and> is_context_free r' i"
proof -
  from e have c: "rle_cont_end_ppdu_hdr_get_frag_id h p = i"
    "cont_end_ppdu_extract_alpdu_frag h p (length p) = fl @ trailer"
    by (simp_all add: end_carries_def)
  have i8: "i < 8" using i by simp
  from inv have r: "length (rle_ctx_man r) = 8" "\<not> is_context_free r i"
    "use_crc (ctx_at r i) = crc" "sdu_end (buff (ctx_at r i)) = length got + length fl"
    "sdu_info_size (buff (ctx_at r i)) = length got + length fl"
    "sdu_frag_end (buff (ctx_at r i)) = length got"
    "take (length got) (rasm_bytes (buff (ctx_at r i))) = got"
    "length got \<le> length (rasm_bytes (buff (ctx_at r i)))"
    "sdu_info_protocol_type (buff (ctx_at r i)) = pt" "comp_protocol_type (buff (ctx_at r i)) = cpt"
    by (simp_all add: reassembling_def)
  let ?r2 = "counted r i (length p)"
  let ?rb = "(buff (ctx_at r i))\<lparr>sdu_frag_start := length got,
               sdu_frag_end := length got + length fl,
               rasm_bytes := memcpy (rasm_bytes (buff (ctx_at r i))) (length got) fl (length fl)\<rparr>"
  let ?s = "\<lparr>sdu_buffer = memcpy [] 0 (rasm_bytes ?rb) (length got + length fl),
             sdu_size = length got + length fl, sdu_protocol_type = pt\<rparr>"
  have tk: "take (length got + length fl) (rasm_bytes ?rb) = got @ fl"
    and ln: "length got + length fl \<le> length (rasm_bytes ?rb)"
    using r(7,8) by (simp_all add: memcpy_def)
  have b: "end_build_sdu h ?rb empty_sdu = Some (True, ?s)"
    using cpt r(5,9,10) by (simp add: end_build_sdu_def empty_sdu_def)
  have s: "take (length got + length fl) (sdu_buffer ?s) = got @ fl"
    using tk ln by (simp add: memcpy_def)
  have st: "fst (check_alpdu_trailer h trailer ?s c (is_ctx_seqnum_init r ! i)) = 0"
    if "use_crc c = crc" for c
    using acc s that unfolding trailer_accepted_def by simp
  let ?c = "(ctx_at r i)\<lparr>current_counter := current_counter (ctx_at r i) + of_nat (length p),
               counter_bytes_in := counter_bytes_in (ctx_at r i) + of_nat (length p),
               buff := ?rb\<rparr>"
  obtain c' b' l where chk:
    "check_alpdu_trailer h trailer ?s ?c (is_ctx_seqnum_init r ! i) = (0, c', b', l)"
    using st [of ?c] r(3)
    by (cases "check_alpdu_trailer h trailer ?s ?c (is_ctx_seqnum_init r ! i)") auto
  show ?thesis
    using r i8 tl b s chk
    unfolding reassembly_end_ppdu_def c Let_def
    by (simp add: RLE_MAX_FRAG_ID_def
        rasm_buf_init_sdu_frag_def rasm_buf_sdu_frag_put_def rasm_buf_get_sdu_len_def
        rasm_buf_get_reassembled_sdu_len_def rle_ctx_incr_counter_bytes_in_def
        rasm_buf_cpy_sdu_frag_def rle_ctx_get_use_crc_def)
qed

lemma reassembly_comp_ppdu_ok:
  assumes c: "comp_carries h (conf r) p bytes pt"
  shows "\<exists>s. reassembly_comp_ppdu h r p (length p) empty_sdu = Some (C_REASSEMBLY_OK, s) \<and>
             sdu_size s = length bytes \<and> take (length bytes) (sdu_buffer s) = bytes \<and>
             sdu_protocol_type s = pt"
proof -
  let ?a = "comp_ppdu_extract_alpdu_frag h p (length p)"
  let ?x = "fst (alpdu_extract_sdu_frag h (conf r) (rle_comp_ppdu_hdr_get_is_suppressed h p)
                     (rle_comp_ppdu_hdr_get_is_signal h p) ?a)"
  from c have x: "x_ret ?x = 0" "x_ptype ?x = pt" "x_sdu_frag ?x = bytes"
    "x_comp_ptype ?x \<noteq> RLE_PROTO_TYPE_VLAN_COMP_WO_PTYPE_FIELD h"
    unfolding comp_carries_def Let_def by simp_all
  have e: "(if rle_comp_ppdu_hdr_get_is_suppressed h p then
                 (if rle_comp_ppdu_hdr_get_is_signal h p
                  then signal_alpdu_extract_sdu_frag h ?a
                  else suppr_alpdu_extract_sdu_frag h ?a (conf r))
               else if use_compressed_ptype (conf r)
               then comp_alpdu_extract_sdu_frag h ?a
               else uncomp_alpdu_extract_sdu_frag h ?a) = ?x"
    by (simp add: alpdu_extract_sdu_frag_def)
  have "reassembly_comp_ppdu h r p (length p) empty_sdu =
          Some (C_REASSEMBLY_OK,
                 \<lparr>sdu_buffer = memcpy (sdu_buffer empty_sdu) 0 bytes (length bytes),
                  sdu_size = length bytes, sdu_protocol_type = pt\<rparr>)"
    unfolding reassembly_comp_ppdu_def Let_def e using x by simp
  then show ?thesis by (simp add: memcpy_def empty_sdu_def)
qed

lemma reassembly_fragments_ok:
  assumes r: "length (rle_ctx_man r) = 8" and i: "i \<le> 7" and free: "is_context_free r i"
    and bytes: "bytes = f0 @ concat fs @ fl"
    and start: "start_carries h (conf r) p0 i f0 (length bytes) pt cpt crc"
    and conts: "list_all2 (\<lambda>p f. cont_carries h p i f) ps fs"
    and e: "end_carries h pe i fl trailer"
    and tl: "length trailer = (if crc then sizeof_rle_alpdu_crc_trailer_t
                               else sizeof_rle_alpdu_seqno_trailer_t)"
    and cpt: "cpt \<noteq> RLE_PROTO_TYPE_VLAN_COMP_WO_PTYPE_FIELD h"
    and acc: "trailer_accepted h trailer bytes pt crc (is_ctx_seqnum_init r ! i)"
  shows "\<exists>r' s. reassembly_ppdus h r ((PPDU_START, p0) # map (Pair PPDU_CONT) ps @ [(PPDU_END, pe)]) = Some (r', [s]) \<and>
              sdu_size s = length bytes \<and> take (length bytes) (sdu_buffer s) = bytes \<and>
              sdu_protocol_type s = pt \<and> is_context_free r' i"
proof -
  have l0: "length f0 \<le> length bytes" using bytes by simp
  from reassembly_start_ppdu_ok [OF r i free start l0]
  obtain r1 where r1: "reassembly_start_ppdu h r p0 (length p0) = Some (C_OK, r1, i)"
    "reassembling r1 i f0 (length bytes) pt cpt crc" "conf r1 = conf r"
    "is_ctx_seqnum_init r1 = is_ctx_seqnum_init r" by blast
  have b2: "bytes = (f0 @ concat fs) @ fl" using bytes by simp
  let ?Q = "\<lambda>r' out. \<exists>s. out = [s] \<and>
              sdu_size s = length bytes \<and> take (length bytes) (sdu_buffer s) = bytes \<and>
              sdu_protocol_type s = pt \<and> is_context_free r' i"
  have l1: "length f0 + length (concat fs) \<le> length bytes" using bytes by simp
  have "\<exists>r'' out. reassembly_ppdus h r1 (map (Pair PPDU_CONT) ps @ [(PPDU_END, pe)]) = Some (r'', out) \<and> ?Q r'' out"
  proof (rule reassembly_conts_ok [OF conts i r1(2) l1])
    fix r2
    assume inv: "reassembling r2 i (f0 @ concat fs) (length bytes) pt cpt crc"
      and sq: "is_ctx_seqnum_init r2 = is_ctx_seqnum_init r1"
    have inv': "reassembling r2 i (f0 @ concat fs) (length ((f0 @ concat fs) @ fl)) pt cpt crc"
      using inv b2 by simp
    have acc': "trailer_accepted h trailer ((f0 @ concat fs) @ fl) pt crc (is_ctx_seqnum_init r2 ! i)"
      using acc b2 sq r1(4) by simp
    from reassembly_end_ppdu_ok [OF inv' i e tl cpt acc']
    obtain r' s where es:
      "reassembly_end_ppdu h r2 pe (length pe) empty_sdu = Some (C_REASSEMBLY_OK, r', i, s)"
      "sdu_size s = length ((f0 @ concat fs) @ fl)"
      "take (length ((f0 @ concat fs) @ fl)) (sdu_buffer s) = (f0 @ concat fs) @ fl"
      "sdu_protocol_type s = pt" "is_context_free r' i" by blast
    have d: "reassembly_ppdus h r2 [(PPDU_END, pe)] = Some (r', [s])"
      by (simp add: reassembly_ppdu_def es(1))
    have q: "?Q r' [s]" using es(2-) b2 by simp
    from d q show "\<exists>r'' out. reassembly_ppdus h r2 [(PPDU_END, pe)] = Some (r'', out) \<and> ?Q r'' out"
      by blast
  qed
  then obtain r' out where d: "reassembly_ppdus h r1 (map (Pair PPDU_CONT) ps @ [(PPDU_END, pe)]) = Some (r', out)" and q: "?Q r' out"
    by blast
  from q obtain s where s: "out = [s]" "sdu_size s = length bytes"
    "take (length bytes) (sdu_buffer s) = bytes" "sdu_protocol_type s = pt"
    "is_context_free r' i" by blast
  have "reassembly_ppdus h r ((PPDU_START, p0) # map (Pair PPDU_CONT) ps @ [(PPDU_END, pe)]) = Some (r', [s])"
    using d s(1) by (simp add: reassembly_ppdu_def r1(1))
  with s(2-) show ?thesis by blast
qed

subsection \<open>The SDU delivered\<close>

text \<open>
  The receiver's half of a round trip. On a receiver whose context \<open>i\<close> is free, the
  reassembly functions called in order on PPDUs that carry an SDU (one COMP PPDU,
  or a START, CONT and END PPDUs on the fragment id \<open>i\<close> with the fragments of the
  SDU in order, the announced length of its ALPDU and a trailer that the check
  accepts), from which the extraction of the ALPDU header recovers the protocol
  type of the SDU, deliver exactly one SDU: it has the bytes and the protocol type
  of the one carried, and the context is free again.
\<close>

lemma reassembly_delivers_the_carried_sdu:
  assumes "length (rle_ctx_man r) = 8" and "i \<le> 7" and "is_context_free r i"
    and "carries h (conf r) (is_ctx_seqnum_init r ! i) i ppdus bytes pt"
  shows "\<exists>r' s. reassembly_ppdus h r ppdus = Some (r', [s]) \<and>
              sdu_size s = length bytes \<and> take (length bytes) (sdu_buffer s) = bytes \<and>
              sdu_protocol_type s = pt \<and> is_context_free r' i"
  using assms(4) unfolding carries_def
proof (elim disjE exE conjE)
  fix p
  assume p: "ppdus = [(PPDU_COMP, p)]" "comp_carries h (conf r) p bytes pt"
  from reassembly_comp_ppdu_ok [OF p(2)]
  obtain s where s: "reassembly_comp_ppdu h r p (length p) empty_sdu = Some (C_REASSEMBLY_OK, s)"
    "sdu_size s = length bytes" "take (length bytes) (sdu_buffer s) = bytes"
    "sdu_protocol_type s = pt" by blast
  have "reassembly_ppdus h r ppdus = Some (r, [s])"
    by (simp add: p(1) reassembly_ppdu_def s(1))
  with s(2-) assms(3) show ?thesis by blast
next
  fix p0 ps pe f0 fs fl trailer cpt crc
  assume "ppdus = (PPDU_START, p0) # map (Pair PPDU_CONT) ps @ [(PPDU_END, pe)]" "bytes = f0 @ concat fs @ fl"
    "start_carries h (conf r) p0 i f0 (length bytes) pt cpt crc"
    "list_all2 (\<lambda>p f. cont_carries h p i f) ps fs"
    "end_carries h pe i fl trailer"
    "length trailer = (if crc then sizeof_rle_alpdu_crc_trailer_t
                          else sizeof_rle_alpdu_seqno_trailer_t)"
    "cpt \<noteq> RLE_PROTO_TYPE_VLAN_COMP_WO_PTYPE_FIELD h"
    "trailer_accepted h trailer bytes pt crc (is_ctx_seqnum_init r ! i)"
  then show ?thesis
    using reassembly_fragments_ok [OF assms(1-3)] by blast
qed

lemma reassembly_delivers_the_carried_sdu_example:
  "length (rle_ctx_man new_receiver) = 8 \<and> is_context_free new_receiver 0 \<and>
   carries (example_header_ops no_crc) (conf new_receiver) (is_ctx_seqnum_init new_receiver ! 0) 0
     [(PPDU_START, start_ppdu_13), (PPDU_CONT, cont_ppdu_4), (PPDU_END, end_ppdu_4)]
     [1, 2, 3, 4, 5, 6, 7, 8, 9, 10] 0x0800 \<and>
   (\<exists>r' s. reassembly_ppdus (example_header_ops no_crc) new_receiver
              [(PPDU_START, start_ppdu_13), (PPDU_CONT, cont_ppdu_4), (PPDU_END, end_ppdu_4)] =
              Some (r', [s]) \<and>
            sdu_size s = 10 \<and> take 10 (sdu_buffer s) = [1, 2, 3, 4, 5, 6, 7, 8, 9, 10] \<and>
            sdu_protocol_type s = 0x0800 \<and> is_context_free r' 0)"
proof -
  let ?h = "example_header_ops no_crc"
  let ?bytes = "[1, 2, 3, 4, 5, 6, 7, 8, 9, 10] :: byte list"
  have l: "length (rle_ctx_man new_receiver) = 8" by (simp add: new_receiver_def)
  have f: "is_context_free new_receiver 0" by (simp add: new_receiver_def is_context_free_def)
  have st: "start_carries ?h (conf new_receiver) start_ppdu_13 0 [1, 2, 3] (length ?bytes) 0x0800
              0xff False"
    by (simp add: start_carries_def example_header_ops_def start_ppdu_13_def
        alpdu_extract_sdu_frag_def example_uncomp_extract_def new_receiver_def test_conf_def
        sizeof_rle_alpdu_hdr_uncomp_t_def sizeof_rle_alpdu_seqno_trailer_t_def)
  have ct: "list_all2 (\<lambda>p f. cont_carries ?h p 0 f) [cont_ppdu_4] [[4, 5, 6, 7]]"
    by (simp add: cont_carries_def example_header_ops_def cont_ppdu_4_def)
  have en: "end_carries ?h end_ppdu_4 0 [8, 9, 10] [0x00]"
    by (simp add: end_carries_def example_header_ops_def end_ppdu_4_def)
  have ta: "trailer_accepted ?h [0x00] ?bytes 0x0800 False (is_ctx_seqnum_init new_receiver ! 0)"
    by (simp add: trailer_accepted_def example_header_ops_def example_check_alpdu_trailer_def
        new_receiver_def Let_def)
  have c: "carries ?h (conf new_receiver) (is_ctx_seqnum_init new_receiver ! 0) 0
     [(PPDU_START, start_ppdu_13), (PPDU_CONT, cont_ppdu_4), (PPDU_END, end_ppdu_4)] ?bytes 0x0800"
    unfolding carries_def
    apply (rule disjI2)
    apply (rule exI [where x = start_ppdu_13])
    apply (rule exI [where x = "[cont_ppdu_4]"])
    apply (rule exI [where x = end_ppdu_4])
    apply (rule exI [where x = "[1, 2, 3]"])
    apply (rule exI [where x = "[[4, 5, 6, 7]]"])
    apply (rule exI [where x = "[8, 9, 10]"])
    apply (rule exI [where x = "[0x00]"])
    apply (rule exI [where x = "0xff"])
    apply (rule exI [where x = False])
    using st ct en ta
    apply (simp add: sizeof_rle_alpdu_seqno_trailer_t_def)
    apply (simp add: example_header_ops_def)
    done
  have len: "length ?bytes = 10" by simp
  from reassembly_delivers_the_carried_sdu [OF l le0 f c, unfolded len] l f c
  show ?thesis by blast
qed

text \<open>
  The protocol type is not always recoverable. With omission on and the implicit code \<^verbatim>\<open>0x30\<close>, the
  configuration \<^verbatim>\<open>conf_omitted_ip\<close> of \<^verbatim>\<open>test_encap_all\<close>, the encapsulation of the
  same twenty bytes as an SDU of the type \<^verbatim>\<open>0x0800\<close> and as one of the type
  \<^verbatim>\<open>0x86dd\<close> must give the same ALPDU, the bytes with no header. Whatever is made of
  an ALPDU on the way to the receiver, and whatever the receiver makes of what it
  gets, both SDUs cannot come out as they went in. With the header functions of the
  instance above, the COMP PPDU of this ALPDU delivers the bytes with the type
  \<^verbatim>\<open>0x0800\<close>, which the first nibble 4 selects: the SDU sent with \<^verbatim>\<open>0x86dd\<close> arrives
  with another type.
\<close>

lemma ip_omitted_alpdu_loses_the_type:
  "(theorical_alpdu_header conf_omitted_ip 0x0800 @ ipv4_sdu 20) =
     (theorical_alpdu_header conf_omitted_ip 0x86dd @ ipv4_sdu 20) \<and>
   \<not> (\<exists>(pack :: byte list \<Rightarrow> byte list list) (decap :: byte list list \<Rightarrow> (byte list \<times> 16 word) list).
        decap (pack ((theorical_alpdu_header conf_omitted_ip 0x0800 @ ipv4_sdu 20))) =
          [(ipv4_sdu 20, 0x0800)] \<and>
        decap (pack ((theorical_alpdu_header conf_omitted_ip 0x86dd @ ipv4_sdu 20))) =
          [(ipv4_sdu 20, 0x86dd)]) \<and>
   map_option (\<lambda>(ret, s). (ret, sdu_size s, sdu_protocol_type s, take 20 (sdu_buffer s)))
     (reassembly_comp_ppdu (example_header_ops no_crc)
        (new_receiver\<lparr>conf := test_conf True False 0x30\<rparr>) comp_ppdu_suppressed 22 empty_sdu) =
     Some (C_REASSEMBLY_OK, 20, 0x0800, ipv4_sdu 20)"
proof -
  have a: "(theorical_alpdu_header conf_omitted_ip 0x0800 @ ipv4_sdu 20) =
     (theorical_alpdu_header conf_omitted_ip 0x86dd @ ipv4_sdu 20)"
    by (simp add: theorical_alpdu_header_def conf_omitted_ip_def is_suppressible_def)
  have b: "\<not> (\<exists>(pack :: byte list \<Rightarrow> byte list list) (decap :: byte list list \<Rightarrow> (byte list \<times> 16 word) list).
        decap (pack ((theorical_alpdu_header conf_omitted_ip 0x0800 @ ipv4_sdu 20))) =
          [(ipv4_sdu 20, 0x0800)] \<and>
        decap (pack ((theorical_alpdu_header conf_omitted_ip 0x86dd @ ipv4_sdu 20))) =
          [(ipv4_sdu 20, 0x86dd)])"
    unfolding a by simp
  have s: "ipv4_sdu 20 = [0x45, 0x00, 0x00, 0x14, 0, 0, 0, 0, 0, 0, 0, 0, 0, 0, 0, 0, 0, 0, 0, 0]"
    by (simp add: ipv4_sdu_def eval_nat_numeral)
  have c: "map_option (\<lambda>(ret, s). (ret, sdu_size s, sdu_protocol_type s, take 20 (sdu_buffer s)))
     (reassembly_comp_ppdu (example_header_ops no_crc)
        (new_receiver\<lparr>conf := test_conf True False 0x30\<rparr>) comp_ppdu_suppressed 22 empty_sdu) =
     Some (C_REASSEMBLY_OK, 20, 0x0800, ipv4_sdu 20)"
    unfolding s comp_ppdu_suppressed_def
    by (simp add: reassembly_comp_ppdu_def example_header_ops_def example_suppr_extract_def
        test_conf_def Let_def memcpy_def empty_sdu_def drop_bit_eq_div)
  from a b c show ?thesis by blast
qed

section \<open>The VLAN protocol type in the receiver\<close>

lemma vlan_fields_take:
  assumes "17 \<le> len"
  shows "vlan_eth_proto_type (take len buf) = vlan_eth_proto_type buf"
    and "vlan_ip_version (take len buf) = vlan_ip_version buf"
  using assms by (simp_all add: vlan_eth_proto_type_def vlan_ip_version_def)

lemma reassembly_insert_vlan_ptype_frame:
  assumes len: "len \<le> length buf"
  shows "vlan_frame_ok (take len buf) \<Longrightarrow>
           \<exists>s'. reassembly_insert_vlan_ptype buf len s = (True, s') \<and>
                rebuilt_sdu s' (take len buf)"
    and "\<not> vlan_frame_ok (take len buf) \<Longrightarrow>
           reassembly_insert_vlan_ptype buf len s = (False, s)"
proof -
  have l: "length (take len buf) = len" using len by simp
  {
    assume ok: "vlan_frame_ok (take len buf)"
    then have l17: "17 \<le> len" using l by (simp add: vlan_frame_ok_def)
    from ok have f: "vlan_eth_proto_type buf = 0x8100"
      "vlan_ip_version buf = 4 \<or> vlan_ip_version buf = 6"
      using vlan_fields_take [OF l17, of buf] by (simp_all add: vlan_frame_ok_def)
    from reassembly_insert_vlan_ptype_correct [OF len, of s] l17 f
    obtain b where b: "reassembly_insert_vlan_ptype buf len s =
                   (True, \<lparr>sdu_buffer = b, sdu_size = len + 2,
                           sdu_protocol_type = 0x8100\<rparr>)"
      "take (len + 2) b =
                   take 16 buf
                   @ (if vlan_ip_version buf = 4 then [0x08, 0x00] else [0x86, 0xdd])
                   @ take (len - 16) (drop 16 buf)"
      by blast
    have t16: "take 16 (take len buf) = take 16 buf" using l17 by (simp add: min_def)
    have d16: "drop 16 (take len buf) = take (len - 16) (drop 16 buf)"
      by (simp add: drop_take)
    have "rebuilt_sdu \<lparr>sdu_buffer = b, sdu_size = len + 2, sdu_protocol_type = 0x8100\<rparr>
            (take len buf)"
      unfolding rebuilt_sdu_def vlan_rebuilt_def l t16 d16 vlan_fields_take(2) [OF l17]
      using b(2) by simp
    with b(1) show "\<exists>s'. reassembly_insert_vlan_ptype buf len s = (True, s') \<and>
                rebuilt_sdu s' (take len buf)" by blast
  }
  {
    assume no: "\<not> vlan_frame_ok (take len buf)"
    have "len < 17 \<or> vlan_eth_proto_type buf \<noteq> 0x8100 \<or>
          (vlan_ip_version buf \<noteq> 4 \<and> vlan_ip_version buf \<noteq> 6)"
    proof (cases "17 \<le> len")
      case True
      with no show ?thesis using vlan_fields_take [OF True, of buf] l
        by (auto simp: vlan_frame_ok_def)
    next
      case False
      then show ?thesis by simp
    qed
    then show "reassembly_insert_vlan_ptype buf len s = (False, s)"
      by (rule reassembly_insert_vlan_ptype_fails)
  }
qed

lemma reassembly_comp_ppdu_vlan_frame:
  assumes x: "x = fst (alpdu_extract_sdu_frag h (conf r) (rle_comp_ppdu_hdr_get_is_suppressed h p)
                    (rle_comp_ppdu_hdr_get_is_signal h p) (comp_ppdu_extract_alpdu_frag h p n))"
    and r: "x_ret x = 0"
    and c: "x_comp_ptype x = RLE_PROTO_TYPE_VLAN_COMP_WO_PTYPE_FIELD h"
    and t: "x_ptype x = 0x8100"
  shows "vlan_frame_ok (x_sdu_frag x) \<Longrightarrow>
           \<exists>s'. reassembly_comp_ppdu h r p n s = Some (C_REASSEMBLY_OK, s') \<and>
                rebuilt_sdu s' (x_sdu_frag x)"
    and "\<not> vlan_frame_ok (x_sdu_frag x) \<Longrightarrow>
           reassembly_comp_ppdu h r p n s = Some (C_ERROR, s)"
proof -
  let ?a = "comp_ppdu_extract_alpdu_frag h p n"
  have e: "(if rle_comp_ppdu_hdr_get_is_suppressed h p then
                 (if rle_comp_ppdu_hdr_get_is_signal h p
                  then signal_alpdu_extract_sdu_frag h ?a
                  else suppr_alpdu_extract_sdu_frag h ?a (conf r))
               else if use_compressed_ptype (conf r)
               then comp_alpdu_extract_sdu_frag h ?a
               else uncomp_alpdu_extract_sdu_frag h ?a) = x"
    by (simp add: x alpdu_extract_sdu_frag_def)
  have res: "reassembly_comp_ppdu h r p n s =
           Some (case reassembly_insert_vlan_ptype (x_sdu_frag x) (length (x_sdu_frag x)) s of
                   (False, s') \<Rightarrow> (C_ERROR, s')
                 | (True, s') \<Rightarrow> (C_REASSEMBLY_OK, s'))"
    unfolding reassembly_comp_ppdu_def Let_def e using r c t
    by (simp add: RLE_PROTO_TYPE_VLAN_UNCOMP_def split: prod.splits bool.splits)
  have tk: "take (length (x_sdu_frag x)) (x_sdu_frag x) = x_sdu_frag x" by simp
  {
    assume "vlan_frame_ok (x_sdu_frag x)"
    then obtain s' where
      "reassembly_insert_vlan_ptype (x_sdu_frag x) (length (x_sdu_frag x)) s = (True, s')"
      "rebuilt_sdu s' (x_sdu_frag x)"
      using reassembly_insert_vlan_ptype_frame(1) [of "length (x_sdu_frag x)" "x_sdu_frag x" s]
      by (auto simp: tk)
    then show "\<exists>s'. reassembly_comp_ppdu h r p n s = Some (C_REASSEMBLY_OK, s') \<and>
                rebuilt_sdu s' (x_sdu_frag x)"
      by (simp add: res)
  }
  {
    assume "\<not> vlan_frame_ok (x_sdu_frag x)"
    then have "reassembly_insert_vlan_ptype (x_sdu_frag x) (length (x_sdu_frag x)) s = (False, s)"
      using reassembly_insert_vlan_ptype_frame(2) [of "length (x_sdu_frag x)" "x_sdu_frag x" s]
      by (simp add: tk)
    then show "reassembly_comp_ppdu h r p n s = Some (C_ERROR, s)" by (simp add: res)
  }
qed

lemma reassembly_end_ppdu_build_error:
  assumes "rle_cont_end_ppdu_hdr_get_frag_id h ppdu = i" and "i < 8"
    and "length (rle_ctx_man r) = 8"
    and "\<not> is_context_free r i"
    and "frag = cont_end_ppdu_extract_alpdu_frag h ppdu n"
    and "end_trailer_len r i \<le> length frag"
    and "sdu_info_size (buff (ctx_at r i)) = sdu_end (buff (ctx_at r i))"
    and "sdu_frag_end (buff (ctx_at r i)) + (length frag - end_trailer_len r i)
           = sdu_end (buff (ctx_at r i))"
    and "end_build_sdu h (end_rasm_buf r i frag) s = Some (False, s1)"
  shows "\<exists>r'. reassembly_end_ppdu h r ppdu n s = Some (C_ERROR, r', i, s1) \<and>
              dropped_and_released r r' i n 0"
proof -
  let ?c = "counted r i n"
  have i: "i < length (rle_ctx_man r)" using assms(2,3) by simp
  have c: "ctx_at ?c i =
             (ctx_at r i)\<lparr>current_counter := current_counter (ctx_at r i) + of_nat n,
                          counter_bytes_in := counter_bytes_in (ctx_at r i) + of_nat n\<rparr>"
    using i by (rule ctx_at_counted)
  have tl: "(if rle_ctx_get_use_crc (ctx_at ?c i) then sizeof_rle_alpdu_crc_trailer_t
             else sizeof_rle_alpdu_seqno_trailer_t) = end_trailer_len r i"
    by (simp add: c rle_ctx_get_use_crc_def end_trailer_len_def)
  define k where "k = length frag - end_trailer_len r i"
  have bc: "buff (ctx_at ?c i) = buff (ctx_at r i)" by (simp add: c)
  have rbeq: "rasm_buf_cpy_sdu_frag
                (rasm_buf_sdu_frag_put (rasm_buf_init_sdu_frag (buff (ctx_at r i))) k)
                (take k frag) = end_rasm_buf r i frag"
    by (simp add: end_rasm_buf_def Let_def k_def)
  define r3 where "r3 = ctx_upd ?c i (\<lambda>c. c\<lparr>buff := end_rasm_buf r i frag\<rparr>)"
  have r3': "ctx_upd ?c i (\<lambda>c. c\<lparr>buff :=
               rasm_buf_cpy_sdu_frag
                 (rasm_buf_sdu_frag_put (rasm_buf_init_sdu_frag (buff c)) k) (take k frag)\<rparr>)
             = r3"
    using i bc rbeq by (simp add: r3_def ctx_upd_def ctx_at_def)
  have c3: "ctx_at r3 i = (ctx_at ?c i)\<lparr>buff := end_rasm_buf r i frag\<rparr>"
    using i by (simp add: r3_def)
  have rb: "sdu_end (end_rasm_buf r i frag) = sdu_end (buff (ctx_at r i))"
           "sdu_frag_end (end_rasm_buf r i frag) = sdu_frag_end (buff (ctx_at r i)) + k"
    by (simp_all add: end_rasm_buf_def Let_def k_def rasm_buf_cpy_sdu_frag_def
        rasm_buf_sdu_frag_put_def rasm_buf_init_sdu_frag_def)
  have res: "reassembly_end_ppdu h r ppdu n s =
           Some (C_ERROR, rle_receiver_free_context (drop_context r3 i 0) i, i, s1)"
    using assms(1,2,4,6,7,8,9) tl
    by (simp add: reassembly_end_ppdu_def Let_def counted_def [symmetric] RLE_MAX_FRAG_ID_def
        assms(5) [symmetric] bc rasm_buf_get_reassembled_sdu_len_def rasm_buf_get_sdu_len_def
        k_def [symmetric] r3' c3 rb r3_def [symmetric])
  have l3: "length (rle_ctx_man r3) = 8" using assms(3) by (simp add: r3_def)
  have "dropped_and_released r (rle_receiver_free_context (drop_context r3 i 0) i) i n 0"
    using assms(2) l3 by (rule released_after_length_error) (simp_all add: c3 c)
  with res show ?thesis by blast
qed

lemma reassembly_end_ppdu_delivers:
  assumes "rle_cont_end_ppdu_hdr_get_frag_id h ppdu = i" and "i < 8"
    and "length (rle_ctx_man r) = 8"
    and "\<not> is_context_free r i"
    and "frag = cont_end_ppdu_extract_alpdu_frag h ppdu n"
    and "end_trailer_len r i \<le> length frag"
    and "sdu_info_size (buff (ctx_at r i)) = sdu_end (buff (ctx_at r i))"
    and "sdu_frag_end (buff (ctx_at r i)) + (length frag - end_trailer_len r i)
           = sdu_end (buff (ctx_at r i))"
    and "end_build_sdu h (end_rasm_buf r i frag) s = Some (True, s1)"
    and "fst (end_check h r i n frag s1) = 0"
  shows "\<exists>r'. reassembly_end_ppdu h r ppdu n s = Some (C_REASSEMBLY_OK, r', i, s1) \<and>
              is_context_free r' i"
proof -
  obtain c' init' lost where ec: "end_check h r i n frag s1 = (0, c', init', lost)"
    using assms(10) by (cases "end_check h r i n frag s1") auto
  let ?c = "counted r i n"
  have i: "i < length (rle_ctx_man r)" using assms(2,3) by simp
  have c: "ctx_at ?c i =
             (ctx_at r i)\<lparr>current_counter := current_counter (ctx_at r i) + of_nat n,
                          counter_bytes_in := counter_bytes_in (ctx_at r i) + of_nat n\<rparr>"
    using i by (rule ctx_at_counted)
  have tl: "(if rle_ctx_get_use_crc (ctx_at ?c i) then sizeof_rle_alpdu_crc_trailer_t
             else sizeof_rle_alpdu_seqno_trailer_t) = end_trailer_len r i"
    by (simp add: c rle_ctx_get_use_crc_def end_trailer_len_def)
  define k where "k = length frag - end_trailer_len r i"
  have bc: "buff (ctx_at ?c i) = buff (ctx_at r i)" by (simp add: c)
  have rbeq: "rasm_buf_cpy_sdu_frag
                (rasm_buf_sdu_frag_put (rasm_buf_init_sdu_frag (buff (ctx_at r i))) k)
                (take k frag) = end_rasm_buf r i frag"
    by (simp add: end_rasm_buf_def Let_def k_def)
  define r3 where "r3 = ctx_upd ?c i (\<lambda>c. c\<lparr>buff := end_rasm_buf r i frag\<rparr>)"
  have r3': "ctx_upd ?c i (\<lambda>c. c\<lparr>buff :=
               rasm_buf_cpy_sdu_frag
                 (rasm_buf_sdu_frag_put (rasm_buf_init_sdu_frag (buff c)) k) (take k frag)\<rparr>)
             = r3"
    using i bc rbeq by (simp add: r3_def ctx_upd_def ctx_at_def)
  have c3: "ctx_at r3 i = (ctx_at ?c i)\<lparr>buff := end_rasm_buf r i frag\<rparr>"
    using i by (simp add: r3_def)
  have rb: "sdu_end (end_rasm_buf r i frag) = sdu_end (buff (ctx_at r i))"
           "sdu_frag_end (end_rasm_buf r i frag) = sdu_frag_end (buff (ctx_at r i)) + k"
    by (simp_all add: end_rasm_buf_def Let_def k_def rasm_buf_cpy_sdu_frag_def
        rasm_buf_sdu_frag_put_def rasm_buf_init_sdu_frag_def)
  have init3: "is_ctx_seqnum_init r3 = is_ctx_seqnum_init r"
    by (simp add: r3_def counted_def ctx_upd_def)
  have chk: "check_alpdu_trailer h (drop k frag) s1 (ctx_at r3 i) (is_ctx_seqnum_init r3 ! i)
               = (0, c', init', lost)"
    using ec by (simp add: end_check_def c3 init3 k_def)
  have "reassembly_end_ppdu h r ppdu n s =
           Some (C_REASSEMBLY_OK,
                 rle_receiver_free_context
                   (ctx_upd
                      (ctx_upd
                         ((ctx_upd r3 i (\<lambda>_. c'))
                          \<lparr>is_ctx_seqnum_init := (is_ctx_seqnum_init r)[i := init']\<rparr>)
                         i (\<lambda>c. rle_ctx_incr_counter_bytes_ok c (sdu_size s1)))
                      i rle_ctx_incr_counter_ok) i,
                 i, s1)"
    using assms(1,2,4,6,7,8,9) tl chk
    by (simp add: reassembly_end_ppdu_def Let_def counted_def [symmetric] RLE_MAX_FRAG_ID_def
        assms(5) [symmetric] bc rasm_buf_get_reassembled_sdu_len_def rasm_buf_get_sdu_len_def
        k_def [symmetric] r3' c3 rb init3 r3_def [symmetric])
  then show ?thesis by simp
qed

lemma end_rasm_buf_reassembling:
  assumes inv: "reassembling r i got (length (got @ fl)) pt cpt crc"
    and tl: "length trailer = (if crc then sizeof_rle_alpdu_crc_trailer_t
                               else sizeof_rle_alpdu_seqno_trailer_t)"
  shows "end_trailer_len r i = length trailer"
    and "take (length (got @ fl)) (rasm_bytes (end_rasm_buf r i (fl @ trailer))) = got @ fl"
    and "length (got @ fl) \<le> length (rasm_bytes (end_rasm_buf r i (fl @ trailer)))"
    and "sdu_info_size (end_rasm_buf r i (fl @ trailer)) = length (got @ fl)"
    and "sdu_info_protocol_type (end_rasm_buf r i (fl @ trailer)) = pt"
    and "comp_protocol_type (end_rasm_buf r i (fl @ trailer)) = cpt"
proof -
  from inv have r: "use_crc (ctx_at r i) = crc"
    "sdu_info_size (buff (ctx_at r i)) = length got + length fl"
    "sdu_frag_end (buff (ctx_at r i)) = length got"
    "take (length got) (rasm_bytes (buff (ctx_at r i))) = got"
    "length got \<le> length (rasm_bytes (buff (ctx_at r i)))"
    "sdu_info_protocol_type (buff (ctx_at r i)) = pt" "comp_protocol_type (buff (ctx_at r i)) = cpt"
    by (simp_all add: reassembling_def)
  show t: "end_trailer_len r i = length trailer"
    using r(1) tl by (simp add: end_trailer_len_def rle_ctx_get_use_crc_def)
  have e: "end_rasm_buf r i (fl @ trailer) =
             (buff (ctx_at r i))\<lparr>sdu_frag_start := length got,
               sdu_frag_end := length got + length fl,
               rasm_bytes := memcpy (rasm_bytes (buff (ctx_at r i))) (length got) fl (length fl)\<rparr>"
    using r(3) by (simp add: end_rasm_buf_def t Let_def rasm_buf_init_sdu_frag_def
        rasm_buf_sdu_frag_put_def rasm_buf_cpy_sdu_frag_def)
  show "take (length (got @ fl)) (rasm_bytes (end_rasm_buf r i (fl @ trailer))) = got @ fl"
    using r(4,5) by (simp add: e memcpy_def)
  show "length (got @ fl) \<le> length (rasm_bytes (end_rasm_buf r i (fl @ trailer)))"
    using r(5) by (simp add: e memcpy_def)
  show "sdu_info_size (end_rasm_buf r i (fl @ trailer)) = length (got @ fl)"
    using r(2) by (simp add: e)
  show "sdu_info_protocol_type (end_rasm_buf r i (fl @ trailer)) = pt" using r(6) by (simp add: e)
  show "comp_protocol_type (end_rasm_buf r i (fl @ trailer)) = cpt" using r(7) by (simp add: e)
qed

lemma reassembly_end_ppdu_vlan_frame:
  assumes inv: "reassembling r i got (length (got @ fl)) 0x8100
                  (RLE_PROTO_TYPE_VLAN_COMP_WO_PTYPE_FIELD h) crc"
    and i: "i < 8" and fid: "rle_cont_end_ppdu_hdr_get_frag_id h p = i"
    and frag: "cont_end_ppdu_extract_alpdu_frag h p n = fl @ trailer"
    and tl: "length trailer = (if crc then sizeof_rle_alpdu_crc_trailer_t
                               else sizeof_rle_alpdu_seqno_trailer_t)"
  shows "vlan_frame_ok (got @ fl) \<Longrightarrow>
           \<exists>s'. rebuilt_sdu s' (got @ fl) \<and>
             (fst (end_check h r i n (fl @ trailer) s') = 0 \<longrightarrow>
                (\<exists>r'. reassembly_end_ppdu h r p n s = Some (C_REASSEMBLY_OK, r', i, s') \<and>
                      is_context_free r' i)) \<and>
             (fst (end_check h r i n (fl @ trailer) s') \<noteq> 0 \<longrightarrow>
                (\<exists>r'. reassembly_end_ppdu h r p n s = Some (C_ERROR, r', i, s')))"
    and "\<not> vlan_frame_ok (got @ fl) \<Longrightarrow>
           \<exists>r'. reassembly_end_ppdu h r p n s = Some (C_ERROR, r', i, s) \<and>
                dropped_and_released r r' i n 0"
proof -
  let ?frag = "fl @ trailer"
  let ?rb = "end_rasm_buf r i ?frag"
  note e = end_rasm_buf_reassembling [OF inv tl]
  from inv have r: "length (rle_ctx_man r) = 8" "\<not> is_context_free r i"
    "sdu_end (buff (ctx_at r i)) = length got + length fl"
    "sdu_info_size (buff (ctx_at r i)) = length got + length fl"
    "sdu_frag_end (buff (ctx_at r i)) = length got"
    by (simp_all add: reassembling_def)
  have f: "?frag = cont_end_ppdu_extract_alpdu_frag h p n" using frag by simp
  have a6: "end_trailer_len r i \<le> length ?frag" using e(1) by simp
  have a7: "sdu_info_size (buff (ctx_at r i)) = sdu_end (buff (ctx_at r i))" using r(3,4) by simp
  have a8: "sdu_frag_end (buff (ctx_at r i)) + (length ?frag - end_trailer_len r i)
              = sdu_end (buff (ctx_at r i))"
    using r(3,5) e(1) by simp
  have b: "end_build_sdu h ?rb s =
             Some (reassembly_insert_vlan_ptype (rasm_bytes ?rb) (length (got @ fl)) s)"
    using end_build_sdu_vlan [of ?rb h s] e(4,5,6) by simp
  {
    assume ok: "vlan_frame_ok (got @ fl)"
    from reassembly_insert_vlan_ptype_frame(1) [OF e(3), of s] ok e(2)
    obtain s' where s': "reassembly_insert_vlan_ptype (rasm_bytes ?rb) (length (got @ fl)) s
                           = (True, s')" "rebuilt_sdu s' (got @ fl)"
      by auto
    have bs: "end_build_sdu h ?rb s = Some (True, s')" using b s'(1) by simp
    have d: "fst (end_check h r i n ?frag s') = 0 \<longrightarrow>
                (\<exists>r'. reassembly_end_ppdu h r p n s = Some (C_REASSEMBLY_OK, r', i, s') \<and>
                      is_context_free r' i)"
      using reassembly_end_ppdu_delivers [OF fid i r(1,2) f a6 a7 a8 bs] by blast
    have t: "fst (end_check h r i n ?frag s') \<noteq> 0 \<longrightarrow>
                (\<exists>r'. reassembly_end_ppdu h r p n s = Some (C_ERROR, r', i, s'))"
    proof
      assume ne: "fst (end_check h r i n ?frag s') \<noteq> 0"
      obtain st c' init' lost where ec: "end_check h r i n ?frag s' = (st, c', init', lost)"
        by (cases "end_check h r i n ?frag s'") auto
      with ne have "st \<noteq> 0" by simp
      from reassembly_end_ppdu_trailer_error [OF fid i r(1,2) f a6 a7 a8 bs ec this]
      show "\<exists>r'. reassembly_end_ppdu h r p n s = Some (C_ERROR, r', i, s')" by blast
    qed
    from s'(2) d t show "\<exists>s'. rebuilt_sdu s' (got @ fl) \<and>
             (fst (end_check h r i n (fl @ trailer) s') = 0 \<longrightarrow>
                (\<exists>r'. reassembly_end_ppdu h r p n s = Some (C_REASSEMBLY_OK, r', i, s') \<and>
                      is_context_free r' i)) \<and>
             (fst (end_check h r i n (fl @ trailer) s') \<noteq> 0 \<longrightarrow>
                (\<exists>r'. reassembly_end_ppdu h r p n s = Some (C_ERROR, r', i, s')))"
      by blast
  }
  {
    assume no: "\<not> vlan_frame_ok (got @ fl)"
    from reassembly_insert_vlan_ptype_frame(2) [OF e(3), of s] no e(2)
    have "reassembly_insert_vlan_ptype (rasm_bytes ?rb) (length (got @ fl)) s = (False, s)"
      by simp
    then have bs: "end_build_sdu h ?rb s = Some (False, s)" using b by simp
    from reassembly_end_ppdu_build_error [OF fid i r(1,2) f a6 a7 a8 bs]
    show "\<exists>r'. reassembly_end_ppdu h r p n s = Some (C_ERROR, r', i, s) \<and>
                dropped_and_released r r' i n 0" .
  }
qed

text \<open>
  Claim C5. When the compressed protocol type recovered for an SDU is the code of
  a VLAN header without protocol type: \<^verbatim>\<open>reassembly_insert_vlan_ptype\<close> rebuilds a
  frame of at least 17 bytes whose Ethernet type is \<^verbatim>\<open>0x8100\<close> and whose payload
  has the IP version 4 or 6 into an SDU two bytes longer, of the protocol type
  \<^verbatim>\<open>0x8100\<close>, with the first 16 bytes of the frame (Ethernet header and VLAN tag),
  then \<^verbatim>\<open>0x0800\<close> for version 4 or \<^verbatim>\<open>0x86dd\<close> for version 6, then the rest of the
  frame, and fails on every other frame, leaving the SDU untouched. A COMP PPDU
  whose extraction gives this code returns \<^verbatim>\<open>C_REASSEMBLY_OK\<close> with the rebuilt SDU
  for the first kind of frame and \<^verbatim>\<open>C_ERROR\<close> for the others. An END PPDU that
  completes such an SDU on the fragment id \<open>i\<close>, where \<open>got\<close> are the bytes received
  before and \<open>fl\<close> those of the END, hands the rebuilt SDU to the check of the
  trailer and returns \<^verbatim>\<open>C_REASSEMBLY_OK\<close> with it, the context released, when the
  check accepts, and \<^verbatim>\<open>C_ERROR\<close> when it refuses; for the other frames it returns
  \<^verbatim>\<open>C_ERROR\<close>, counts the packet dropped and releases the context.
\<close>

theorem reassembly_vlan_ptype_rebuilt_or_dropped:
  "(len \<le> length buf \<longrightarrow>
      (vlan_frame_ok (take len buf) \<longrightarrow>
         (\<exists>s'. reassembly_insert_vlan_ptype buf len s = (True, s') \<and>
               rebuilt_sdu s' (take len buf))) \<and>
      (\<not> vlan_frame_ok (take len buf) \<longrightarrow>
         reassembly_insert_vlan_ptype buf len s = (False, s))) \<and>
   (x = fst (alpdu_extract_sdu_frag h (conf r) (rle_comp_ppdu_hdr_get_is_suppressed h p)
               (rle_comp_ppdu_hdr_get_is_signal h p) (comp_ppdu_extract_alpdu_frag h p n)) \<and>
    x_ret x = 0 \<and> x_comp_ptype x = RLE_PROTO_TYPE_VLAN_COMP_WO_PTYPE_FIELD h \<and>
    x_ptype x = 0x8100 \<longrightarrow>
      (vlan_frame_ok (x_sdu_frag x) \<longrightarrow>
         (\<exists>s'. reassembly_comp_ppdu h r p n s = Some (C_REASSEMBLY_OK, s') \<and>
               rebuilt_sdu s' (x_sdu_frag x))) \<and>
      (\<not> vlan_frame_ok (x_sdu_frag x) \<longrightarrow>
         reassembly_comp_ppdu h r p n s = Some (C_ERROR, s))) \<and>
   (reassembling r' i got (length (got @ fl)) 0x8100
      (RLE_PROTO_TYPE_VLAN_COMP_WO_PTYPE_FIELD h) crc \<and>
    i < 8 \<and> rle_cont_end_ppdu_hdr_get_frag_id h q = i \<and>
    cont_end_ppdu_extract_alpdu_frag h q m = fl @ trailer \<and>
    length trailer = (if crc then sizeof_rle_alpdu_crc_trailer_t
                      else sizeof_rle_alpdu_seqno_trailer_t) \<longrightarrow>
      (vlan_frame_ok (got @ fl) \<longrightarrow>
         (\<exists>s'. rebuilt_sdu s' (got @ fl) \<and>
            (fst (end_check h r' i m (fl @ trailer) s') = 0 \<longrightarrow>
               (\<exists>r''. reassembly_end_ppdu h r' q m s = Some (C_REASSEMBLY_OK, r'', i, s') \<and>
                      is_context_free r'' i)) \<and>
            (fst (end_check h r' i m (fl @ trailer) s') \<noteq> 0 \<longrightarrow>
               (\<exists>r''. reassembly_end_ppdu h r' q m s = Some (C_ERROR, r'', i, s'))))) \<and>
      (\<not> vlan_frame_ok (got @ fl) \<longrightarrow>
         (\<exists>r''. reassembly_end_ppdu h r' q m s = Some (C_ERROR, r'', i, s) \<and>
                dropped_and_released r' r'' i m 0)))"
proof (intro conjI impI)
  assume l: "len \<le> length buf"
  show "vlan_frame_ok (take len buf) \<Longrightarrow>
         \<exists>s'. reassembly_insert_vlan_ptype buf len s = (True, s') \<and>
               rebuilt_sdu s' (take len buf)"
    by (rule reassembly_insert_vlan_ptype_frame(1) [OF l])
  show "\<not> vlan_frame_ok (take len buf) \<Longrightarrow>
         reassembly_insert_vlan_ptype buf len s = (False, s)"
    by (rule reassembly_insert_vlan_ptype_frame(2) [OF l])
next
  assume a: "x = fst (alpdu_extract_sdu_frag h (conf r) (rle_comp_ppdu_hdr_get_is_suppressed h p)
               (rle_comp_ppdu_hdr_get_is_signal h p) (comp_ppdu_extract_alpdu_frag h p n)) \<and>
    x_ret x = 0 \<and> x_comp_ptype x = RLE_PROTO_TYPE_VLAN_COMP_WO_PTYPE_FIELD h \<and>
    x_ptype x = 0x8100"
  then have c: "x = fst (alpdu_extract_sdu_frag h (conf r)
               (rle_comp_ppdu_hdr_get_is_suppressed h p)
               (rle_comp_ppdu_hdr_get_is_signal h p) (comp_ppdu_extract_alpdu_frag h p n))"
    "x_ret x = 0" "x_comp_ptype x = RLE_PROTO_TYPE_VLAN_COMP_WO_PTYPE_FIELD h"
    "x_ptype x = 0x8100"
    by blast+
  show "vlan_frame_ok (x_sdu_frag x) \<Longrightarrow>
         \<exists>s'. reassembly_comp_ppdu h r p n s = Some (C_REASSEMBLY_OK, s') \<and>
               rebuilt_sdu s' (x_sdu_frag x)"
    by (rule reassembly_comp_ppdu_vlan_frame(1) [OF c])
  show "\<not> vlan_frame_ok (x_sdu_frag x) \<Longrightarrow>
         reassembly_comp_ppdu h r p n s = Some (C_ERROR, s)"
    by (rule reassembly_comp_ppdu_vlan_frame(2) [OF c])
next
  assume a: "reassembling r' i got (length (got @ fl)) 0x8100
      (RLE_PROTO_TYPE_VLAN_COMP_WO_PTYPE_FIELD h) crc \<and>
    i < 8 \<and> rle_cont_end_ppdu_hdr_get_frag_id h q = i \<and>
    cont_end_ppdu_extract_alpdu_frag h q m = fl @ trailer \<and>
    length trailer = (if crc then sizeof_rle_alpdu_crc_trailer_t
                      else sizeof_rle_alpdu_seqno_trailer_t)"
  then have b: "reassembling r' i got (length (got @ fl)) 0x8100
      (RLE_PROTO_TYPE_VLAN_COMP_WO_PTYPE_FIELD h) crc" "i < 8"
    "rle_cont_end_ppdu_hdr_get_frag_id h q = i"
    "cont_end_ppdu_extract_alpdu_frag h q m = fl @ trailer"
    "length trailer = (if crc then sizeof_rle_alpdu_crc_trailer_t
                      else sizeof_rle_alpdu_seqno_trailer_t)"
    by blast+
  show "vlan_frame_ok (got @ fl) \<Longrightarrow>
         \<exists>s'. rebuilt_sdu s' (got @ fl) \<and>
            (fst (end_check h r' i m (fl @ trailer) s') = 0 \<longrightarrow>
               (\<exists>r''. reassembly_end_ppdu h r' q m s = Some (C_REASSEMBLY_OK, r'', i, s') \<and>
                      is_context_free r'' i)) \<and>
            (fst (end_check h r' i m (fl @ trailer) s') \<noteq> 0 \<longrightarrow>
               (\<exists>r''. reassembly_end_ppdu h r' q m s = Some (C_ERROR, r'', i, s')))"
    by (rule reassembly_end_ppdu_vlan_frame(1) [OF b])
  show "\<not> vlan_frame_ok (got @ fl) \<Longrightarrow>
         \<exists>r''. reassembly_end_ppdu h r' q m s = Some (C_ERROR, r'', i, s) \<and>
                dropped_and_released r' r'' i m 0"
    by (rule reassembly_end_ppdu_vlan_frame(2) [OF b])
qed

lemma example_end_check_seqno:
  assumes "i < length (rle_ctx_man r)" and "\<not> use_crc (ctx_at r i)"
  shows "fst (end_check (example_header_ops crc) r i n frag s) = 0"
  using assms
  by (simp add: end_check_def example_header_ops_def example_check_alpdu_trailer_def
      ctx_at_counted Let_def)

lemma started_receiver_vlan_reassembling:
  "reassembling started_receiver_vlan 0 (take 10 vlan_frame) 18 0x8100 0x31 False"
proof -
  let ?h = "example_header_ops no_crc"
  have l: "length (rle_ctx_man vlan_receiver) = 8"
    by (simp add: vlan_receiver_def new_receiver_def)
  have f: "is_context_free vlan_receiver 0"
    by (simp add: vlan_receiver_def new_receiver_def is_context_free_def)
  have st: "start_carries ?h (conf vlan_receiver) start_ppdu_vlan 0 (take 10 vlan_frame) 18
              0x8100 0x31 False"
    by (simp add: start_carries_def example_header_ops_def start_ppdu_vlan_def vlan_frame_def
        alpdu_extract_sdu_frag_def example_comp_extract_def vlan_receiver_def test_conf_def
        sizeof_rle_alpdu_seqno_trailer_t_def)
  have n: "length start_ppdu_vlan = 15" by (simp add: start_ppdu_vlan_def vlan_frame_def)
  have "length (take 10 vlan_frame) \<le> 18" by simp
  from reassembly_start_ppdu_ok [OF l le0 f st this]
  obtain r' where "reassembly_start_ppdu ?h vlan_receiver start_ppdu_vlan 15 = Some (C_OK, r', 0)"
    "reassembling r' 0 (take 10 vlan_frame) 18 0x8100 0x31 False"
    unfolding n by blast
  then show ?thesis by (simp add: started_receiver_vlan_def)
qed

theorem reassembly_vlan_ptype_rebuilt_or_dropped_witness:
  "(\<exists>s'. reassembly_comp_ppdu (example_header_ops no_crc) vlan_receiver comp_ppdu_vlan 21
            empty_sdu = Some (C_REASSEMBLY_OK, s') \<and>
         rebuilt_sdu s' vlan_frame) \<and>
   vlan_rebuilt vlan_frame =
     [0, 0, 0, 0, 0, 0, 0, 0, 0, 0, 0, 0, 0x81, 0x00, 0x00, 0x01, 0x08, 0x00, 0x45, 0x00] \<and>
   reassembly_comp_ppdu (example_header_ops no_crc) vlan_receiver comp_ppdu_vlan_v5 21 empty_sdu =
     Some (C_ERROR, empty_sdu) \<and>
   (\<exists>r'' s'. reassembly_end_ppdu (example_header_ops no_crc) started_receiver_vlan end_ppdu_vlan 11
               empty_sdu = Some (C_REASSEMBLY_OK, r'', 0, s') \<and>
            rebuilt_sdu s' vlan_frame \<and> is_context_free r'' 0) \<and>
   (\<exists>r''. reassembly_end_ppdu (example_header_ops no_crc) started_receiver_vlan end_ppdu_vlan_v5 11
            empty_sdu = Some (C_ERROR, r'', 0, empty_sdu) \<and>
          dropped_and_released started_receiver_vlan r'' 0 11 0)"
proof -
  let ?h = "example_header_ops no_crc"
  let ?x = "\<lparr>x_ret = 0, x_ptype = 0x8100, x_comp_ptype = 0x31, x_sdu_frag = vlan_frame,
             x_alpdu_hdr_len = 1\<rparr>"
  let ?x5 = "\<lparr>x_ret = 0, x_ptype = 0x8100, x_comp_ptype = 0x31, x_sdu_frag = vlan_frame_v5,
             x_alpdu_hdr_len = 1\<rparr>"
  have code: "RLE_PROTO_TYPE_VLAN_COMP_WO_PTYPE_FIELD ?h = 0x31"
    by (simp add: example_header_ops_def)
  have ok: "vlan_frame_ok vlan_frame" and no: "\<not> vlan_frame_ok vlan_frame_v5"
    by (simp_all add: vlan_frame_ok_def vlan_frame_fields)
  have rb: "vlan_rebuilt vlan_frame =
     [0, 0, 0, 0, 0, 0, 0, 0, 0, 0, 0, 0, 0x81, 0x00, 0x00, 0x01, 0x08, 0x00, 0x45, 0x00]"
    by (simp add: vlan_rebuilt_def vlan_frame_fields) (simp add: vlan_frame_def)
  have x: "?x = fst (alpdu_extract_sdu_frag ?h (conf vlan_receiver)
               (rle_comp_ppdu_hdr_get_is_suppressed ?h comp_ppdu_vlan)
               (rle_comp_ppdu_hdr_get_is_signal ?h comp_ppdu_vlan)
               (comp_ppdu_extract_alpdu_frag ?h comp_ppdu_vlan 21))"
    by (simp add: alpdu_extract_sdu_frag_def example_header_ops_def comp_ppdu_vlan_def
        vlan_receiver_def test_conf_def example_comp_extract_def vlan_frame_def)
  have x5: "?x5 = fst (alpdu_extract_sdu_frag ?h (conf vlan_receiver)
               (rle_comp_ppdu_hdr_get_is_suppressed ?h comp_ppdu_vlan_v5)
               (rle_comp_ppdu_hdr_get_is_signal ?h comp_ppdu_vlan_v5)
               (comp_ppdu_extract_alpdu_frag ?h comp_ppdu_vlan_v5 21))"
    by (simp add: alpdu_extract_sdu_frag_def example_header_ops_def comp_ppdu_vlan_v5_def
        vlan_receiver_def test_conf_def example_comp_extract_def vlan_frame_v5_def)
  note inv = started_receiver_vlan_reassembling
  have l8: "0 < length (rle_ctx_man started_receiver_vlan)"
    and nc: "\<not> use_crc (ctx_at started_receiver_vlan 0)"
    using inv by (simp_all add: reassembling_def)
  have g: "take 10 vlan_frame @ drop 10 vlan_frame = vlan_frame"
    and g5: "take 10 vlan_frame @ drop 10 vlan_frame_v5 = vlan_frame_v5"
    by (simp_all add: vlan_frame_def vlan_frame_v5_def)
  have inv1: "reassembling started_receiver_vlan 0 (take 10 vlan_frame)
                (length (take 10 vlan_frame @ drop 10 vlan_frame)) 0x8100
                (RLE_PROTO_TYPE_VLAN_COMP_WO_PTYPE_FIELD ?h) False"
    using inv by (simp add: code g vlan_frame_fields)
  have inv5: "reassembling started_receiver_vlan 0 (take 10 vlan_frame)
                (length (take 10 vlan_frame @ drop 10 vlan_frame_v5)) 0x8100
                (RLE_PROTO_TYPE_VLAN_COMP_WO_PTYPE_FIELD ?h) False"
    using inv by (simp add: code g5 vlan_frame_fields)
  have e: "rle_cont_end_ppdu_hdr_get_frag_id ?h end_ppdu_vlan = 0"
    "cont_end_ppdu_extract_alpdu_frag ?h end_ppdu_vlan 11 = drop 10 vlan_frame @ [0x00]"
    by (simp_all add: example_header_ops_def end_ppdu_vlan_def vlan_frame_def)
  have e5: "rle_cont_end_ppdu_hdr_get_frag_id ?h end_ppdu_vlan_v5 = 0"
    "cont_end_ppdu_extract_alpdu_frag ?h end_ppdu_vlan_v5 11 = drop 10 vlan_frame_v5 @ [0x00]"
    by (simp_all add: example_header_ops_def end_ppdu_vlan_v5_def vlan_frame_v5_def)
  have t: "length [0x00 :: byte] = (if False then sizeof_rle_alpdu_crc_trailer_t
                      else sizeof_rle_alpdu_seqno_trailer_t)"
    by (simp add: sizeof_rle_alpdu_seqno_trailer_t_def)
  have chk: "fst (end_check ?h started_receiver_vlan 0 11 frag s') = 0" for frag s'
    using l8 nc by (rule example_end_check_seqno)
  have pa: "?x = fst (alpdu_extract_sdu_frag ?h (conf vlan_receiver)
               (rle_comp_ppdu_hdr_get_is_suppressed ?h comp_ppdu_vlan)
               (rle_comp_ppdu_hdr_get_is_signal ?h comp_ppdu_vlan)
               (comp_ppdu_extract_alpdu_frag ?h comp_ppdu_vlan 21)) \<and>
             x_ret ?x = 0 \<and> x_comp_ptype ?x = RLE_PROTO_TYPE_VLAN_COMP_WO_PTYPE_FIELD ?h \<and>
             x_ptype ?x = 0x8100"
    by (intro conjI, rule x) (simp_all add: code)
  have pb: "?x5 = fst (alpdu_extract_sdu_frag ?h (conf vlan_receiver)
               (rle_comp_ppdu_hdr_get_is_suppressed ?h comp_ppdu_vlan_v5)
               (rle_comp_ppdu_hdr_get_is_signal ?h comp_ppdu_vlan_v5)
               (comp_ppdu_extract_alpdu_frag ?h comp_ppdu_vlan_v5 21)) \<and>
             x_ret ?x5 = 0 \<and> x_comp_ptype ?x5 = RLE_PROTO_TYPE_VLAN_COMP_WO_PTYPE_FIELD ?h \<and>
             x_ptype ?x5 = 0x8100"
    by (intro conjI, rule x5) (simp_all add: code)
  have pc: "reassembling started_receiver_vlan 0 (take 10 vlan_frame)
              (length (take 10 vlan_frame @ drop 10 vlan_frame)) 0x8100
              (RLE_PROTO_TYPE_VLAN_COMP_WO_PTYPE_FIELD ?h) False \<and>
            (0 :: nat) < 8 \<and> rle_cont_end_ppdu_hdr_get_frag_id ?h end_ppdu_vlan = 0 \<and>
            cont_end_ppdu_extract_alpdu_frag ?h end_ppdu_vlan 11 = drop 10 vlan_frame @ [0x00] \<and>
            length [0x00 :: byte] = (if False then sizeof_rle_alpdu_crc_trailer_t
                      else sizeof_rle_alpdu_seqno_trailer_t)"
    by (intro conjI, rule inv1, simp, rule e(1), rule e(2), rule t)
  have pd: "reassembling started_receiver_vlan 0 (take 10 vlan_frame)
              (length (take 10 vlan_frame @ drop 10 vlan_frame_v5)) 0x8100
              (RLE_PROTO_TYPE_VLAN_COMP_WO_PTYPE_FIELD ?h) False \<and>
            (0 :: nat) < 8 \<and> rle_cont_end_ppdu_hdr_get_frag_id ?h end_ppdu_vlan_v5 = 0 \<and>
            cont_end_ppdu_extract_alpdu_frag ?h end_ppdu_vlan_v5 11 =
              drop 10 vlan_frame_v5 @ [0x00] \<and>
            length [0x00 :: byte] = (if False then sizeof_rle_alpdu_crc_trailer_t
                      else sizeof_rle_alpdu_seqno_trailer_t)"
    by (intro conjI, rule inv5, simp, rule e5(1), rule e5(2), rule t)
  have a: "\<exists>s'. reassembly_comp_ppdu ?h vlan_receiver comp_ppdu_vlan 21 empty_sdu =
                  Some (C_REASSEMBLY_OK, s') \<and> rebuilt_sdu s' vlan_frame"
    using reassembly_vlan_ptype_rebuilt_or_dropped
            [where x = ?x and h = ?h and r = vlan_receiver and p = comp_ppdu_vlan and n = 21
               and s = empty_sdu, THEN conjunct2, THEN conjunct1, THEN mp, OF pa,
             THEN conjunct1]
      ok
    by simp
  have b: "reassembly_comp_ppdu ?h vlan_receiver comp_ppdu_vlan_v5 21 empty_sdu =
             Some (C_ERROR, empty_sdu)"
    using reassembly_vlan_ptype_rebuilt_or_dropped
            [where x = ?x5 and h = ?h and r = vlan_receiver and p = comp_ppdu_vlan_v5 and n = 21
               and s = empty_sdu, THEN conjunct2, THEN conjunct1, THEN mp, OF pb,
             THEN conjunct2]
      no
    by simp
  have "\<exists>s'. rebuilt_sdu s' (take 10 vlan_frame @ drop 10 vlan_frame) \<and>
            (fst (end_check ?h started_receiver_vlan 0 11 (drop 10 vlan_frame @ [0x00]) s') = 0
             \<longrightarrow>
               (\<exists>r''. reassembly_end_ppdu ?h started_receiver_vlan end_ppdu_vlan 11 empty_sdu =
                        Some (C_REASSEMBLY_OK, r'', 0, s') \<and>
                      is_context_free r'' 0)) \<and>
            (fst (end_check ?h started_receiver_vlan 0 11 (drop 10 vlan_frame @ [0x00]) s') \<noteq> 0
             \<longrightarrow>
               (\<exists>r''. reassembly_end_ppdu ?h started_receiver_vlan end_ppdu_vlan 11 empty_sdu =
                        Some (C_ERROR, r'', 0, s')))"
    using reassembly_vlan_ptype_rebuilt_or_dropped
            [where h = ?h and r' = started_receiver_vlan and i = 0 and got = "take 10 vlan_frame"
               and fl = "drop 10 vlan_frame" and trailer = "[0x00]" and crc = False
               and q = end_ppdu_vlan and m = 11 and s = empty_sdu,
             THEN conjunct2, THEN conjunct2, THEN mp, OF pc, THEN conjunct1]
      ok
    unfolding g by blast
  then obtain s' where s': "rebuilt_sdu s' (take 10 vlan_frame @ drop 10 vlan_frame)"
    "fst (end_check ?h started_receiver_vlan 0 11 (drop 10 vlan_frame @ [0x00]) s') = 0
             \<longrightarrow>
               (\<exists>r''. reassembly_end_ppdu ?h started_receiver_vlan end_ppdu_vlan 11 empty_sdu =
                        Some (C_REASSEMBLY_OK, r'', 0, s') \<and>
                      is_context_free r'' 0)"
    by blast
  from s'(2) chk obtain r'' where
    "reassembly_end_ppdu ?h started_receiver_vlan end_ppdu_vlan 11 empty_sdu =
       Some (C_REASSEMBLY_OK, r'', 0, s')" "is_context_free r'' 0"
    by blast
  with s'(1) have c: "\<exists>r'' s'. reassembly_end_ppdu ?h started_receiver_vlan end_ppdu_vlan 11
               empty_sdu = Some (C_REASSEMBLY_OK, r'', 0, s') \<and>
            rebuilt_sdu s' vlan_frame \<and> is_context_free r'' 0"
    unfolding g by blast
  have d: "\<exists>r''. reassembly_end_ppdu ?h started_receiver_vlan end_ppdu_vlan_v5 11 empty_sdu =
             Some (C_ERROR, r'', 0, empty_sdu) \<and>
          dropped_and_released started_receiver_vlan r'' 0 11 0"
    using reassembly_vlan_ptype_rebuilt_or_dropped
            [where h = ?h and r' = started_receiver_vlan and i = 0 and got = "take 10 vlan_frame"
               and fl = "drop 10 vlan_frame_v5" and trailer = "[0x00]" and crc = False
               and q = end_ppdu_vlan_v5 and m = 11 and s = empty_sdu,
             THEN conjunct2, THEN conjunct2, THEN mp, OF pd, THEN conjunct2]
      no
    unfolding g5 by blast
  from a rb b c d show ?thesis by blast
qed

end
